(* ===== verification/Ganesha_Prelude.thy ===== *)
theory Ganesha_Prelude
  imports Main "HOL-Library.Word"
begin

text \<open>
  Types, collections of simplification rules and generic lemmas shared by the theories of
  this development: the C integer types, association of list membership with the
  \<^verbatim>\<open>glist\<close> operations, and facts on unsigned 64-bit arithmetic that the byte-range
  lock proofs use.
\<close>

subsection \<open>C integer types\<close>

type_synonym uint32 = "32 word"
type_synonym uint64 = "64 word"
type_synonym byte = "8 word"

text \<open>The C constant \<^verbatim>\<open>UINT64_MAX\<close>.\<close>

abbreviation UINT64_MAX :: uint64 where "UINT64_MAX \<equiv> - 1"

subsection \<open>Collections of rules\<close>

named_theorems frame \<open>what an operation leaves unchanged\<close>
named_theorems effect \<open>what an operation does to the part of the state it is about\<close>

subsection \<open>Lists\<close>

lemma find_None_set: "find P xs = None \<longleftrightarrow> (\<forall>x \<in> set xs. \<not> P x)"
  by (induction xs) auto

lemma find_SomeD: "find P xs = Some x \<Longrightarrow> x \<in> set xs \<and> P x"
  by (induction xs) (auto split: if_splits)

subsection \<open>Unsigned 64-bit arithmetic\<close>

lemma word_less_max_iff: "(x :: uint64) < UINT64_MAX \<longleftrightarrow> x \<noteq> UINT64_MAX"
  by (metis word_order.not_eq_extremum)

lemma unat_plus_one: "(x :: uint64) \<noteq> UINT64_MAX \<Longrightarrow> unat (x + 1) = unat x + 1"
  using unatSuc [of x] by (simp add: eq_neg_iff_add_eq_0 add.commute)

lemma max_plus_one: "UINT64_MAX + 1 = (0 :: uint64)"
  by simp

end
