(* ===== verification/Status_Codes.thy ===== *)
theory Status_Codes
  imports Ganesha_Prelude
begin

text \<open>
  The error codes of the server and the routines that convert between them.

  \<^item> \<open>fsal_errors_t\<close> (\<^verbatim>\<open>src/src/include/fsal_types.h\<close>) is what a file system
    back end returns, \<open>state_status_t\<close> (\<^verbatim>\<open>gsh_status.h\<close>) what the state abstraction
    layer returns; both are datatypes with the constructors of the C enumerations.
  \<^item> \<open>nfsstat3\<close> and \<open>nfsstat4\<close> are the numbers of the wire protocols
    (\<^verbatim>\<open>nfs23.h\<close>, \<^verbatim>\<open>nfsv41.h\<close>), named as the enumerations name them;
    \<open>nfsstat3_codes\<close> and \<open>nfsstat4_codes\<close> list the two enumerations.
  \<^item> \<open>state_error_convert\<close>, \<open>nfs4_Errno_state\<close>, \<open>nfs3_Errno_state\<close>
    (\<^verbatim>\<open>SAL/state_misc.c\<close>) and \<open>nfs4_Errno_verbose\<close>, \<open>nfs3_Errno_verbose\<close>
    (\<^verbatim>\<open>support/nfs_convert.c\<close>) are the conversions, one equation for each case label.
    The log messages of the C code have no effect on the result and are left out, and so is
    the result for a number outside the enumeration.
\<close>

subsection \<open>The enumerations\<close>

datatype fsal_errors_t =
   ERR_FSAL_NO_ERROR | ERR_FSAL_PERM | ERR_FSAL_NOENT | ERR_FSAL_IO | ERR_FSAL_NXIO
   | ERR_FSAL_NOMEM | ERR_FSAL_ACCESS | ERR_FSAL_FAULT | ERR_FSAL_EXIST | ERR_FSAL_XDEV
   | ERR_FSAL_NOTDIR | ERR_FSAL_ISDIR | ERR_FSAL_INVAL | ERR_FSAL_FBIG | ERR_FSAL_NOSPC
   | ERR_FSAL_ROFS | ERR_FSAL_MLINK | ERR_FSAL_DQUOT | ERR_FSAL_NO_DATA
   | ERR_FSAL_NAMETOOLONG | ERR_FSAL_NOTEMPTY | ERR_FSAL_STALE | ERR_FSAL_BADHANDLE
   | ERR_FSAL_BADCOOKIE | ERR_FSAL_NOTSUPP | ERR_FSAL_TOOSMALL | ERR_FSAL_SERVERFAULT
   | ERR_FSAL_BADTYPE | ERR_FSAL_DELAY | ERR_FSAL_LOCKED | ERR_FSAL_FHEXPIRED
   | ERR_FSAL_SHARE_DENIED | ERR_FSAL_SYMLINK | ERR_FSAL_ATTRNOTSUPP
   | ERR_FSAL_BAD_RANGE | ERR_FSAL_NOT_INIT | ERR_FSAL_ALREADY_INIT | ERR_FSAL_BAD_INIT
   | ERR_FSAL_SEC | ERR_FSAL_NO_QUOTA | ERR_FSAL_NOT_OPENED | ERR_FSAL_DEADLOCK
   | ERR_FSAL_OVERFLOW | ERR_FSAL_INTERRUPT | ERR_FSAL_BLOCKED | ERR_FSAL_TIMEOUT
   | ERR_FSAL_FILE_OPEN | ERR_FSAL_UNION_NOTSUPP | ERR_FSAL_IN_GRACE | ERR_FSAL_NO_ACE
   | ERR_FSAL_CROSS_JUNCTION | ERR_FSAL_BADNAME

datatype state_status_t =
   STATE_SUCCESS | STATE_MALLOC_ERROR | STATE_POOL_MUTEX_INIT_ERROR
   | STATE_GET_NEW_LRU_ENTRY | STATE_INIT_ENTRY_FAILED | STATE_FSAL_ERROR
   | STATE_LRU_ERROR | STATE_HASH_SET_ERROR | STATE_NOT_A_DIRECTORY
   | STATE_INCONSISTENT_ENTRY | STATE_BAD_TYPE | STATE_ENTRY_EXISTS
   | STATE_DIR_NOT_EMPTY | STATE_NOT_FOUND | STATE_INVALID_ARGUMENT | STATE_INSERT_ERROR
   | STATE_HASH_TABLE_ERROR | STATE_FSAL_EACCESS | STATE_IS_A_DIRECTORY
   | STATE_FSAL_EPERM | STATE_NO_SPACE_LEFT | STATE_READ_ONLY_FS | STATE_IO_ERROR
   | STATE_ESTALE | STATE_FSAL_ERR_SEC | STATE_LOCKED | STATE_QUOTA_EXCEEDED
   | STATE_ASYNC_POST_ERROR | STATE_NOT_SUPPORTED | STATE_STATE_ERROR | STATE_FSAL_DELAY
   | STATE_NAME_TOO_LONG | STATE_LOCK_CONFLICT | STATE_LOCK_BLOCKED
   | STATE_LOCK_DEADLOCK | STATE_BAD_COOKIE | STATE_FILE_BIG | STATE_GRACE_PERIOD
   | STATE_CACHE_INODE_ERR | STATE_SIGNAL_ERROR | STATE_FILE_OPEN | STATE_MLINK
   | STATE_SERVERFAULT | STATE_TOOSMALL | STATE_XDEV | STATE_SHARE_DENIED
   | STATE_IN_GRACE | STATE_BADHANDLE | STATE_BAD_RANGE

text \<open>The struct \<^verbatim>\<open>fsal_status_t\<close>: the FSAL error and the errno it came from.\<close>

record fsal_status_t =
  major :: fsal_errors_t
  minor :: int

definition fsalstat :: "fsal_errors_t \<Rightarrow> int \<Rightarrow> fsal_status_t" where
  "fsalstat a b = \<lparr>major = a, minor = b\<rparr>"

definition FSAL_IS_ERROR :: "fsal_status_t \<Rightarrow> bool" where
  "FSAL_IS_ERROR st \<longleftrightarrow> major st \<noteq> ERR_FSAL_NO_ERROR"

type_synonym nfsstat3 = nat
type_synonym nfsstat4 = nat

abbreviation (input) NFS3_OK :: nfsstat3 where "NFS3_OK \<equiv> 0"
abbreviation (input) NFS3ERR_PERM :: nfsstat3 where "NFS3ERR_PERM \<equiv> 1"
abbreviation (input) NFS3ERR_NOENT :: nfsstat3 where "NFS3ERR_NOENT \<equiv> 2"
abbreviation (input) NFS3ERR_IO :: nfsstat3 where "NFS3ERR_IO \<equiv> 5"
abbreviation (input) NFS3ERR_NXIO :: nfsstat3 where "NFS3ERR_NXIO \<equiv> 6"
abbreviation (input) NFS3ERR_ACCES :: nfsstat3 where "NFS3ERR_ACCES \<equiv> 13"
abbreviation (input) NFS3ERR_EXIST :: nfsstat3 where "NFS3ERR_EXIST \<equiv> 17"
abbreviation (input) NFS3ERR_XDEV :: nfsstat3 where "NFS3ERR_XDEV \<equiv> 18"
abbreviation (input) NFS3ERR_NODEV :: nfsstat3 where "NFS3ERR_NODEV \<equiv> 19"
abbreviation (input) NFS3ERR_NOTDIR :: nfsstat3 where "NFS3ERR_NOTDIR \<equiv> 20"
abbreviation (input) NFS3ERR_ISDIR :: nfsstat3 where "NFS3ERR_ISDIR \<equiv> 21"
abbreviation (input) NFS3ERR_INVAL :: nfsstat3 where "NFS3ERR_INVAL \<equiv> 22"
abbreviation (input) NFS3ERR_FBIG :: nfsstat3 where "NFS3ERR_FBIG \<equiv> 27"
abbreviation (input) NFS3ERR_NOSPC :: nfsstat3 where "NFS3ERR_NOSPC \<equiv> 28"
abbreviation (input) NFS3ERR_ROFS :: nfsstat3 where "NFS3ERR_ROFS \<equiv> 30"
abbreviation (input) NFS3ERR_MLINK :: nfsstat3 where "NFS3ERR_MLINK \<equiv> 31"
abbreviation (input) NFS3ERR_NAMETOOLONG :: nfsstat3 where "NFS3ERR_NAMETOOLONG \<equiv> 63"
abbreviation (input) NFS3ERR_NOTEMPTY :: nfsstat3 where "NFS3ERR_NOTEMPTY \<equiv> 66"
abbreviation (input) NFS3ERR_DQUOT :: nfsstat3 where "NFS3ERR_DQUOT \<equiv> 69"
abbreviation (input) NFS3ERR_STALE :: nfsstat3 where "NFS3ERR_STALE \<equiv> 70"
abbreviation (input) NFS3ERR_REMOTE :: nfsstat3 where "NFS3ERR_REMOTE \<equiv> 71"
abbreviation (input) NFS3ERR_BADHANDLE :: nfsstat3 where "NFS3ERR_BADHANDLE \<equiv> 10001"
abbreviation (input) NFS3ERR_NOT_SYNC :: nfsstat3 where "NFS3ERR_NOT_SYNC \<equiv> 10002"
abbreviation (input) NFS3ERR_BAD_COOKIE :: nfsstat3 where "NFS3ERR_BAD_COOKIE \<equiv> 10003"
abbreviation (input) NFS3ERR_NOTSUPP :: nfsstat3 where "NFS3ERR_NOTSUPP \<equiv> 10004"
abbreviation (input) NFS3ERR_TOOSMALL :: nfsstat3 where "NFS3ERR_TOOSMALL \<equiv> 10005"
abbreviation (input) NFS3ERR_SERVERFAULT :: nfsstat3 where "NFS3ERR_SERVERFAULT \<equiv> 10006"
abbreviation (input) NFS3ERR_BADTYPE :: nfsstat3 where "NFS3ERR_BADTYPE \<equiv> 10007"
abbreviation (input) NFS3ERR_JUKEBOX :: nfsstat3 where "NFS3ERR_JUKEBOX \<equiv> 10008"

abbreviation (input) NFS4_OK :: nfsstat4 where "NFS4_OK \<equiv> 0"
abbreviation (input) NFS4ERR_PERM :: nfsstat4 where "NFS4ERR_PERM \<equiv> 1"
abbreviation (input) NFS4ERR_NOENT :: nfsstat4 where "NFS4ERR_NOENT \<equiv> 2"
abbreviation (input) NFS4ERR_IO :: nfsstat4 where "NFS4ERR_IO \<equiv> 5"
abbreviation (input) NFS4ERR_NXIO :: nfsstat4 where "NFS4ERR_NXIO \<equiv> 6"
abbreviation (input) NFS4ERR_ACCESS :: nfsstat4 where "NFS4ERR_ACCESS \<equiv> 13"
abbreviation (input) NFS4ERR_EXIST :: nfsstat4 where "NFS4ERR_EXIST \<equiv> 17"
abbreviation (input) NFS4ERR_XDEV :: nfsstat4 where "NFS4ERR_XDEV \<equiv> 18"
abbreviation (input) NFS4ERR_NOTDIR :: nfsstat4 where "NFS4ERR_NOTDIR \<equiv> 20"
abbreviation (input) NFS4ERR_ISDIR :: nfsstat4 where "NFS4ERR_ISDIR \<equiv> 21"
abbreviation (input) NFS4ERR_INVAL :: nfsstat4 where "NFS4ERR_INVAL \<equiv> 22"
abbreviation (input) NFS4ERR_FBIG :: nfsstat4 where "NFS4ERR_FBIG \<equiv> 27"
abbreviation (input) NFS4ERR_NOSPC :: nfsstat4 where "NFS4ERR_NOSPC \<equiv> 28"
abbreviation (input) NFS4ERR_ROFS :: nfsstat4 where "NFS4ERR_ROFS \<equiv> 30"
abbreviation (input) NFS4ERR_MLINK :: nfsstat4 where "NFS4ERR_MLINK \<equiv> 31"
abbreviation (input) NFS4ERR_NAMETOOLONG :: nfsstat4 where "NFS4ERR_NAMETOOLONG \<equiv> 63"
abbreviation (input) NFS4ERR_NOTEMPTY :: nfsstat4 where "NFS4ERR_NOTEMPTY \<equiv> 66"
abbreviation (input) NFS4ERR_DQUOT :: nfsstat4 where "NFS4ERR_DQUOT \<equiv> 69"
abbreviation (input) NFS4ERR_STALE :: nfsstat4 where "NFS4ERR_STALE \<equiv> 70"
abbreviation (input) NFS4ERR_BADHANDLE :: nfsstat4 where "NFS4ERR_BADHANDLE \<equiv> 10001"
abbreviation (input) NFS4ERR_BAD_COOKIE :: nfsstat4 where "NFS4ERR_BAD_COOKIE \<equiv> 10003"
abbreviation (input) NFS4ERR_NOTSUPP :: nfsstat4 where "NFS4ERR_NOTSUPP \<equiv> 10004"
abbreviation (input) NFS4ERR_TOOSMALL :: nfsstat4 where "NFS4ERR_TOOSMALL \<equiv> 10005"
abbreviation (input) NFS4ERR_SERVERFAULT :: nfsstat4 where "NFS4ERR_SERVERFAULT \<equiv> 10006"
abbreviation (input) NFS4ERR_BADTYPE :: nfsstat4 where "NFS4ERR_BADTYPE \<equiv> 10007"
abbreviation (input) NFS4ERR_DELAY :: nfsstat4 where "NFS4ERR_DELAY \<equiv> 10008"
abbreviation (input) NFS4ERR_SAME :: nfsstat4 where "NFS4ERR_SAME \<equiv> 10009"
abbreviation (input) NFS4ERR_DENIED :: nfsstat4 where "NFS4ERR_DENIED \<equiv> 10010"
abbreviation (input) NFS4ERR_EXPIRED :: nfsstat4 where "NFS4ERR_EXPIRED \<equiv> 10011"
abbreviation (input) NFS4ERR_LOCKED :: nfsstat4 where "NFS4ERR_LOCKED \<equiv> 10012"
abbreviation (input) NFS4ERR_GRACE :: nfsstat4 where "NFS4ERR_GRACE \<equiv> 10013"
abbreviation (input) NFS4ERR_FHEXPIRED :: nfsstat4 where "NFS4ERR_FHEXPIRED \<equiv> 10014"
abbreviation (input) NFS4ERR_SHARE_DENIED :: nfsstat4 where "NFS4ERR_SHARE_DENIED \<equiv> 10015"
abbreviation (input) NFS4ERR_WRONGSEC :: nfsstat4 where "NFS4ERR_WRONGSEC \<equiv> 10016"
abbreviation (input) NFS4ERR_CLID_INUSE :: nfsstat4 where "NFS4ERR_CLID_INUSE \<equiv> 10017"
abbreviation (input) NFS4ERR_RESOURCE :: nfsstat4 where "NFS4ERR_RESOURCE \<equiv> 10018"
abbreviation (input) NFS4ERR_MOVED :: nfsstat4 where "NFS4ERR_MOVED \<equiv> 10019"
abbreviation (input) NFS4ERR_NOFILEHANDLE :: nfsstat4 where "NFS4ERR_NOFILEHANDLE \<equiv> 10020"
abbreviation (input) NFS4ERR_MINOR_VERS_MISMATCH :: nfsstat4 where "NFS4ERR_MINOR_VERS_MISMATCH \<equiv> 10021"
abbreviation (input) NFS4ERR_STALE_CLIENTID :: nfsstat4 where "NFS4ERR_STALE_CLIENTID \<equiv> 10022"
abbreviation (input) NFS4ERR_STALE_STATEID :: nfsstat4 where "NFS4ERR_STALE_STATEID \<equiv> 10023"
abbreviation (input) NFS4ERR_OLD_STATEID :: nfsstat4 where "NFS4ERR_OLD_STATEID \<equiv> 10024"
abbreviation (input) NFS4ERR_BAD_STATEID :: nfsstat4 where "NFS4ERR_BAD_STATEID \<equiv> 10025"
abbreviation (input) NFS4ERR_BAD_SEQID :: nfsstat4 where "NFS4ERR_BAD_SEQID \<equiv> 10026"
abbreviation (input) NFS4ERR_NOT_SAME :: nfsstat4 where "NFS4ERR_NOT_SAME \<equiv> 10027"
abbreviation (input) NFS4ERR_LOCK_RANGE :: nfsstat4 where "NFS4ERR_LOCK_RANGE \<equiv> 10028"
abbreviation (input) NFS4ERR_SYMLINK :: nfsstat4 where "NFS4ERR_SYMLINK \<equiv> 10029"
abbreviation (input) NFS4ERR_RESTOREFH :: nfsstat4 where "NFS4ERR_RESTOREFH \<equiv> 10030"
abbreviation (input) NFS4ERR_LEASE_MOVED :: nfsstat4 where "NFS4ERR_LEASE_MOVED \<equiv> 10031"
abbreviation (input) NFS4ERR_ATTRNOTSUPP :: nfsstat4 where "NFS4ERR_ATTRNOTSUPP \<equiv> 10032"
abbreviation (input) NFS4ERR_NO_GRACE :: nfsstat4 where "NFS4ERR_NO_GRACE \<equiv> 10033"
abbreviation (input) NFS4ERR_RECLAIM_BAD :: nfsstat4 where "NFS4ERR_RECLAIM_BAD \<equiv> 10034"
abbreviation (input) NFS4ERR_RECLAIM_CONFLICT :: nfsstat4 where "NFS4ERR_RECLAIM_CONFLICT \<equiv> 10035"
abbreviation (input) NFS4ERR_BADXDR :: nfsstat4 where "NFS4ERR_BADXDR \<equiv> 10036"
abbreviation (input) NFS4ERR_LOCKS_HELD :: nfsstat4 where "NFS4ERR_LOCKS_HELD \<equiv> 10037"
abbreviation (input) NFS4ERR_OPENMODE :: nfsstat4 where "NFS4ERR_OPENMODE \<equiv> 10038"
abbreviation (input) NFS4ERR_BADOWNER :: nfsstat4 where "NFS4ERR_BADOWNER \<equiv> 10039"
abbreviation (input) NFS4ERR_BADCHAR :: nfsstat4 where "NFS4ERR_BADCHAR \<equiv> 10040"
abbreviation (input) NFS4ERR_BADNAME :: nfsstat4 where "NFS4ERR_BADNAME \<equiv> 10041"
abbreviation (input) NFS4ERR_BAD_RANGE :: nfsstat4 where "NFS4ERR_BAD_RANGE \<equiv> 10042"
abbreviation (input) NFS4ERR_LOCK_NOTSUPP :: nfsstat4 where "NFS4ERR_LOCK_NOTSUPP \<equiv> 10043"
abbreviation (input) NFS4ERR_OP_ILLEGAL :: nfsstat4 where "NFS4ERR_OP_ILLEGAL \<equiv> 10044"
abbreviation (input) NFS4ERR_DEADLOCK :: nfsstat4 where "NFS4ERR_DEADLOCK \<equiv> 10045"
abbreviation (input) NFS4ERR_FILE_OPEN :: nfsstat4 where "NFS4ERR_FILE_OPEN \<equiv> 10046"
abbreviation (input) NFS4ERR_ADMIN_REVOKED :: nfsstat4 where "NFS4ERR_ADMIN_REVOKED \<equiv> 10047"
abbreviation (input) NFS4ERR_CB_PATH_DOWN :: nfsstat4 where "NFS4ERR_CB_PATH_DOWN \<equiv> 10048"
abbreviation (input) NFS4ERR_BADIOMODE :: nfsstat4 where "NFS4ERR_BADIOMODE \<equiv> 10049"
abbreviation (input) NFS4ERR_BADLAYOUT :: nfsstat4 where "NFS4ERR_BADLAYOUT \<equiv> 10050"
abbreviation (input) NFS4ERR_BAD_SESSION_DIGEST :: nfsstat4 where "NFS4ERR_BAD_SESSION_DIGEST \<equiv> 10051"
abbreviation (input) NFS4ERR_BADSESSION :: nfsstat4 where "NFS4ERR_BADSESSION \<equiv> 10052"
abbreviation (input) NFS4ERR_BADSLOT :: nfsstat4 where "NFS4ERR_BADSLOT \<equiv> 10053"
abbreviation (input) NFS4ERR_COMPLETE_ALREADY :: nfsstat4 where "NFS4ERR_COMPLETE_ALREADY \<equiv> 10054"
abbreviation (input) NFS4ERR_CONN_NOT_BOUND_TO_SESSION :: nfsstat4 where "NFS4ERR_CONN_NOT_BOUND_TO_SESSION \<equiv> 10055"
abbreviation (input) NFS4ERR_DELEG_ALREADY_WANTED :: nfsstat4 where "NFS4ERR_DELEG_ALREADY_WANTED \<equiv> 10056"
abbreviation (input) NFS4ERR_BACK_CHAN_BUSY :: nfsstat4 where "NFS4ERR_BACK_CHAN_BUSY \<equiv> 10057"
abbreviation (input) NFS4ERR_LAYOUTTRYLATER :: nfsstat4 where "NFS4ERR_LAYOUTTRYLATER \<equiv> 10058"
abbreviation (input) NFS4ERR_LAYOUTUNAVAILABLE :: nfsstat4 where "NFS4ERR_LAYOUTUNAVAILABLE \<equiv> 10059"
abbreviation (input) NFS4ERR_NOMATCHING_LAYOUT :: nfsstat4 where "NFS4ERR_NOMATCHING_LAYOUT \<equiv> 10060"
abbreviation (input) NFS4ERR_RECALLCONFLICT :: nfsstat4 where "NFS4ERR_RECALLCONFLICT \<equiv> 10061"
abbreviation (input) NFS4ERR_UNKNOWN_LAYOUTTYPE :: nfsstat4 where "NFS4ERR_UNKNOWN_LAYOUTTYPE \<equiv> 10062"
abbreviation (input) NFS4ERR_SEQ_MISORDERED :: nfsstat4 where "NFS4ERR_SEQ_MISORDERED \<equiv> 10063"
abbreviation (input) NFS4ERR_SEQUENCE_POS :: nfsstat4 where "NFS4ERR_SEQUENCE_POS \<equiv> 10064"
abbreviation (input) NFS4ERR_REQ_TOO_BIG :: nfsstat4 where "NFS4ERR_REQ_TOO_BIG \<equiv> 10065"
abbreviation (input) NFS4ERR_REP_TOO_BIG :: nfsstat4 where "NFS4ERR_REP_TOO_BIG \<equiv> 10066"
abbreviation (input) NFS4ERR_REP_TOO_BIG_TO_CACHE :: nfsstat4 where "NFS4ERR_REP_TOO_BIG_TO_CACHE \<equiv> 10067"
abbreviation (input) NFS4ERR_RETRY_UNCACHED_REP :: nfsstat4 where "NFS4ERR_RETRY_UNCACHED_REP \<equiv> 10068"
abbreviation (input) NFS4ERR_UNSAFE_COMPOUND :: nfsstat4 where "NFS4ERR_UNSAFE_COMPOUND \<equiv> 10069"
abbreviation (input) NFS4ERR_TOO_MANY_OPS :: nfsstat4 where "NFS4ERR_TOO_MANY_OPS \<equiv> 10070"
abbreviation (input) NFS4ERR_OP_NOT_IN_SESSION :: nfsstat4 where "NFS4ERR_OP_NOT_IN_SESSION \<equiv> 10071"
abbreviation (input) NFS4ERR_HASH_ALG_UNSUPP :: nfsstat4 where "NFS4ERR_HASH_ALG_UNSUPP \<equiv> 10072"
abbreviation (input) NFS4ERR_CLIENTID_BUSY :: nfsstat4 where "NFS4ERR_CLIENTID_BUSY \<equiv> 10074"
abbreviation (input) NFS4ERR_PNFS_IO_HOLE :: nfsstat4 where "NFS4ERR_PNFS_IO_HOLE \<equiv> 10075"
abbreviation (input) NFS4ERR_SEQ_FALSE_RETRY :: nfsstat4 where "NFS4ERR_SEQ_FALSE_RETRY \<equiv> 10076"
abbreviation (input) NFS4ERR_BAD_HIGH_SLOT :: nfsstat4 where "NFS4ERR_BAD_HIGH_SLOT \<equiv> 10077"
abbreviation (input) NFS4ERR_DEADSESSION :: nfsstat4 where "NFS4ERR_DEADSESSION \<equiv> 10078"
abbreviation (input) NFS4ERR_ENCR_ALG_UNSUPP :: nfsstat4 where "NFS4ERR_ENCR_ALG_UNSUPP \<equiv> 10079"
abbreviation (input) NFS4ERR_PNFS_NO_LAYOUT :: nfsstat4 where "NFS4ERR_PNFS_NO_LAYOUT \<equiv> 10080"
abbreviation (input) NFS4ERR_NOT_ONLY_OP :: nfsstat4 where "NFS4ERR_NOT_ONLY_OP \<equiv> 10081"
abbreviation (input) NFS4ERR_WRONG_CRED :: nfsstat4 where "NFS4ERR_WRONG_CRED \<equiv> 10082"
abbreviation (input) NFS4ERR_WRONG_TYPE :: nfsstat4 where "NFS4ERR_WRONG_TYPE \<equiv> 10083"
abbreviation (input) NFS4ERR_DIRDELEG_UNAVAIL :: nfsstat4 where "NFS4ERR_DIRDELEG_UNAVAIL \<equiv> 10084"
abbreviation (input) NFS4ERR_REJECT_DELEG :: nfsstat4 where "NFS4ERR_REJECT_DELEG \<equiv> 10085"
abbreviation (input) NFS4ERR_RETURNCONFLICT :: nfsstat4 where "NFS4ERR_RETURNCONFLICT \<equiv> 10086"
abbreviation (input) NFS4ERR_DELEG_REVOKED :: nfsstat4 where "NFS4ERR_DELEG_REVOKED \<equiv> 10087"
abbreviation (input) NFS4ERR_PARTNER_NOTSUPP :: nfsstat4 where "NFS4ERR_PARTNER_NOTSUPP \<equiv> 10088"
abbreviation (input) NFS4ERR_PARTNER_NO_AUTH :: nfsstat4 where "NFS4ERR_PARTNER_NO_AUTH \<equiv> 10089"
abbreviation (input) NFS4ERR_UNION_NOTSUPP :: nfsstat4 where "NFS4ERR_UNION_NOTSUPP \<equiv> 10090"
abbreviation (input) NFS4ERR_OFFLOAD_DENIED :: nfsstat4 where "NFS4ERR_OFFLOAD_DENIED \<equiv> 10091"
abbreviation (input) NFS4ERR_WRONG_LFS :: nfsstat4 where "NFS4ERR_WRONG_LFS \<equiv> 10092"
abbreviation (input) NFS4ERR_BADLABEL :: nfsstat4 where "NFS4ERR_BADLABEL \<equiv> 10093"
abbreviation (input) NFS4ERR_OFFLOAD_NO_REQS :: nfsstat4 where "NFS4ERR_OFFLOAD_NO_REQS \<equiv> 10094"
abbreviation (input) NFS4ERR_REPLAY :: nfsstat4 where "NFS4ERR_REPLAY \<equiv> 11001"

definition nfsstat3_codes :: "nfsstat3 list" where
  "nfsstat3_codes =
    [NFS3_OK, NFS3ERR_PERM, NFS3ERR_NOENT, NFS3ERR_IO, NFS3ERR_NXIO, NFS3ERR_ACCES
     , NFS3ERR_EXIST, NFS3ERR_XDEV, NFS3ERR_NODEV, NFS3ERR_NOTDIR, NFS3ERR_ISDIR
     , NFS3ERR_INVAL, NFS3ERR_FBIG, NFS3ERR_NOSPC, NFS3ERR_ROFS, NFS3ERR_MLINK
     , NFS3ERR_NAMETOOLONG, NFS3ERR_NOTEMPTY, NFS3ERR_DQUOT, NFS3ERR_STALE
     , NFS3ERR_REMOTE, NFS3ERR_BADHANDLE, NFS3ERR_NOT_SYNC, NFS3ERR_BAD_COOKIE
     , NFS3ERR_NOTSUPP, NFS3ERR_TOOSMALL, NFS3ERR_SERVERFAULT, NFS3ERR_BADTYPE
     , NFS3ERR_JUKEBOX]"

definition nfsstat4_codes :: "nfsstat4 list" where
  "nfsstat4_codes =
    [NFS4_OK, NFS4ERR_PERM, NFS4ERR_NOENT, NFS4ERR_IO, NFS4ERR_NXIO, NFS4ERR_ACCESS
     , NFS4ERR_EXIST, NFS4ERR_XDEV, NFS4ERR_NOTDIR, NFS4ERR_ISDIR, NFS4ERR_INVAL
     , NFS4ERR_FBIG, NFS4ERR_NOSPC, NFS4ERR_ROFS, NFS4ERR_MLINK, NFS4ERR_NAMETOOLONG
     , NFS4ERR_NOTEMPTY, NFS4ERR_DQUOT, NFS4ERR_STALE, NFS4ERR_BADHANDLE
     , NFS4ERR_BAD_COOKIE, NFS4ERR_NOTSUPP, NFS4ERR_TOOSMALL, NFS4ERR_SERVERFAULT
     , NFS4ERR_BADTYPE, NFS4ERR_DELAY, NFS4ERR_SAME, NFS4ERR_DENIED, NFS4ERR_EXPIRED
     , NFS4ERR_LOCKED, NFS4ERR_GRACE, NFS4ERR_FHEXPIRED, NFS4ERR_SHARE_DENIED
     , NFS4ERR_WRONGSEC, NFS4ERR_CLID_INUSE, NFS4ERR_RESOURCE, NFS4ERR_MOVED
     , NFS4ERR_NOFILEHANDLE, NFS4ERR_MINOR_VERS_MISMATCH, NFS4ERR_STALE_CLIENTID
     , NFS4ERR_STALE_STATEID, NFS4ERR_OLD_STATEID, NFS4ERR_BAD_STATEID
     , NFS4ERR_BAD_SEQID, NFS4ERR_NOT_SAME, NFS4ERR_LOCK_RANGE, NFS4ERR_SYMLINK
     , NFS4ERR_RESTOREFH, NFS4ERR_LEASE_MOVED, NFS4ERR_ATTRNOTSUPP, NFS4ERR_NO_GRACE
     , NFS4ERR_RECLAIM_BAD, NFS4ERR_RECLAIM_CONFLICT, NFS4ERR_BADXDR, NFS4ERR_LOCKS_HELD
     , NFS4ERR_OPENMODE, NFS4ERR_BADOWNER, NFS4ERR_BADCHAR, NFS4ERR_BADNAME
     , NFS4ERR_BAD_RANGE, NFS4ERR_LOCK_NOTSUPP, NFS4ERR_OP_ILLEGAL, NFS4ERR_DEADLOCK
     , NFS4ERR_FILE_OPEN, NFS4ERR_ADMIN_REVOKED, NFS4ERR_CB_PATH_DOWN, NFS4ERR_BADIOMODE
     , NFS4ERR_BADLAYOUT, NFS4ERR_BAD_SESSION_DIGEST, NFS4ERR_BADSESSION
     , NFS4ERR_BADSLOT, NFS4ERR_COMPLETE_ALREADY, NFS4ERR_CONN_NOT_BOUND_TO_SESSION
     , NFS4ERR_DELEG_ALREADY_WANTED, NFS4ERR_BACK_CHAN_BUSY, NFS4ERR_LAYOUTTRYLATER
     , NFS4ERR_LAYOUTUNAVAILABLE, NFS4ERR_NOMATCHING_LAYOUT, NFS4ERR_RECALLCONFLICT
     , NFS4ERR_UNKNOWN_LAYOUTTYPE, NFS4ERR_SEQ_MISORDERED, NFS4ERR_SEQUENCE_POS
     , NFS4ERR_REQ_TOO_BIG, NFS4ERR_REP_TOO_BIG, NFS4ERR_REP_TOO_BIG_TO_CACHE
     , NFS4ERR_RETRY_UNCACHED_REP, NFS4ERR_UNSAFE_COMPOUND, NFS4ERR_TOO_MANY_OPS
     , NFS4ERR_OP_NOT_IN_SESSION, NFS4ERR_HASH_ALG_UNSUPP, NFS4ERR_CLIENTID_BUSY
     , NFS4ERR_PNFS_IO_HOLE, NFS4ERR_SEQ_FALSE_RETRY, NFS4ERR_BAD_HIGH_SLOT
     , NFS4ERR_DEADSESSION, NFS4ERR_ENCR_ALG_UNSUPP, NFS4ERR_PNFS_NO_LAYOUT
     , NFS4ERR_NOT_ONLY_OP, NFS4ERR_WRONG_CRED, NFS4ERR_WRONG_TYPE
     , NFS4ERR_DIRDELEG_UNAVAIL, NFS4ERR_REJECT_DELEG, NFS4ERR_RETURNCONFLICT
     , NFS4ERR_DELEG_REVOKED, NFS4ERR_PARTNER_NOTSUPP, NFS4ERR_PARTNER_NO_AUTH
     , NFS4ERR_UNION_NOTSUPP, NFS4ERR_OFFLOAD_DENIED, NFS4ERR_WRONG_LFS
     , NFS4ERR_BADLABEL, NFS4ERR_OFFLOAD_NO_REQS, NFS4ERR_REPLAY]"

subsection \<open>The conversions\<close>

primrec state_error_convert_major :: "fsal_errors_t \<Rightarrow> state_status_t" where
  "state_error_convert_major ERR_FSAL_NO_ERROR = STATE_SUCCESS"
| "state_error_convert_major ERR_FSAL_PERM = STATE_FSAL_EPERM"
| "state_error_convert_major ERR_FSAL_NOENT = STATE_NOT_FOUND"
| "state_error_convert_major ERR_FSAL_IO = STATE_IO_ERROR"
| "state_error_convert_major ERR_FSAL_NXIO = STATE_IO_ERROR"
| "state_error_convert_major ERR_FSAL_NOMEM = STATE_MALLOC_ERROR"
| "state_error_convert_major ERR_FSAL_ACCESS = STATE_LOCK_CONFLICT"
| "state_error_convert_major ERR_FSAL_FAULT = STATE_FSAL_ERROR"
| "state_error_convert_major ERR_FSAL_EXIST = STATE_FSAL_ERROR"
| "state_error_convert_major ERR_FSAL_XDEV = STATE_FSAL_ERROR"
| "state_error_convert_major ERR_FSAL_NOTDIR = STATE_FSAL_ERROR"
| "state_error_convert_major ERR_FSAL_ISDIR = STATE_IS_A_DIRECTORY"
| "state_error_convert_major ERR_FSAL_INVAL = STATE_INVALID_ARGUMENT"
| "state_error_convert_major ERR_FSAL_FBIG = STATE_FILE_BIG"
| "state_error_convert_major ERR_FSAL_NOSPC = STATE_NO_SPACE_LEFT"
| "state_error_convert_major ERR_FSAL_ROFS = STATE_READ_ONLY_FS"
| "state_error_convert_major ERR_FSAL_MLINK = STATE_FSAL_ERROR"
| "state_error_convert_major ERR_FSAL_DQUOT = STATE_FSAL_ERROR"
| "state_error_convert_major ERR_FSAL_NO_DATA = STATE_FSAL_ERROR"
| "state_error_convert_major ERR_FSAL_NAMETOOLONG = STATE_FSAL_ERROR"
| "state_error_convert_major ERR_FSAL_NOTEMPTY = STATE_FSAL_ERROR"
| "state_error_convert_major ERR_FSAL_STALE = STATE_ESTALE"
| "state_error_convert_major ERR_FSAL_BADHANDLE = STATE_BADHANDLE"
| "state_error_convert_major ERR_FSAL_BADCOOKIE = STATE_BAD_COOKIE"
| "state_error_convert_major ERR_FSAL_NOTSUPP = STATE_NOT_SUPPORTED"
| "state_error_convert_major ERR_FSAL_TOOSMALL = STATE_TOOSMALL"
| "state_error_convert_major ERR_FSAL_SERVERFAULT = STATE_FSAL_ERROR"
| "state_error_convert_major ERR_FSAL_BADTYPE = STATE_BAD_TYPE"
| "state_error_convert_major ERR_FSAL_DELAY = STATE_LOCK_CONFLICT"
| "state_error_convert_major ERR_FSAL_LOCKED = STATE_LOCKED"
| "state_error_convert_major ERR_FSAL_FHEXPIRED = STATE_ESTALE"
| "state_error_convert_major ERR_FSAL_SHARE_DENIED = STATE_SHARE_DENIED"
| "state_error_convert_major ERR_FSAL_SYMLINK = STATE_BAD_TYPE"
| "state_error_convert_major ERR_FSAL_ATTRNOTSUPP = STATE_NOT_SUPPORTED"
| "state_error_convert_major ERR_FSAL_BAD_RANGE = STATE_BAD_RANGE"
| "state_error_convert_major ERR_FSAL_NOT_INIT = STATE_FSAL_ERROR"
| "state_error_convert_major ERR_FSAL_ALREADY_INIT = STATE_FSAL_ERROR"
| "state_error_convert_major ERR_FSAL_BAD_INIT = STATE_FSAL_ERROR"
| "state_error_convert_major ERR_FSAL_SEC = STATE_FSAL_ERR_SEC"
| "state_error_convert_major ERR_FSAL_NO_QUOTA = STATE_FSAL_ERROR"
| "state_error_convert_major ERR_FSAL_NOT_OPENED = STATE_FSAL_ERROR"
| "state_error_convert_major ERR_FSAL_DEADLOCK = STATE_LOCK_DEADLOCK"
| "state_error_convert_major ERR_FSAL_OVERFLOW = STATE_INVALID_ARGUMENT"
| "state_error_convert_major ERR_FSAL_INTERRUPT = STATE_FSAL_ERROR"
| "state_error_convert_major ERR_FSAL_BLOCKED = STATE_LOCK_BLOCKED"
| "state_error_convert_major ERR_FSAL_TIMEOUT = STATE_FSAL_ERROR"
| "state_error_convert_major ERR_FSAL_FILE_OPEN = STATE_FILE_OPEN"
| "state_error_convert_major ERR_FSAL_UNION_NOTSUPP = STATE_NOT_SUPPORTED"
| "state_error_convert_major ERR_FSAL_IN_GRACE = STATE_IN_GRACE"
| "state_error_convert_major ERR_FSAL_NO_ACE = STATE_FSAL_ERROR"
| "state_error_convert_major ERR_FSAL_CROSS_JUNCTION = STATE_FSAL_ERROR"
| "state_error_convert_major ERR_FSAL_BADNAME = STATE_FSAL_ERROR"

definition state_error_convert :: "fsal_status_t \<Rightarrow> state_status_t" where
  "state_error_convert fsal_status = state_error_convert_major (major fsal_status)"

primrec nfs4_Errno_state :: "state_status_t \<Rightarrow> nfsstat4" where
  "nfs4_Errno_state STATE_SUCCESS = NFS4_OK"
| "nfs4_Errno_state STATE_MALLOC_ERROR = NFS4ERR_RESOURCE"
| "nfs4_Errno_state STATE_POOL_MUTEX_INIT_ERROR = NFS4ERR_SERVERFAULT"
| "nfs4_Errno_state STATE_GET_NEW_LRU_ENTRY = NFS4ERR_SERVERFAULT"
| "nfs4_Errno_state STATE_INIT_ENTRY_FAILED = NFS4ERR_SERVERFAULT"
| "nfs4_Errno_state STATE_FSAL_ERROR = NFS4ERR_IO"
| "nfs4_Errno_state STATE_LRU_ERROR = NFS4ERR_IO"
| "nfs4_Errno_state STATE_HASH_SET_ERROR = NFS4ERR_IO"
| "nfs4_Errno_state STATE_NOT_A_DIRECTORY = NFS4ERR_NOTDIR"
| "nfs4_Errno_state STATE_INCONSISTENT_ENTRY = NFS4ERR_INVAL"
| "nfs4_Errno_state STATE_BAD_TYPE = NFS4ERR_INVAL"
| "nfs4_Errno_state STATE_ENTRY_EXISTS = NFS4ERR_EXIST"
| "nfs4_Errno_state STATE_DIR_NOT_EMPTY = NFS4ERR_NOTEMPTY"
| "nfs4_Errno_state STATE_NOT_FOUND = NFS4ERR_NOENT"
| "nfs4_Errno_state STATE_INVALID_ARGUMENT = NFS4ERR_INVAL"
| "nfs4_Errno_state STATE_INSERT_ERROR = NFS4ERR_IO"
| "nfs4_Errno_state STATE_HASH_TABLE_ERROR = NFS4ERR_INVAL"
| "nfs4_Errno_state STATE_FSAL_EACCESS = NFS4ERR_ACCESS"
| "nfs4_Errno_state STATE_IS_A_DIRECTORY = NFS4ERR_ISDIR"
| "nfs4_Errno_state STATE_FSAL_EPERM = NFS4ERR_PERM"
| "nfs4_Errno_state STATE_NO_SPACE_LEFT = NFS4ERR_NOSPC"
| "nfs4_Errno_state STATE_READ_ONLY_FS = NFS4ERR_ROFS"
| "nfs4_Errno_state STATE_IO_ERROR = NFS4ERR_IO"
| "nfs4_Errno_state STATE_ESTALE = NFS4ERR_STALE"
| "nfs4_Errno_state STATE_FSAL_ERR_SEC = NFS4ERR_PERM"
| "nfs4_Errno_state STATE_LOCKED = NFS4ERR_LOCKED"
| "nfs4_Errno_state STATE_QUOTA_EXCEEDED = NFS4ERR_DQUOT"
| "nfs4_Errno_state STATE_ASYNC_POST_ERROR = NFS4ERR_INVAL"
| "nfs4_Errno_state STATE_NOT_SUPPORTED = NFS4ERR_NOTSUPP"
| "nfs4_Errno_state STATE_STATE_ERROR = NFS4ERR_BAD_STATEID"
| "nfs4_Errno_state STATE_FSAL_DELAY = NFS4ERR_DELAY"
| "nfs4_Errno_state STATE_NAME_TOO_LONG = NFS4ERR_NAMETOOLONG"
| "nfs4_Errno_state STATE_LOCK_CONFLICT = NFS4ERR_DENIED"
| "nfs4_Errno_state STATE_LOCK_BLOCKED = NFS4ERR_DENIED"
| "nfs4_Errno_state STATE_LOCK_DEADLOCK = NFS4ERR_DEADLOCK"
| "nfs4_Errno_state STATE_BAD_COOKIE = NFS4ERR_BAD_COOKIE"
| "nfs4_Errno_state STATE_FILE_BIG = NFS4ERR_FBIG"
| "nfs4_Errno_state STATE_GRACE_PERIOD = NFS4ERR_GRACE"
| "nfs4_Errno_state STATE_CACHE_INODE_ERR = NFS4ERR_INVAL"
| "nfs4_Errno_state STATE_SIGNAL_ERROR = NFS4ERR_INVAL"
| "nfs4_Errno_state STATE_FILE_OPEN = NFS4ERR_FILE_OPEN"
| "nfs4_Errno_state STATE_MLINK = NFS4ERR_MLINK"
| "nfs4_Errno_state STATE_SERVERFAULT = NFS4ERR_SERVERFAULT"
| "nfs4_Errno_state STATE_TOOSMALL = NFS4ERR_TOOSMALL"
| "nfs4_Errno_state STATE_XDEV = NFS4ERR_XDEV"
| "nfs4_Errno_state STATE_SHARE_DENIED = NFS4ERR_SHARE_DENIED"
| "nfs4_Errno_state STATE_IN_GRACE = NFS4ERR_GRACE"
| "nfs4_Errno_state STATE_BADHANDLE = NFS4ERR_BADHANDLE"
| "nfs4_Errno_state STATE_BAD_RANGE = NFS4ERR_BAD_RANGE"

primrec nfs3_Errno_state :: "state_status_t \<Rightarrow> nfsstat3" where
  "nfs3_Errno_state STATE_SUCCESS = NFS3_OK"
| "nfs3_Errno_state STATE_MALLOC_ERROR = NFS3ERR_IO"
| "nfs3_Errno_state STATE_POOL_MUTEX_INIT_ERROR = NFS3ERR_IO"
| "nfs3_Errno_state STATE_GET_NEW_LRU_ENTRY = NFS3ERR_IO"
| "nfs3_Errno_state STATE_INIT_ENTRY_FAILED = NFS3ERR_IO"
| "nfs3_Errno_state STATE_FSAL_ERROR = NFS3ERR_IO"
| "nfs3_Errno_state STATE_LRU_ERROR = NFS3ERR_IO"
| "nfs3_Errno_state STATE_HASH_SET_ERROR = NFS3ERR_IO"
| "nfs3_Errno_state STATE_NOT_A_DIRECTORY = NFS3ERR_NOTDIR"
| "nfs3_Errno_state STATE_INCONSISTENT_ENTRY = NFS3ERR_INVAL"
| "nfs3_Errno_state STATE_BAD_TYPE = NFS3ERR_BADTYPE"
| "nfs3_Errno_state STATE_ENTRY_EXISTS = NFS3ERR_EXIST"
| "nfs3_Errno_state STATE_DIR_NOT_EMPTY = NFS3ERR_NOTEMPTY"
| "nfs3_Errno_state STATE_NOT_FOUND = NFS3ERR_NOENT"
| "nfs3_Errno_state STATE_INVALID_ARGUMENT = NFS3ERR_INVAL"
| "nfs3_Errno_state STATE_INSERT_ERROR = NFS3ERR_IO"
| "nfs3_Errno_state STATE_HASH_TABLE_ERROR = NFS3ERR_INVAL"
| "nfs3_Errno_state STATE_FSAL_EACCESS = NFS3ERR_ACCES"
| "nfs3_Errno_state STATE_IS_A_DIRECTORY = NFS3ERR_ISDIR"
| "nfs3_Errno_state STATE_FSAL_EPERM = NFS3ERR_PERM"
| "nfs3_Errno_state STATE_NO_SPACE_LEFT = NFS3ERR_NOSPC"
| "nfs3_Errno_state STATE_READ_ONLY_FS = NFS3ERR_ROFS"
| "nfs3_Errno_state STATE_IO_ERROR = NFS3ERR_IO"
| "nfs3_Errno_state STATE_ESTALE = NFS3ERR_STALE"
| "nfs3_Errno_state STATE_FSAL_ERR_SEC = NFS3ERR_PERM"
| "nfs3_Errno_state STATE_LOCKED = NFS3ERR_PERM"
| "nfs3_Errno_state STATE_QUOTA_EXCEEDED = NFS3ERR_DQUOT"
| "nfs3_Errno_state STATE_ASYNC_POST_ERROR = NFS3ERR_INVAL"
| "nfs3_Errno_state STATE_NOT_SUPPORTED = NFS3ERR_NOTSUPP"
| "nfs3_Errno_state STATE_STATE_ERROR = NFS3ERR_INVAL"
| "nfs3_Errno_state STATE_FSAL_DELAY = NFS3ERR_JUKEBOX"
| "nfs3_Errno_state STATE_NAME_TOO_LONG = NFS3ERR_NAMETOOLONG"
| "nfs3_Errno_state STATE_LOCK_CONFLICT = NFS3ERR_INVAL"
| "nfs3_Errno_state STATE_LOCK_BLOCKED = NFS3ERR_INVAL"
| "nfs3_Errno_state STATE_LOCK_DEADLOCK = NFS3ERR_INVAL"
| "nfs3_Errno_state STATE_BAD_COOKIE = NFS3ERR_BAD_COOKIE"
| "nfs3_Errno_state STATE_FILE_BIG = NFS3ERR_FBIG"
| "nfs3_Errno_state STATE_GRACE_PERIOD = NFS3ERR_INVAL"
| "nfs3_Errno_state STATE_CACHE_INODE_ERR = NFS3ERR_INVAL"
| "nfs3_Errno_state STATE_SIGNAL_ERROR = NFS3ERR_INVAL"
| "nfs3_Errno_state STATE_FILE_OPEN = NFS3ERR_IO"
| "nfs3_Errno_state STATE_MLINK = NFS3ERR_MLINK"
| "nfs3_Errno_state STATE_SERVERFAULT = NFS3ERR_SERVERFAULT"
| "nfs3_Errno_state STATE_TOOSMALL = NFS3ERR_TOOSMALL"
| "nfs3_Errno_state STATE_XDEV = NFS3ERR_XDEV"
| "nfs3_Errno_state STATE_SHARE_DENIED = NFS3ERR_JUKEBOX"
| "nfs3_Errno_state STATE_IN_GRACE = NFS3ERR_JUKEBOX"
| "nfs3_Errno_state STATE_BADHANDLE = NFS3ERR_BADHANDLE"
| "nfs3_Errno_state STATE_BAD_RANGE = NFS3ERR_INVAL"

primrec nfs4_Errno_verbose :: "fsal_errors_t \<Rightarrow> nfsstat4" where
  "nfs4_Errno_verbose ERR_FSAL_NO_ERROR = NFS4_OK"
| "nfs4_Errno_verbose ERR_FSAL_PERM = NFS4ERR_PERM"
| "nfs4_Errno_verbose ERR_FSAL_NOENT = NFS4ERR_NOENT"
| "nfs4_Errno_verbose ERR_FSAL_IO = NFS4ERR_IO"
| "nfs4_Errno_verbose ERR_FSAL_NXIO = NFS4ERR_IO"
| "nfs4_Errno_verbose ERR_FSAL_NOMEM = NFS4ERR_SERVERFAULT"
| "nfs4_Errno_verbose ERR_FSAL_ACCESS = NFS4ERR_ACCESS"
| "nfs4_Errno_verbose ERR_FSAL_FAULT = NFS4ERR_SERVERFAULT"
| "nfs4_Errno_verbose ERR_FSAL_EXIST = NFS4ERR_EXIST"
| "nfs4_Errno_verbose ERR_FSAL_XDEV = NFS4ERR_XDEV"
| "nfs4_Errno_verbose ERR_FSAL_NOTDIR = NFS4ERR_NOTDIR"
| "nfs4_Errno_verbose ERR_FSAL_ISDIR = NFS4ERR_ISDIR"
| "nfs4_Errno_verbose ERR_FSAL_INVAL = NFS4ERR_INVAL"
| "nfs4_Errno_verbose ERR_FSAL_FBIG = NFS4ERR_FBIG"
| "nfs4_Errno_verbose ERR_FSAL_NOSPC = NFS4ERR_NOSPC"
| "nfs4_Errno_verbose ERR_FSAL_ROFS = NFS4ERR_ROFS"
| "nfs4_Errno_verbose ERR_FSAL_MLINK = NFS4ERR_MLINK"
| "nfs4_Errno_verbose ERR_FSAL_DQUOT = NFS4ERR_DQUOT"
| "nfs4_Errno_verbose ERR_FSAL_NO_DATA = NFS4ERR_SERVERFAULT"
| "nfs4_Errno_verbose ERR_FSAL_NAMETOOLONG = NFS4ERR_NAMETOOLONG"
| "nfs4_Errno_verbose ERR_FSAL_NOTEMPTY = NFS4ERR_NOTEMPTY"
| "nfs4_Errno_verbose ERR_FSAL_STALE = NFS4ERR_STALE"
| "nfs4_Errno_verbose ERR_FSAL_BADHANDLE = NFS4ERR_BADHANDLE"
| "nfs4_Errno_verbose ERR_FSAL_BADCOOKIE = NFS4ERR_BAD_COOKIE"
| "nfs4_Errno_verbose ERR_FSAL_NOTSUPP = NFS4ERR_NOTSUPP"
| "nfs4_Errno_verbose ERR_FSAL_TOOSMALL = NFS4ERR_TOOSMALL"
| "nfs4_Errno_verbose ERR_FSAL_SERVERFAULT = NFS4ERR_SERVERFAULT"
| "nfs4_Errno_verbose ERR_FSAL_BADTYPE = NFS4ERR_INVAL"
| "nfs4_Errno_verbose ERR_FSAL_DELAY = NFS4ERR_DELAY"
| "nfs4_Errno_verbose ERR_FSAL_LOCKED = NFS4ERR_LOCKED"
| "nfs4_Errno_verbose ERR_FSAL_FHEXPIRED = NFS4ERR_STALE"
| "nfs4_Errno_verbose ERR_FSAL_SHARE_DENIED = NFS4ERR_SHARE_DENIED"
| "nfs4_Errno_verbose ERR_FSAL_SYMLINK = NFS4ERR_INVAL"
| "nfs4_Errno_verbose ERR_FSAL_ATTRNOTSUPP = NFS4ERR_NOTSUPP"
| "nfs4_Errno_verbose ERR_FSAL_BAD_RANGE = NFS4ERR_BAD_RANGE"
| "nfs4_Errno_verbose ERR_FSAL_NOT_INIT = NFS4ERR_IO"
| "nfs4_Errno_verbose ERR_FSAL_ALREADY_INIT = NFS4ERR_IO"
| "nfs4_Errno_verbose ERR_FSAL_BAD_INIT = NFS4ERR_IO"
| "nfs4_Errno_verbose ERR_FSAL_SEC = NFS4ERR_PERM"
| "nfs4_Errno_verbose ERR_FSAL_NO_QUOTA = NFS4ERR_DQUOT"
| "nfs4_Errno_verbose ERR_FSAL_NOT_OPENED = NFS4ERR_IO"
| "nfs4_Errno_verbose ERR_FSAL_DEADLOCK = NFS4ERR_DEADLOCK"
| "nfs4_Errno_verbose ERR_FSAL_OVERFLOW = NFS4ERR_INVAL"
| "nfs4_Errno_verbose ERR_FSAL_INTERRUPT = NFS4ERR_IO"
| "nfs4_Errno_verbose ERR_FSAL_BLOCKED = NFS4ERR_IO"
| "nfs4_Errno_verbose ERR_FSAL_TIMEOUT = NFS4ERR_IO"
| "nfs4_Errno_verbose ERR_FSAL_FILE_OPEN = NFS4ERR_FILE_OPEN"
| "nfs4_Errno_verbose ERR_FSAL_UNION_NOTSUPP = NFS4ERR_UNION_NOTSUPP"
| "nfs4_Errno_verbose ERR_FSAL_IN_GRACE = NFS4ERR_GRACE"
| "nfs4_Errno_verbose ERR_FSAL_NO_ACE = NFS4ERR_INVAL"
| "nfs4_Errno_verbose ERR_FSAL_CROSS_JUNCTION = NFS4ERR_INVAL"
| "nfs4_Errno_verbose ERR_FSAL_BADNAME = NFS4ERR_BADNAME"

primrec nfs3_Errno_verbose :: "fsal_errors_t \<Rightarrow> nfsstat3" where
  "nfs3_Errno_verbose ERR_FSAL_NO_ERROR = NFS3_OK"
| "nfs3_Errno_verbose ERR_FSAL_PERM = NFS3ERR_PERM"
| "nfs3_Errno_verbose ERR_FSAL_NOENT = NFS3ERR_NOENT"
| "nfs3_Errno_verbose ERR_FSAL_IO = NFS3ERR_IO"
| "nfs3_Errno_verbose ERR_FSAL_NXIO = NFS3ERR_IO"
| "nfs3_Errno_verbose ERR_FSAL_NOMEM = NFS3ERR_IO"
| "nfs3_Errno_verbose ERR_FSAL_ACCESS = NFS3ERR_ACCES"
| "nfs3_Errno_verbose ERR_FSAL_FAULT = NFS3ERR_SERVERFAULT"
| "nfs3_Errno_verbose ERR_FSAL_EXIST = NFS3ERR_EXIST"
| "nfs3_Errno_verbose ERR_FSAL_XDEV = NFS3ERR_XDEV"
| "nfs3_Errno_verbose ERR_FSAL_NOTDIR = NFS3ERR_NOTDIR"
| "nfs3_Errno_verbose ERR_FSAL_ISDIR = NFS3ERR_ISDIR"
| "nfs3_Errno_verbose ERR_FSAL_INVAL = NFS3ERR_INVAL"
| "nfs3_Errno_verbose ERR_FSAL_FBIG = NFS3ERR_FBIG"
| "nfs3_Errno_verbose ERR_FSAL_NOSPC = NFS3ERR_NOSPC"
| "nfs3_Errno_verbose ERR_FSAL_ROFS = NFS3ERR_ROFS"
| "nfs3_Errno_verbose ERR_FSAL_MLINK = NFS3ERR_MLINK"
| "nfs3_Errno_verbose ERR_FSAL_DQUOT = NFS3ERR_DQUOT"
| "nfs3_Errno_verbose ERR_FSAL_NO_DATA = NFS3ERR_SERVERFAULT"
| "nfs3_Errno_verbose ERR_FSAL_NAMETOOLONG = NFS3ERR_NAMETOOLONG"
| "nfs3_Errno_verbose ERR_FSAL_NOTEMPTY = NFS3ERR_NOTEMPTY"
| "nfs3_Errno_verbose ERR_FSAL_STALE = NFS3ERR_STALE"
| "nfs3_Errno_verbose ERR_FSAL_BADHANDLE = NFS3ERR_BADHANDLE"
| "nfs3_Errno_verbose ERR_FSAL_BADCOOKIE = NFS3ERR_BAD_COOKIE"
| "nfs3_Errno_verbose ERR_FSAL_NOTSUPP = NFS3ERR_NOTSUPP"
| "nfs3_Errno_verbose ERR_FSAL_TOOSMALL = NFS3ERR_TOOSMALL"
| "nfs3_Errno_verbose ERR_FSAL_SERVERFAULT = NFS3ERR_SERVERFAULT"
| "nfs3_Errno_verbose ERR_FSAL_BADTYPE = NFS3ERR_BADTYPE"
| "nfs3_Errno_verbose ERR_FSAL_DELAY = NFS3ERR_JUKEBOX"
| "nfs3_Errno_verbose ERR_FSAL_LOCKED = NFS3ERR_JUKEBOX"
| "nfs3_Errno_verbose ERR_FSAL_FHEXPIRED = NFS3ERR_STALE"
| "nfs3_Errno_verbose ERR_FSAL_SHARE_DENIED = NFS3ERR_JUKEBOX"
| "nfs3_Errno_verbose ERR_FSAL_SYMLINK = NFS3ERR_BADTYPE"
| "nfs3_Errno_verbose ERR_FSAL_ATTRNOTSUPP = NFS3ERR_NOTSUPP"
| "nfs3_Errno_verbose ERR_FSAL_BAD_RANGE = NFS3ERR_INVAL"
| "nfs3_Errno_verbose ERR_FSAL_NOT_INIT = NFS3ERR_INVAL"
| "nfs3_Errno_verbose ERR_FSAL_ALREADY_INIT = NFS3ERR_INVAL"
| "nfs3_Errno_verbose ERR_FSAL_BAD_INIT = NFS3ERR_INVAL"
| "nfs3_Errno_verbose ERR_FSAL_SEC = NFS3ERR_PERM"
| "nfs3_Errno_verbose ERR_FSAL_NO_QUOTA = NFS3ERR_DQUOT"
| "nfs3_Errno_verbose ERR_FSAL_NOT_OPENED = NFS3ERR_IO"
| "nfs3_Errno_verbose ERR_FSAL_DEADLOCK = NFS3ERR_SERVERFAULT"
| "nfs3_Errno_verbose ERR_FSAL_OVERFLOW = NFS3ERR_INVAL"
| "nfs3_Errno_verbose ERR_FSAL_INTERRUPT = NFS3ERR_INVAL"
| "nfs3_Errno_verbose ERR_FSAL_BLOCKED = NFS3ERR_INVAL"
| "nfs3_Errno_verbose ERR_FSAL_TIMEOUT = NFS3ERR_INVAL"
| "nfs3_Errno_verbose ERR_FSAL_FILE_OPEN = NFS3ERR_IO"
| "nfs3_Errno_verbose ERR_FSAL_UNION_NOTSUPP = NFS3ERR_NOTSUPP"
| "nfs3_Errno_verbose ERR_FSAL_IN_GRACE = NFS3ERR_JUKEBOX"
| "nfs3_Errno_verbose ERR_FSAL_NO_ACE = NFS3ERR_INVAL"
| "nfs3_Errno_verbose ERR_FSAL_CROSS_JUNCTION = NFS3ERR_INVAL"
| "nfs3_Errno_verbose ERR_FSAL_BADNAME = NFS3ERR_INVAL"

primrec state_err_str :: "state_status_t \<Rightarrow> string" where
  "state_err_str STATE_SUCCESS = ''STATE_SUCCESS''"
| "state_err_str STATE_MALLOC_ERROR = ''STATE_MALLOC_ERROR''"
| "state_err_str STATE_POOL_MUTEX_INIT_ERROR = ''STATE_POOL_MUTEX_INIT_ERROR''"
| "state_err_str STATE_GET_NEW_LRU_ENTRY = ''STATE_GET_NEW_LRU_ENTRY''"
| "state_err_str STATE_INIT_ENTRY_FAILED = ''STATE_INIT_ENTRY_FAILED''"
| "state_err_str STATE_FSAL_ERROR = ''STATE_FSAL_ERROR''"
| "state_err_str STATE_LRU_ERROR = ''STATE_LRU_ERROR''"
| "state_err_str STATE_HASH_SET_ERROR = ''STATE_HASH_SET_ERROR''"
| "state_err_str STATE_NOT_A_DIRECTORY = ''STATE_NOT_A_DIRECTORY''"
| "state_err_str STATE_INCONSISTENT_ENTRY = ''STATE_INCONSISTENT_ENTRY''"
| "state_err_str STATE_BAD_TYPE = ''STATE_BAD_TYPE''"
| "state_err_str STATE_ENTRY_EXISTS = ''STATE_ENTRY_EXISTS''"
| "state_err_str STATE_DIR_NOT_EMPTY = ''STATE_DIR_NOT_EMPTY''"
| "state_err_str STATE_NOT_FOUND = ''STATE_NOT_FOUND''"
| "state_err_str STATE_INVALID_ARGUMENT = ''STATE_INVALID_ARGUMENT''"
| "state_err_str STATE_INSERT_ERROR = ''STATE_INSERT_ERROR''"
| "state_err_str STATE_HASH_TABLE_ERROR = ''STATE_HASH_TABLE_ERROR''"
| "state_err_str STATE_FSAL_EACCESS = ''STATE_FSAL_EACCESS''"
| "state_err_str STATE_IS_A_DIRECTORY = ''STATE_IS_A_DIRECTORY''"
| "state_err_str STATE_FSAL_EPERM = ''STATE_FSAL_EPERM''"
| "state_err_str STATE_NO_SPACE_LEFT = ''STATE_NO_SPACE_LEFT''"
| "state_err_str STATE_READ_ONLY_FS = ''STATE_READ_ONLY_FS''"
| "state_err_str STATE_IO_ERROR = ''STATE_IO_ERROR''"
| "state_err_str STATE_ESTALE = ''STATE_ESTALE''"
| "state_err_str STATE_FSAL_ERR_SEC = ''STATE_FSAL_ERR_SEC''"
| "state_err_str STATE_LOCKED = ''STATE_LOCKED''"
| "state_err_str STATE_QUOTA_EXCEEDED = ''STATE_QUOTA_EXCEEDED''"
| "state_err_str STATE_ASYNC_POST_ERROR = ''STATE_ASYNC_POST_ERROR''"
| "state_err_str STATE_NOT_SUPPORTED = ''STATE_NOT_SUPPORTED''"
| "state_err_str STATE_STATE_ERROR = ''STATE_STATE_ERROR''"
| "state_err_str STATE_FSAL_DELAY = ''STATE_FSAL_DELAY''"
| "state_err_str STATE_NAME_TOO_LONG = ''STATE_NAME_TOO_LONG''"
| "state_err_str STATE_LOCK_CONFLICT = ''STATE_LOCK_CONFLICT''"
| "state_err_str STATE_LOCK_BLOCKED = ''STATE_LOCK_BLOCKED''"
| "state_err_str STATE_LOCK_DEADLOCK = ''STATE_LOCK_DEADLOCK''"
| "state_err_str STATE_BAD_COOKIE = ''STATE_BAD_COOKIE''"
| "state_err_str STATE_FILE_BIG = ''STATE_FILE_BIG''"
| "state_err_str STATE_GRACE_PERIOD = ''STATE_GRACE_PERIOD''"
| "state_err_str STATE_CACHE_INODE_ERR = ''STATE_CACHE_INODE_ERR''"
| "state_err_str STATE_SIGNAL_ERROR = ''STATE_SIGNAL_ERROR''"
| "state_err_str STATE_FILE_OPEN = ''STATE_FILE_OPEN''"
| "state_err_str STATE_MLINK = ''STATE_MLINK''"
| "state_err_str STATE_SERVERFAULT = ''STATE_SERVERFAULT''"
| "state_err_str STATE_TOOSMALL = ''STATE_TOOSMALL''"
| "state_err_str STATE_XDEV = ''STATE_XDEV''"
| "state_err_str STATE_SHARE_DENIED = ''STATE_SHARE_DENIED''"
| "state_err_str STATE_IN_GRACE = ''STATE_IN_GRACE''"
| "state_err_str STATE_BADHANDLE = ''STATE_BADHANDLE''"
| "state_err_str STATE_BAD_RANGE = ''STATE_BAD_RANGE''"

definition nfsstat3_to_str :: "nfsstat3 \<Rightarrow> string" where
  "nfsstat3_to_str code =
    (if code = NFS3_OK then ''NFS3_OK''
     else if code = NFS3ERR_PERM then ''NFS3ERR_PERM''
     else if code = NFS3ERR_NOENT then ''NFS3ERR_NOENT''
     else if code = NFS3ERR_IO then ''NFS3ERR_IO''
     else if code = NFS3ERR_NXIO then ''NFS3ERR_NXIO''
     else if code = NFS3ERR_ACCES then ''NFS3ERR_ACCES''
     else if code = NFS3ERR_EXIST then ''NFS3ERR_EXIST''
     else if code = NFS3ERR_XDEV then ''NFS3ERR_XDEV''
     else if code = NFS3ERR_NODEV then ''NFS3ERR_NODEV''
     else if code = NFS3ERR_NOTDIR then ''NFS3ERR_NOTDIR''
     else if code = NFS3ERR_ISDIR then ''NFS3ERR_ISDIR''
     else if code = NFS3ERR_INVAL then ''NFS3ERR_INVAL''
     else if code = NFS3ERR_FBIG then ''NFS3ERR_FBIG''
     else if code = NFS3ERR_NOSPC then ''NFS3ERR_NOSPC''
     else if code = NFS3ERR_ROFS then ''NFS3ERR_ROFS''
     else if code = NFS3ERR_MLINK then ''NFS3ERR_MLINK''
     else if code = NFS3ERR_NAMETOOLONG then ''NFS3ERR_NAMETOOLONG''
     else if code = NFS3ERR_NOTEMPTY then ''NFS3ERR_NOTEMPTY''
     else if code = NFS3ERR_DQUOT then ''NFS3ERR_DQUOT''
     else if code = NFS3ERR_STALE then ''NFS3ERR_STALE''
     else if code = NFS3ERR_REMOTE then ''NFS3ERR_REMOTE''
     else if code = NFS3ERR_BADHANDLE then ''NFS3ERR_BADHANDLE''
     else if code = NFS3ERR_NOT_SYNC then ''NFS3ERR_NOT_SYNC''
     else if code = NFS3ERR_BAD_COOKIE then ''NFS3ERR_BAD_COOKIE''
     else if code = NFS3ERR_NOTSUPP then ''NFS3ERR_NOTSUPP''
     else if code = NFS3ERR_TOOSMALL then ''NFS3ERR_TOOSMALL''
     else if code = NFS3ERR_SERVERFAULT then ''NFS3ERR_SERVERFAULT''
     else if code = NFS3ERR_BADTYPE then ''NFS3ERR_BADTYPE''
     else if code = NFS3ERR_JUKEBOX then ''NFS3ERR_JUKEBOX''
     else ''UNKNOWN NFSv3 ERROR CODE'')"

subsection \<open>Conversions that keep success and failure apart\<close>

text \<open>
  The contract a caller of a conversion routine relies on: the success code of the source
  enumeration, and no other, becomes the success code of the target enumeration.
\<close>

locale status_map =
  fixes conv :: "'a \<Rightarrow> 'b" and ok_in :: 'a and ok_out :: 'b
  assumes ok_iff: "conv e = ok_out \<longleftrightarrow> e = ok_in"
begin

lemma conv_ok: "conv ok_in = ok_out"
  by (simp add: ok_iff)

lemma failure_kept: "e \<noteq> ok_in \<Longrightarrow> conv e \<noteq> ok_out"
  by (simp add: ok_iff)

end

text \<open>Two conversions in a row, as the protocol layer applies them, keep the contract.\<close>

locale two_stage_map =
  inner: status_map inner_conv ok_in ok_mid + outer: status_map outer_conv ok_mid ok_out
  for inner_conv :: "'a \<Rightarrow> 'b" and ok_in :: 'a and ok_mid :: 'b
    and outer_conv :: "'b \<Rightarrow> 'c" and ok_out :: 'c

sublocale two_stage_map \<subseteq> both: status_map "\<lambda>e. outer_conv (inner_conv e)" ok_in ok_out
  by unfold_locales (simp add: inner.ok_iff outer.ok_iff)

lemma state_error_convert_major_ok:
  "state_error_convert_major e = STATE_SUCCESS \<longleftrightarrow> e = ERR_FSAL_NO_ERROR"
  by (cases e) simp_all

lemma nfs4_Errno_state_ok: "nfs4_Errno_state e = NFS4_OK \<longleftrightarrow> e = STATE_SUCCESS"
  by (cases e) simp_all

lemma nfs3_Errno_state_ok: "nfs3_Errno_state e = NFS3_OK \<longleftrightarrow> e = STATE_SUCCESS"
  by (cases e) simp_all

lemma nfs4_Errno_verbose_ok: "nfs4_Errno_verbose e = NFS4_OK \<longleftrightarrow> e = ERR_FSAL_NO_ERROR"
  by (cases e) simp_all

lemma nfs3_Errno_verbose_ok: "nfs3_Errno_verbose e = NFS3_OK \<longleftrightarrow> e = ERR_FSAL_NO_ERROR"
  by (cases e) simp_all

interpretation sal4: two_stage_map
  state_error_convert_major ERR_FSAL_NO_ERROR STATE_SUCCESS nfs4_Errno_state NFS4_OK
  by unfold_locales (rule state_error_convert_major_ok nfs4_Errno_state_ok)+

interpretation sal3: two_stage_map
  state_error_convert_major ERR_FSAL_NO_ERROR STATE_SUCCESS nfs3_Errno_state NFS3_OK
  by unfold_locales (rule nfs3_Errno_state_ok)

interpretation direct4: status_map nfs4_Errno_verbose ERR_FSAL_NO_ERROR NFS4_OK
  by unfold_locales (rule nfs4_Errno_verbose_ok)

interpretation direct3: status_map nfs3_Errno_verbose ERR_FSAL_NO_ERROR NFS3_OK
  by unfold_locales (rule nfs3_Errno_verbose_ok)

lemma state_error_convert_ok:
  "state_error_convert st = STATE_SUCCESS \<longleftrightarrow> \<not> FSAL_IS_ERROR st"
  by (simp add: state_error_convert_def FSAL_IS_ERROR_def state_error_convert_major_ok)

subsection \<open>Results are codes of the protocol\<close>

lemma nfs4_Errno_verbose_code: "nfs4_Errno_verbose e \<in> set nfsstat4_codes"
  by (cases e) (simp_all add: nfsstat4_codes_def)

lemma nfs4_Errno_state_code: "nfs4_Errno_state e \<in> set nfsstat4_codes"
  by (cases e) (simp_all add: nfsstat4_codes_def)

lemma nfs3_Errno_verbose_code: "nfs3_Errno_verbose e \<in> set nfsstat3_codes"
  by (cases e) (simp_all add: nfsstat3_codes_def)

lemma nfs3_Errno_state_code: "nfs3_Errno_state e \<in> set nfsstat3_codes"
  by (cases e) (simp_all add: nfsstat3_codes_def)

lemma nfsstat3_codes_distinct: "distinct nfsstat3_codes"
  by (simp add: nfsstat3_codes_def)

lemma nfsstat3_to_str_known:
  "code \<in> set nfsstat3_codes \<longleftrightarrow> nfsstat3_to_str code \<noteq> ''UNKNOWN NFSv3 ERROR CODE''"
  by (auto simp: nfsstat3_codes_def nfsstat3_to_str_def)

text \<open>C23: No error of a file system back end is ever reported to a client as success, and
  success is never reported as an error, on each of the four ways the server turns an FSAL
  status into an NFS status: through the state layer to NFSv4 and NFSv3, and directly.\<close>

theorem errors_never_become_success:
  "(nfs4_Errno_state (state_error_convert st) = NFS4_OK \<longleftrightarrow> \<not> FSAL_IS_ERROR st) \<and>
   (nfs3_Errno_state (state_error_convert st) = NFS3_OK \<longleftrightarrow> \<not> FSAL_IS_ERROR st) \<and>
   (nfs4_Errno_verbose (major st) = NFS4_OK \<longleftrightarrow> \<not> FSAL_IS_ERROR st) \<and>
   (nfs3_Errno_verbose (major st) = NFS3_OK \<longleftrightarrow> \<not> FSAL_IS_ERROR st)"
  unfolding state_error_convert_def FSAL_IS_ERROR_def
  by (metis sal4.both.ok_iff sal3.both.ok_iff direct4.ok_iff direct3.ok_iff)

text \<open>C28: The two routes from an FSAL error to an NFSv4 status (through the state layer, and
  directly) give the same status for every error but the nineteen listed: those the state layer
  folds into a lock conflict or a block (reported as DENIED), and those it folds into its
  generic FSAL error (reported as IO).\<close>

theorem v4_routes_agree_except:
  "nfs4_Errno_state (state_error_convert_major e) = nfs4_Errno_verbose e \<longleftrightarrow>
   e \<notin> {ERR_FSAL_NOMEM, ERR_FSAL_ACCESS, ERR_FSAL_FAULT, ERR_FSAL_EXIST, ERR_FSAL_XDEV,
        ERR_FSAL_NOTDIR, ERR_FSAL_MLINK, ERR_FSAL_DQUOT, ERR_FSAL_NO_DATA,
        ERR_FSAL_NAMETOOLONG, ERR_FSAL_NOTEMPTY, ERR_FSAL_SERVERFAULT, ERR_FSAL_DELAY,
        ERR_FSAL_NO_QUOTA, ERR_FSAL_BLOCKED, ERR_FSAL_UNION_NOTSUPP, ERR_FSAL_NO_ACE,
        ERR_FSAL_CROSS_JUNCTION, ERR_FSAL_BADNAME}"
  by (cases e) simp_all


end
