(* ===== verification/Access_Check.thy ===== *)
theory Access_Check
  imports Status_Codes
begin

text \<open>
  File access checks: \<^verbatim>\<open>FSAL/access_check.c\<close> (evaluation of NFSv4 ACLs and of mode bits,
  \<^verbatim>\<open>fsal_test_access\<close>), the permission helpers built on it
  (\<^verbatim>\<open>check_open_permission\<close> and \<^verbatim>\<open>fsal_check_setattr_perms\<close> of
  \<^verbatim>\<open>FSAL/fsal_helper.c\<close>, \<^verbatim>\<open>fsal_remove_access\<close> and \<^verbatim>\<open>fsal_rename_access\<close> of
  \<^verbatim>\<open>FSAL/commonlib.c\<close>), and the access masks of \<^verbatim>\<open>include/fsal_types.h\<close>.

  A pointer result (\<^verbatim>\<open>allowed\<close>, \<^verbatim>\<open>denied\<close>) is an option: \<open>None\<close> is the null pointer and
  \<open>Some w\<close> a pointer to the value \<open>w\<close>.  The build option \<^verbatim>\<open>ENABLE_RFC_ACL\<close> is the argument
  \<open>rfc_acl\<close>.  The attributes a back end returns from \<^verbatim>\<open>getattrs\<close> are an argument of the
  checks.
\<close>

unbundle bit_operations_syntax

subsection \<open>Access masks and access control entries\<close>

datatype object_file_type_t =
    NO_FILE_TYPE | REGULAR_FILE | CHARACTER_FILE | BLOCK_FILE | SYMBOLIC_LINK
  | SOCKET_FILE | FIFO_FILE | DIRECTORY | EXTENDED_ATTR

record user_cred =
  caller_uid :: uint32
  caller_gid :: uint32
  caller_garray :: "uint32 list"

record fsal_ace_t =
  ace_type :: uint32
  ace_perm :: uint32
  ace_flag :: uint32
  ace_iflag :: uint32
  ace_who :: uint32

record attrlist =
  attr_type :: object_file_type_t
  attr_owner :: uint32
  attr_group :: uint32
  attr_mode :: uint32
  attr_acl :: "fsal_ace_t list option"

abbreviation (input) FSAL_ACE_TYPE_ALLOW :: uint32 where "FSAL_ACE_TYPE_ALLOW \<equiv> 0"
abbreviation (input) FSAL_ACE_TYPE_DENY :: uint32 where "FSAL_ACE_TYPE_DENY \<equiv> 1"
abbreviation (input) FSAL_ACE_TYPE_AUDIT :: uint32 where "FSAL_ACE_TYPE_AUDIT \<equiv> 2"
abbreviation (input) FSAL_ACE_TYPE_ALARM :: uint32 where "FSAL_ACE_TYPE_ALARM \<equiv> 3"

abbreviation (input) FSAL_ACE_FLAG_FILE_INHERIT :: uint32 where "FSAL_ACE_FLAG_FILE_INHERIT \<equiv> 0x01"
abbreviation (input) FSAL_ACE_FLAG_DIR_INHERIT :: uint32 where "FSAL_ACE_FLAG_DIR_INHERIT \<equiv> 0x02"
abbreviation (input) FSAL_ACE_FLAG_NO_PROPAGATE :: uint32 where "FSAL_ACE_FLAG_NO_PROPAGATE \<equiv> 0x04"
abbreviation (input) FSAL_ACE_FLAG_INHERIT_ONLY :: uint32 where "FSAL_ACE_FLAG_INHERIT_ONLY \<equiv> 0x08"
abbreviation (input) FSAL_ACE_FLAG_SUCCESSFUL :: uint32 where "FSAL_ACE_FLAG_SUCCESSFUL \<equiv> 0x10"
abbreviation (input) FSAL_ACE_FLAG_FAILED :: uint32 where "FSAL_ACE_FLAG_FAILED \<equiv> 0x20"
abbreviation (input) FSAL_ACE_FLAG_GROUP_ID :: uint32 where "FSAL_ACE_FLAG_GROUP_ID \<equiv> 0x40"
abbreviation (input) FSAL_ACE_FLAG_INHERITED :: uint32 where "FSAL_ACE_FLAG_INHERITED \<equiv> 0x80"

abbreviation (input) FSAL_ACE_IFLAG_MODE_GEN :: uint32 where
  "FSAL_ACE_IFLAG_MODE_GEN \<equiv> 0x10000000"
abbreviation (input) FSAL_ACE_IFLAG_EXCLUDE_FILES :: uint32 where
  "FSAL_ACE_IFLAG_EXCLUDE_FILES \<equiv> 0x40000000"
abbreviation (input) FSAL_ACE_IFLAG_EXCLUDE_DIRS :: uint32 where
  "FSAL_ACE_IFLAG_EXCLUDE_DIRS \<equiv> 0x20000000"
abbreviation (input) FSAL_ACE_IFLAG_SPECIAL_ID :: uint32 where
  "FSAL_ACE_IFLAG_SPECIAL_ID \<equiv> 0x80000000"

abbreviation (input) FSAL_ACE_PERM_READ_DATA :: uint32 where "FSAL_ACE_PERM_READ_DATA \<equiv> 0x01"
abbreviation (input) FSAL_ACE_PERM_WRITE_DATA :: uint32 where "FSAL_ACE_PERM_WRITE_DATA \<equiv> 0x02"
abbreviation (input) FSAL_ACE_PERM_ADD_FILE :: uint32 where "FSAL_ACE_PERM_ADD_FILE \<equiv> 0x02"
abbreviation (input) FSAL_ACE_PERM_APPEND_DATA :: uint32 where "FSAL_ACE_PERM_APPEND_DATA \<equiv> 0x04"
abbreviation (input) FSAL_ACE_PERM_ADD_SUBDIRECTORY :: uint32 where
  "FSAL_ACE_PERM_ADD_SUBDIRECTORY \<equiv> 0x04"
abbreviation (input) FSAL_ACE_PERM_READ_NAMED_ATTR :: uint32 where
  "FSAL_ACE_PERM_READ_NAMED_ATTR \<equiv> 0x08"
abbreviation (input) FSAL_ACE_PERM_WRITE_NAMED_ATTR :: uint32 where
  "FSAL_ACE_PERM_WRITE_NAMED_ATTR \<equiv> 0x10"
abbreviation (input) FSAL_ACE_PERM_EXECUTE :: uint32 where "FSAL_ACE_PERM_EXECUTE \<equiv> 0x20"
abbreviation (input) FSAL_ACE_PERM_DELETE_CHILD :: uint32 where "FSAL_ACE_PERM_DELETE_CHILD \<equiv> 0x40"
abbreviation (input) FSAL_ACE_PERM_READ_ATTR :: uint32 where "FSAL_ACE_PERM_READ_ATTR \<equiv> 0x80"
abbreviation (input) FSAL_ACE_PERM_WRITE_ATTR :: uint32 where "FSAL_ACE_PERM_WRITE_ATTR \<equiv> 0x100"
abbreviation (input) FSAL_ACE_PERM_DELETE :: uint32 where "FSAL_ACE_PERM_DELETE \<equiv> 0x10000"
abbreviation (input) FSAL_ACE_PERM_READ_ACL :: uint32 where "FSAL_ACE_PERM_READ_ACL \<equiv> 0x20000"
abbreviation (input) FSAL_ACE_PERM_WRITE_ACL :: uint32 where "FSAL_ACE_PERM_WRITE_ACL \<equiv> 0x40000"
abbreviation (input) FSAL_ACE_PERM_WRITE_OWNER :: uint32 where "FSAL_ACE_PERM_WRITE_OWNER \<equiv> 0x80000"
abbreviation (input) FSAL_ACE_PERM_SYNCHRONIZE :: uint32 where
  "FSAL_ACE_PERM_SYNCHRONIZE \<equiv> 0x100000"

abbreviation (input) FSAL_ACE_SPECIAL_OWNER :: uint32 where "FSAL_ACE_SPECIAL_OWNER \<equiv> 1"
abbreviation (input) FSAL_ACE_SPECIAL_GROUP :: uint32 where "FSAL_ACE_SPECIAL_GROUP \<equiv> 2"
abbreviation (input) FSAL_ACE_SPECIAL_EVERYONE :: uint32 where "FSAL_ACE_SPECIAL_EVERYONE \<equiv> 3"

abbreviation (input) FSAL_R_OK :: uint32 where "FSAL_R_OK \<equiv> 0x04000000"
abbreviation (input) FSAL_W_OK :: uint32 where "FSAL_W_OK \<equiv> 0x02000000"
abbreviation (input) FSAL_X_OK :: uint32 where "FSAL_X_OK \<equiv> 0x01000000"
abbreviation (input) FSAL_ACCESS_FLAG_BIT_MASK :: uint32 where
  "FSAL_ACCESS_FLAG_BIT_MASK \<equiv> 0x80000000"
abbreviation (input) FSAL_MODE_BIT_MASK :: uint32 where "FSAL_MODE_BIT_MASK \<equiv> 0x07000000"
abbreviation (input) FSAL_ACE4_BIT_MASK :: uint32 where "FSAL_ACE4_BIT_MASK \<equiv> 0x50FFFFFF"
abbreviation (input) FSAL_MODE_MASK_FLAG :: uint32 where "FSAL_MODE_MASK_FLAG \<equiv> 0"
abbreviation (input) FSAL_ACE4_MASK_FLAG :: uint32 where "FSAL_ACE4_MASK_FLAG \<equiv> 0x80000000"
abbreviation (input) FSAL_ACE4_PERM_CONTINUE :: uint32 where "FSAL_ACE4_PERM_CONTINUE \<equiv> 0x40000000"
abbreviation (input) FSAL_ACE4_REQ_FLAG :: uint32 where "FSAL_ACE4_REQ_FLAG \<equiv> 0x10000000"

definition IS_FSAL_ACE_BIT :: "uint32 \<Rightarrow> uint32 \<Rightarrow> bool" where
  "IS_FSAL_ACE_BIT w b \<longleftrightarrow> w AND b \<noteq> 0"

definition IS_FSAL_ACE_ALLOW :: "fsal_ace_t \<Rightarrow> bool" where
  "IS_FSAL_ACE_ALLOW ace \<longleftrightarrow> ace_type ace = FSAL_ACE_TYPE_ALLOW"

definition IS_FSAL_ACE_DENY :: "fsal_ace_t \<Rightarrow> bool" where
  "IS_FSAL_ACE_DENY ace \<longleftrightarrow> ace_type ace = FSAL_ACE_TYPE_DENY"

definition IS_FSAL_ACE_INHERIT_ONLY :: "fsal_ace_t \<Rightarrow> bool" where
  "IS_FSAL_ACE_INHERIT_ONLY ace \<longleftrightarrow> IS_FSAL_ACE_BIT (ace_flag ace) FSAL_ACE_FLAG_INHERIT_ONLY"

definition IS_FSAL_ACE_GROUP_ID :: "fsal_ace_t \<Rightarrow> bool" where
  "IS_FSAL_ACE_GROUP_ID ace \<longleftrightarrow> IS_FSAL_ACE_BIT (ace_flag ace) FSAL_ACE_FLAG_GROUP_ID"

definition IS_FSAL_ACE_SPECIAL_ID :: "fsal_ace_t \<Rightarrow> bool" where
  "IS_FSAL_ACE_SPECIAL_ID ace \<longleftrightarrow> IS_FSAL_ACE_BIT (ace_iflag ace) FSAL_ACE_IFLAG_SPECIAL_ID"

definition IS_FSAL_FILE_APPLICABLE :: "fsal_ace_t \<Rightarrow> bool" where
  "IS_FSAL_FILE_APPLICABLE ace \<longleftrightarrow>
     \<not> IS_FSAL_ACE_BIT (ace_iflag ace) FSAL_ACE_IFLAG_EXCLUDE_FILES"

definition IS_FSAL_DIR_APPLICABLE :: "fsal_ace_t \<Rightarrow> bool" where
  "IS_FSAL_DIR_APPLICABLE ace \<longleftrightarrow>
     \<not> IS_FSAL_ACE_BIT (ace_iflag ace) FSAL_ACE_IFLAG_EXCLUDE_DIRS"

definition FSAL_MODE_MASK :: "uint32 \<Rightarrow> uint32" where
  "FSAL_MODE_MASK access = access AND FSAL_MODE_BIT_MASK"

definition FSAL_ACE4_MASK :: "uint32 \<Rightarrow> uint32" where
  "FSAL_ACE4_MASK access = access AND FSAL_ACE4_BIT_MASK"

definition FSAL_MODE_MASK_SET :: "uint32 \<Rightarrow> uint32" where
  "FSAL_MODE_MASK_SET access = access OR FSAL_MODE_MASK_FLAG"

definition FSAL_ACE4_MASK_SET :: "uint32 \<Rightarrow> uint32" where
  "FSAL_ACE4_MASK_SET access = access OR FSAL_ACE4_MASK_FLAG"

definition IS_FSAL_ACE4_MASK_VALID :: "uint32 \<Rightarrow> bool" where
  "IS_FSAL_ACE4_MASK_VALID access \<longleftrightarrow>
     access AND FSAL_ACCESS_FLAG_BIT_MASK = FSAL_ACE4_MASK_FLAG"

definition IS_FSAL_ACE4_REQ :: "uint32 \<Rightarrow> bool" where
  "IS_FSAL_ACE4_REQ access \<longleftrightarrow> access AND FSAL_ACE4_REQ_FLAG \<noteq> 0"

definition FSAL_WRITE_ACCESS :: uint32 where
  "FSAL_WRITE_ACCESS = FSAL_MODE_MASK_SET FSAL_W_OK OR
     FSAL_ACE4_MASK_SET (FSAL_ACE_PERM_WRITE_DATA OR FSAL_ACE_PERM_APPEND_DATA)"

definition FSAL_READ_ACCESS :: uint32 where
  "FSAL_READ_ACCESS = FSAL_MODE_MASK_SET FSAL_R_OK OR
     FSAL_ACE4_MASK_SET FSAL_ACE_PERM_READ_DATA"

definition FSAL_EXECUTE_ACCESS :: uint32 where
  "FSAL_EXECUTE_ACCESS = FSAL_MODE_MASK_SET FSAL_X_OK OR
     FSAL_ACE4_MASK_SET FSAL_ACE_PERM_EXECUTE"

subsection \<open>Evaluation of an access control list\<close>

definition fsal_check_ace_owner :: "uint32 \<Rightarrow> user_cred \<Rightarrow> bool" where
  "fsal_check_ace_owner uid creds \<longleftrightarrow> caller_uid creds = uid"

definition fsal_check_ace_group :: "uint32 \<Rightarrow> user_cred \<Rightarrow> bool" where
  "fsal_check_ace_group gid creds \<longleftrightarrow>
     (if caller_gid creds = gid then True
      else list_ex (\<lambda>g. g = gid) (caller_garray creds))"

definition fsal_check_ace_matches :: "fsal_ace_t \<Rightarrow> user_cred \<Rightarrow> bool \<Rightarrow> bool \<Rightarrow> bool" where
  "fsal_check_ace_matches pace creds is_owner is_group =
     (if IS_FSAL_ACE_SPECIAL_ID pace then
        (if ace_who pace = FSAL_ACE_SPECIAL_OWNER then is_owner
         else if ace_who pace = FSAL_ACE_SPECIAL_GROUP then is_group
         else if ace_who pace = FSAL_ACE_SPECIAL_EVERYONE then True
         else False)
      else if IS_FSAL_ACE_GROUP_ID pace then fsal_check_ace_group (ace_who pace) creds
      else fsal_check_ace_owner (ace_who pace) creds)"

definition fsal_check_ace_applicable ::
  "fsal_ace_t \<Rightarrow> user_cred \<Rightarrow> bool \<Rightarrow> bool \<Rightarrow> bool \<Rightarrow> bool \<Rightarrow> bool" where
  "fsal_check_ace_applicable pace creds is_dir is_owner is_group is_root =
     (if IS_FSAL_ACE_INHERIT_ONLY pace then False
      else if \<not> is_dir \<and> \<not> IS_FSAL_FILE_APPLICABLE pace then False
      else if is_dir \<and> \<not> IS_FSAL_DIR_APPLICABLE pace then False
      else is_root \<or> fsal_check_ace_matches pace creds is_owner is_group)"

text \<open>The rights whose refusal is reported as EPERM unless the RFC checks are compiled in.\<close>

definition eperm_rights :: uint32 where
  "eperm_rights =
     FSAL_ACE_PERM_WRITE_ATTR OR FSAL_ACE_PERM_WRITE_ACL OR FSAL_ACE_PERM_WRITE_OWNER"

definition acl_refusal :: "bool \<Rightarrow> uint32 \<Rightarrow> fsal_status_t" where
  "acl_refusal rfc_acl refused =
     (if \<not> rfc_acl \<and> refused AND eperm_rights \<noteq> 0 then fsalstat ERR_FSAL_PERM 0
      else fsalstat ERR_FSAL_ACCESS 0)"

text \<open>
  The loop over the entries.  The first component of the result is the status of a
  \<^verbatim>\<open>return\<close> inside the loop, the others are \<^verbatim>\<open>missing_access\<close>, \<^verbatim>\<open>*allowed\<close> and
  \<^verbatim>\<open>*denied\<close> when it is left.
\<close>

fun acl_loop ::
  "bool \<Rightarrow> (fsal_ace_t \<Rightarrow> bool) \<Rightarrow> bool \<Rightarrow> uint32 \<Rightarrow> fsal_ace_t list \<Rightarrow>
   uint32 \<Rightarrow> uint32 option \<Rightarrow> uint32 option \<Rightarrow>
   fsal_status_t option \<times> uint32 \<times> uint32 option \<times> uint32 option" where
  "acl_loop rfc_acl applicable is_root v4mask [] missing allowed denied =
     (None, missing, allowed, denied)"
| "acl_loop rfc_acl applicable is_root v4mask (pace # paces) missing allowed denied =
     (if \<not> IS_FSAL_ACE_ALLOW pace \<and> \<not> IS_FSAL_ACE_DENY pace then
        acl_loop rfc_acl applicable is_root v4mask paces missing allowed denied
      else if applicable pace then
        (if IS_FSAL_ACE_ALLOW pace then
           (let tperm = (case denied of Some d \<Rightarrow> ace_perm pace AND NOT d
                                      | None \<Rightarrow> ace_perm pace);
                allowed = map_option (\<lambda>a. a OR (v4mask AND tperm)) allowed;
                missing = missing AND NOT (tperm AND missing)
            in if missing = 0 then (None, missing, allowed, denied)
               else acl_loop rfc_acl applicable is_root v4mask paces missing allowed denied)
         else if ace_perm pace AND missing \<noteq> 0 \<and> \<not> is_root then
           (let denied = map_option (\<lambda>d. d OR (v4mask AND ace_perm pace)) denied
            in if denied = None \<or> v4mask AND FSAL_ACE4_PERM_CONTINUE = 0 then
                 (Some (acl_refusal rfc_acl (ace_perm pace AND missing)),
                  missing, allowed, denied)
               else
                 (let missing = missing AND NOT (ace_perm pace AND missing)
                  in if missing = 0 then (None, missing, allowed, denied)
                     else acl_loop rfc_acl applicable is_root v4mask paces
                            missing allowed denied))
         else acl_loop rfc_acl applicable is_root v4mask paces missing allowed denied)
      else acl_loop rfc_acl applicable is_root v4mask paces missing allowed denied)"

definition owner_rights :: uint32 where
  "owner_rights =
     FSAL_ACE_PERM_WRITE_ACL OR FSAL_ACE_PERM_READ_ACL OR
     FSAL_ACE_PERM_WRITE_ATTR OR FSAL_ACE_PERM_READ_ATTR"

definition acl_asked :: "uint32 \<Rightarrow> uint32" where
  "acl_asked v4mask = v4mask AND NOT FSAL_ACE4_PERM_CONTINUE"

type_synonym access_result = "fsal_status_t \<times> uint32 option \<times> uint32 option"

definition acl_final_status ::
  "bool \<Rightarrow> uint32 \<Rightarrow> uint32 \<Rightarrow> uint32 option \<Rightarrow> fsal_status_t" where
  "acl_final_status rfc_acl v4mask missing denied =
     (if IS_FSAL_ACE4_REQ v4mask \<and> missing \<noteq> 0 then fsalstat ERR_FSAL_NO_ACE 0
      else if missing \<noteq> 0 \<or> (denied \<noteq> None \<and> denied \<noteq> Some 0) then
        acl_refusal rfc_acl missing
      else fsalstat ERR_FSAL_NO_ERROR 0)"

definition fsal_check_access_acl ::
  "bool \<Rightarrow> user_cred \<Rightarrow> uint32 \<Rightarrow> uint32 option \<Rightarrow> uint32 option \<Rightarrow> attrlist \<Rightarrow> access_result"
where
  "fsal_check_access_acl rfc_acl creds v4mask allowed denied attrs =
    (let allowed = map_option (\<lambda>_. 0) allowed;
         denied = map_option (\<lambda>_. 0) denied
     in case attr_acl attrs of
       None \<Rightarrow> (fsalstat ERR_FSAL_NO_ACE 0, allowed, denied)
     | Some aces \<Rightarrow>
       (let missing = acl_asked v4mask in
        if missing = 0 then (fsalstat ERR_FSAL_NO_ERROR 0, allowed, denied)
        else
          (let is_dir = (attr_type attrs = DIRECTORY);
               is_root = (caller_uid creds = 0) in
           if is_root \<and> is_dir then
             (fsalstat ERR_FSAL_NO_ERROR 0, map_option (\<lambda>_. v4mask) allowed, denied)
           else
             (let missing = (if is_root then missing AND FSAL_ACE_PERM_EXECUTE else missing);
                  allowed = (if is_root
                    then map_option (\<lambda>_. v4mask AND NOT FSAL_ACE_PERM_EXECUTE) allowed
                    else allowed) in
              if is_root \<and> missing = 0 then (fsalstat ERR_FSAL_NO_ERROR 0, allowed, denied)
              else
                (let is_owner = fsal_check_ace_owner (attr_owner attrs) creds;
                     is_group = fsal_check_ace_group (attr_group attrs) creds;
                     allowed = (if is_owner
                       then map_option (\<lambda>a. a OR (v4mask AND owner_rights)) allowed
                       else allowed);
                     missing = (if is_owner then missing AND NOT owner_rights else missing) in
                 if is_owner \<and> missing = 0 then
                   (fsalstat ERR_FSAL_NO_ERROR 0, allowed, denied)
                 else
                   (case acl_loop rfc_acl
                           (\<lambda>pace. fsal_check_ace_applicable pace creds is_dir is_owner
                                     is_group is_root)
                           is_root v4mask aces missing allowed denied of
                      (Some status, missing, allowed, denied) \<Rightarrow> (status, allowed, denied)
                    | (None, missing, allowed, denied) \<Rightarrow>
                        (acl_final_status rfc_acl v4mask missing denied, allowed, denied)))))))"

subsection \<open>Mode bits, and the check itself\<close>

abbreviation (input) S_IXOTH :: uint32 where "S_IXOTH \<equiv> 0x01"
abbreviation (input) S_IWOTH :: uint32 where "S_IWOTH \<equiv> 0x02"
abbreviation (input) S_IROTH :: uint32 where "S_IROTH \<equiv> 0x04"
abbreviation (input) S_IXGRP :: uint32 where "S_IXGRP \<equiv> 0x08"
abbreviation (input) S_IXUSR :: uint32 where "S_IXUSR \<equiv> 0x40"

definition fsal_check_access_no_acl ::
  "user_cred \<Rightarrow> uint32 \<Rightarrow> uint32 option \<Rightarrow> uint32 option \<Rightarrow> attrlist \<Rightarrow> access_result" where
  "fsal_check_access_no_acl creds access_type allowed denied attrs =
    (let allowed = map_option (\<lambda>_. 0) allowed;
         denied = map_option (\<lambda>_. 0) denied in
     if access_type = 0 then (fsalstat ERR_FSAL_NO_ERROR 0, allowed, denied)
     else
       (let mode = attr_mode attrs in
        if caller_uid creds = 0 then
          (if attr_type attrs = DIRECTORY then
             (fsalstat ERR_FSAL_NO_ERROR 0, map_option (\<lambda>_. access_type) allowed, denied)
           else
             (let rc = (access_type AND FSAL_X_OK = 0 \<or>
                        mode AND (S_IXOTH OR S_IXUSR OR S_IXGRP) \<noteq> 0) in
              if \<not> rc then
                (fsalstat ERR_FSAL_ACCESS 0,
                 map_option (\<lambda>_. access_type AND NOT FSAL_X_OK) allowed,
                 map_option (\<lambda>_. access_type AND FSAL_X_OK) denied)
              else
                (fsalstat ERR_FSAL_NO_ERROR 0, map_option (\<lambda>_. access_type) allowed, denied)))
        else
          (let mode =
                 (if caller_uid creds = attr_owner attrs then drop_bit 6 mode
                  else if caller_gid creds = attr_group attrs then drop_bit 3 mode
                  else if list_ex (\<lambda>g. g = attr_group attrs) (caller_garray creds)
                  then drop_bit 3 mode
                  else mode);
               mask = (if mode AND S_IROTH \<noteq> 0 then FSAL_R_OK else 0) OR
                      (if mode AND S_IWOTH \<noteq> 0 then FSAL_W_OK else 0) OR
                      (if mode AND S_IXOTH \<noteq> 0 then FSAL_X_OK else 0) in
           (if mask AND access_type = access_type then fsalstat ERR_FSAL_NO_ERROR 0
            else fsalstat ERR_FSAL_ACCESS 0,
            map_option (\<lambda>_. mask AND access_type) allowed,
            map_option (\<lambda>_. NOT mask AND access_type) denied))))"

definition fsal_test_access ::
  "bool \<Rightarrow> user_cred \<Rightarrow> fsal_status_t \<times> attrlist \<Rightarrow>
   uint32 \<Rightarrow> uint32 option \<Rightarrow> uint32 option \<Rightarrow> bool \<Rightarrow> access_result" where
  "fsal_test_access rfc_acl creds getattrs access_type allowed denied owner_skip =
    (case getattrs of (status, attrs) \<Rightarrow>
      if FSAL_IS_ERROR status then (status, allowed, denied)
      else if owner_skip \<and> attr_owner attrs = caller_uid creds then
        (fsalstat ERR_FSAL_NO_ERROR 0, allowed, denied)
      else if IS_FSAL_ACE4_REQ access_type \<or>
              (attr_acl attrs \<noteq> None \<and> IS_FSAL_ACE4_MASK_VALID access_type) then
        fsal_check_access_acl rfc_acl creds (FSAL_ACE4_MASK access_type) allowed denied attrs
      else
        fsal_check_access_no_acl creds (FSAL_MODE_MASK access_type) allowed denied attrs)"

subsection \<open>Permission helpers built on the check\<close>

text \<open>
  An object's \<^verbatim>\<open>test_access\<close> method: \<open>fsal_test_access\<close> unless its back end replaces it.
\<close>

type_synonym test_access_method =
  "uint32 \<Rightarrow> uint32 option \<Rightarrow> uint32 option \<Rightarrow> bool \<Rightarrow> access_result"

definition fsal_access ::
  "test_access_method \<Rightarrow> uint32 \<Rightarrow> uint32 option \<Rightarrow> uint32 option \<Rightarrow> access_result" where
  "fsal_access test_access access_type allowed denied =
     test_access access_type allowed denied False"

definition fsal_not_in_group_list :: "user_cred \<Rightarrow> uint32 \<Rightarrow> bool" where
  "fsal_not_in_group_list creds gid \<longleftrightarrow>
     (if caller_gid creds = gid then False
      else if list_ex (\<lambda>g. g = gid) (caller_garray creds) then False
      else True)"

abbreviation (input) FSAL_O_READ :: uint32 where "FSAL_O_READ \<equiv> 0x0001"
abbreviation (input) FSAL_O_WRITE :: uint32 where "FSAL_O_WRITE \<equiv> 0x0002"

definition check_open_permission :: "test_access_method \<Rightarrow> uint32 \<Rightarrow> fsal_status_t \<times> string" where
  "check_open_permission test_access openflags =
    (let access_mask = 0;
         access_mask = (if openflags AND FSAL_O_READ \<noteq> 0
                        then access_mask OR FSAL_READ_ACCESS else access_mask);
         access_mask = (if openflags AND FSAL_O_WRITE \<noteq> 0
                        then access_mask OR FSAL_WRITE_ACCESS else access_mask);
         status = fst (fsal_access test_access access_mask None None) in
     if \<not> FSAL_IS_ERROR status then (status, '''')
     else if major status \<noteq> ERR_FSAL_PERM then (status, ''fsal_access failed - '')
     else if openflags AND FSAL_O_WRITE \<noteq> 0 then
       (status, ''fsal_access failed with WRITE_ACCESS - '')
     else
       (let status = fst (fsal_access test_access FSAL_EXECUTE_ACCESS None None) in
        (status, if \<not> FSAL_IS_ERROR status then ''''
                 else ''fsal_access failed with EXECUTE_ACCESS - '')))"

abbreviation (input) ATTR_SIZE :: uint64 where "ATTR_SIZE \<equiv> 0x04"
abbreviation (input) ATTR_ACL :: uint64 where "ATTR_ACL \<equiv> 0x20"
abbreviation (input) ATTR_MODE :: uint64 where "ATTR_MODE \<equiv> 0x80"
abbreviation (input) ATTR_OWNER :: uint64 where "ATTR_OWNER \<equiv> 0x200"
abbreviation (input) ATTR_GROUP :: uint64 where "ATTR_GROUP \<equiv> 0x400"
abbreviation (input) ATTR_ATIME :: uint64 where "ATTR_ATIME \<equiv> 0x1000"
abbreviation (input) ATTR_MTIME :: uint64 where "ATTR_MTIME \<equiv> 0x8000"
abbreviation (input) ATTR_ATIME_SERVER :: uint64 where "ATTR_ATIME_SERVER \<equiv> 0x200000"
abbreviation (input) ATTR_MTIME_SERVER :: uint64 where "ATTR_MTIME_SERVER \<equiv> 0x400000"

definition FSAL_TEST_MASK :: "uint64 \<Rightarrow> uint64 \<Rightarrow> bool" where
  "FSAL_TEST_MASK attrib_mask attr \<longleftrightarrow> attrib_mask AND attr \<noteq> 0"

text \<open>The attributes a caller asks to set: which ones, and the new owner and group.\<close>

record setattr_request =
  set_mask :: uint64
  set_owner :: uint32
  set_group :: uint32

definition setattr_time_access :: "uint64 \<Rightarrow> uint32 \<Rightarrow> uint32" where
  "setattr_time_access attrib_mask access_check =
     (if (FSAL_TEST_MASK attrib_mask ATTR_MTIME_SERVER \<or> FSAL_TEST_MASK attrib_mask ATTR_ATIME_SERVER)
         \<and> \<not> FSAL_TEST_MASK attrib_mask ATTR_MTIME \<and> \<not> FSAL_TEST_MASK attrib_mask ATTR_ATIME then
        access_check OR FSAL_ACE4_MASK_SET FSAL_ACE_PERM_WRITE_DATA
      else if FSAL_TEST_MASK attrib_mask ATTR_MTIME_SERVER \<or> FSAL_TEST_MASK attrib_mask ATTR_ATIME_SERVER
         \<or> FSAL_TEST_MASK attrib_mask ATTR_MTIME \<or> FSAL_TEST_MASK attrib_mask ATTR_ATIME then
        access_check OR FSAL_ACE4_MASK_SET FSAL_ACE_PERM_WRITE_ATTR
      else access_check)"

definition fsal_check_setattr_perms ::
  "user_cred \<Rightarrow> fsal_status_t \<times> attrlist \<Rightarrow> test_access_method \<Rightarrow> setattr_request \<Rightarrow>
   fsal_status_t" where
  "fsal_check_setattr_perms creds getattrs test_access attr =
    (if caller_uid creds = 0 then fsalstat ERR_FSAL_NO_ERROR 0
     else case getattrs of (status, current) \<Rightarrow>
       if FSAL_IS_ERROR status then status
       else
         (let not_owner = (caller_uid creds \<noteq> attr_owner current) in
          if FSAL_TEST_MASK (set_mask attr) ATTR_OWNER \<and> set_owner attr \<noteq> caller_uid creds then
            fsalstat ERR_FSAL_PERM 0
          else
            (let access_check =
                   (if FSAL_TEST_MASK (set_mask attr) ATTR_OWNER \<and> not_owner
                    then FSAL_ACE4_MASK_SET FSAL_ACE_PERM_WRITE_OWNER else 0) in
             if FSAL_TEST_MASK (set_mask attr) ATTR_GROUP
                \<and> fsal_not_in_group_list creds (set_group attr) then
               fsalstat ERR_FSAL_PERM 0
             else
               (let access_check =
                      (if FSAL_TEST_MASK (set_mask attr) ATTR_GROUP \<and> not_owner
                       then access_check OR FSAL_ACE4_MASK_SET FSAL_ACE_PERM_WRITE_OWNER
                       else access_check) in
                if \<not> not_owner then status
                else
                  (let access_check =
                         (if FSAL_TEST_MASK (set_mask attr) ATTR_MODE
                             \<or> FSAL_TEST_MASK (set_mask attr) ATTR_ACL
                          then access_check OR FSAL_ACE4_MASK_SET FSAL_ACE_PERM_WRITE_ACL
                          else access_check);
                       access_check =
                         (if FSAL_TEST_MASK (set_mask attr) ATTR_SIZE
                          then access_check OR FSAL_ACE4_MASK_SET FSAL_ACE_PERM_WRITE_DATA
                          else access_check);
                       access_check = setattr_time_access (set_mask attr) access_check in
                   if attr_acl current \<noteq> None then
                     fst (test_access access_check None None False)
                   else if access_check \<noteq> FSAL_ACE4_MASK_SET FSAL_ACE_PERM_WRITE_DATA then
                     fsalstat ERR_FSAL_PERM 0
                   else fst (test_access FSAL_W_OK None None False))))))"

definition fsal_remove_access ::
  "test_access_method \<Rightarrow> test_access_method \<Rightarrow> bool \<Rightarrow> fsal_status_t" where
  "fsal_remove_access dir_test rem_test isdir =
    (let fsal_status = fst (dir_test (FSAL_MODE_MASK_SET FSAL_X_OK OR
                              FSAL_ACE4_MASK_SET FSAL_ACE_PERM_EXECUTE) None None False) in
     if FSAL_IS_ERROR fsal_status then fsal_status
     else
       (let del_status = fst (rem_test (FSAL_MODE_MASK_SET FSAL_W_OK OR
              FSAL_ACE4_MASK_SET FSAL_ACE_PERM_DELETE OR FSAL_ACE4_REQ_FLAG) None None False);
            fsal_status = fst (dir_test (FSAL_MODE_MASK_SET FSAL_W_OK OR
              FSAL_ACE4_MASK_SET FSAL_ACE_PERM_DELETE_CHILD OR FSAL_ACE4_REQ_FLAG)
              None None False) in
        if FSAL_IS_ERROR fsal_status \<and> FSAL_IS_ERROR del_status then
          (if major fsal_status \<noteq> ERR_FSAL_NO_ACE then fsal_status
           else if major del_status \<noteq> ERR_FSAL_NO_ACE then del_status
           else
             (let fsal_status = fst (dir_test (FSAL_MODE_MASK_SET FSAL_W_OK OR
                    FSAL_ACE4_MASK_SET (if isdir then FSAL_ACE_PERM_ADD_SUBDIRECTORY
                                        else FSAL_ACE_PERM_ADD_FILE)) None None False) in
              if FSAL_IS_ERROR fsal_status then fsal_status
              else fsalstat ERR_FSAL_NO_ERROR 0))
        else fsalstat ERR_FSAL_NO_ERROR 0))"

definition fsal_rename_access ::
  "test_access_method \<Rightarrow> test_access_method \<Rightarrow> test_access_method \<Rightarrow>
   test_access_method option \<Rightarrow> bool \<Rightarrow> fsal_status_t" where
  "fsal_rename_access src_dir_test src_obj_test dst_dir_test dst_obj_test isdir =
    (let status = fsal_remove_access src_dir_test src_obj_test isdir in
     if FSAL_IS_ERROR status then status
     else
       (let status = (case dst_obj_test of
              None \<Rightarrow> status
            | Some dst_test \<Rightarrow> fsal_remove_access dst_dir_test dst_test isdir) in
        if dst_obj_test \<noteq> None \<and> FSAL_IS_ERROR status then status
        else
          (let access_type = FSAL_MODE_MASK_SET FSAL_W_OK;
               access_type =
                 (if isdir
                  then access_type OR FSAL_ACE4_MASK_SET FSAL_ACE_PERM_ADD_SUBDIRECTORY
                  else access_type OR FSAL_ACE4_MASK_SET FSAL_ACE_PERM_ADD_FILE);
               status = fst (dst_dir_test access_type None None False) in
           if FSAL_IS_ERROR status then status else fsalstat ERR_FSAL_NO_ERROR 0)))"

subsection \<open>Printing an entry\<close>

definition fsal_ace_type :: "uint32 \<Rightarrow> string" where
  "fsal_ace_type type =
     (if type = FSAL_ACE_TYPE_ALLOW then ''A''
      else if type = FSAL_ACE_TYPE_DENY then ''D ''
      else if type = FSAL_ACE_TYPE_AUDIT then ''U''
      else if type = FSAL_ACE_TYPE_ALARM then ''L''
      else ''unknown'')"

text \<open>Both printers append one letter per bit that is set, in the order of the table.\<close>

definition letters :: "(uint32 \<times> char) list \<Rightarrow> uint32 \<Rightarrow> string" where
  "letters tab w = map snd (filter (\<lambda>(b, c). w AND b \<noteq> 0) tab)"

definition fsal_ace_perm :: "uint32 \<Rightarrow> string" where
  "fsal_ace_perm perm = letters
     [(FSAL_ACE_PERM_READ_DATA, CHR ''r''), (FSAL_ACE_PERM_WRITE_DATA, CHR ''w''),
      (FSAL_ACE_PERM_APPEND_DATA, CHR ''a''), (FSAL_ACE_PERM_EXECUTE, CHR ''x''),
      (FSAL_ACE_PERM_DELETE, CHR ''d''), (FSAL_ACE_PERM_DELETE_CHILD, CHR ''D''),
      (FSAL_ACE_PERM_READ_ATTR, CHR ''t''), (FSAL_ACE_PERM_WRITE_ATTR, CHR ''T''),
      (FSAL_ACE_PERM_READ_NAMED_ATTR, CHR ''n''), (FSAL_ACE_PERM_WRITE_NAMED_ATTR, CHR ''N''),
      (FSAL_ACE_PERM_READ_ACL, CHR ''c''), (FSAL_ACE_PERM_WRITE_ACL, CHR ''C''),
      (FSAL_ACE_PERM_WRITE_OWNER, CHR ''o''), (FSAL_ACE_PERM_SYNCHRONIZE, CHR ''y'')] perm"

definition fsal_ace_flag :: "uint32 \<Rightarrow> string" where
  "fsal_ace_flag flag = letters
     [(FSAL_ACE_FLAG_GROUP_ID, CHR ''g''), (FSAL_ACE_FLAG_FILE_INHERIT, CHR ''f''),
      (FSAL_ACE_FLAG_DIR_INHERIT, CHR ''d''), (FSAL_ACE_FLAG_NO_PROPAGATE, CHR ''n''),
      (FSAL_ACE_FLAG_INHERIT_ONLY, CHR ''i''), (FSAL_ACE_FLAG_SUCCESSFUL, CHR ''S''),
      (FSAL_ACE_FLAG_FAILED, CHR ''F''), (FSAL_ACE_FLAG_INHERITED, CHR ''I''),
      (FSAL_ACE_IFLAG_EXCLUDE_FILES, CHR ''x''), (FSAL_ACE_IFLAG_EXCLUDE_DIRS, CHR ''X''),
      (FSAL_ACE_IFLAG_SPECIAL_ID, CHR ''S''), (FSAL_ACE_IFLAG_MODE_GEN, CHR ''G'')] flag"

subsection \<open>The first entry that mentions a right decides it\<close>

text \<open>
  The reference semantics of an access control list (RFC 7530, section 6.2.1): entries are
  read in order, and a right is decided by the first allow or deny entry that applies to the
  caller and mentions it.
\<close>

definition acl_decides :: "(fsal_ace_t \<Rightarrow> bool) \<Rightarrow> fsal_ace_t list \<Rightarrow> nat \<Rightarrow> bool option" where
  "acl_decides applicable aces n =
     map_option IS_FSAL_ACE_ALLOW
       (find (\<lambda>pace. (IS_FSAL_ACE_ALLOW pace \<or> IS_FSAL_ACE_DENY pace) \<and> applicable pace
                     \<and> bit (ace_perm pace) n) aces)"

lemma acl_decides_Nil [simp]: "acl_decides ap [] n = None"
  by (simp add: acl_decides_def)

lemma acl_decides_Cons:
  "acl_decides ap (pace # paces) n =
     (if (IS_FSAL_ACE_ALLOW pace \<or> IS_FSAL_ACE_DENY pace) \<and> ap pace \<and> bit (ace_perm pace) n
      then Some (IS_FSAL_ACE_ALLOW pace) else acl_decides ap paces n)"
  by (auto simp: acl_decides_def)

lemmas uint32_eq_iff = bit_eq_iff [where 'a = "32 word"]

lemma bit32_less: "bit (w :: uint32) n \<Longrightarrow> n < 32"
  using bit_imp_le_length by fastforce

lemma word_zero_iff_bits: "(w :: uint32) = 0 \<longleftrightarrow> (\<forall>n. \<not> bit w n)"
  by (auto simp: uint32_eq_iff dest: bit32_less)

lemma word_subset_iff_bits: "(a :: uint32) AND b = b \<longleftrightarrow> (\<forall>n. bit b n \<longrightarrow> bit a n)"
  by (auto simp: uint32_eq_iff bit_simps dest: bit32_less)

lemma acl_refusal_error: "FSAL_IS_ERROR (acl_refusal rfc w)"
  by (simp add: acl_refusal_def FSAL_IS_ERROR_def fsalstat_def)

lemma fsalstat_error [simp]: "FSAL_IS_ERROR (fsalstat e m) \<longleftrightarrow> e \<noteq> ERR_FSAL_NO_ERROR"
  by (simp add: FSAL_IS_ERROR_def fsalstat_def)

lemma acl_final_ok:
  "\<not> FSAL_IS_ERROR (acl_final_status rfc v4mask missing denied) \<longleftrightarrow>
     missing = 0 \<and> (denied = None \<or> denied = Some 0)"
  by (auto simp: acl_final_status_def acl_refusal_error)

text \<open>What leaving the loop means for the status.\<close>

definition acl_loop_ok ::
  "fsal_status_t option \<times> uint32 \<times> uint32 option \<times> uint32 option \<Rightarrow> bool" where
  "acl_loop_ok r \<longleftrightarrow>
     (case r of (early, missing, _, denied) \<Rightarrow>
        early = None \<and> missing = 0 \<and> (denied = None \<or> denied = Some 0))"

lemma acl_loop_ok_simps [simp]:
  "\<not> acl_loop_ok (Some st, m, a, d)"
  "acl_loop_ok (None, m, a, d) \<longleftrightarrow> m = 0 \<and> (d = None \<or> d = Some 0)"
  by (auto simp: acl_loop_ok_def)

lemma acl_loop_denied:
  assumes "d \<noteq> 0"
  shows "\<not> acl_loop_ok (acl_loop rfc ap root v4mask paces missing allowed (Some d))"
  using assms
proof (induction paces arbitrary: missing allowed d)
  case (Cons pace paces)
  have "d OR (v4mask AND ace_perm pace) \<noteq> 0"
    using Cons.prems by (auto simp: word_zero_iff_bits bit_simps)
  then show ?case
    using Cons by (cases root) (simp_all add: Let_def)
qed simp

text \<open>One step of the evaluation for a caller that is not root: what the entry is to it.\<close>

lemma acl_entry_cases:
  obtains
    (skip) "\<And>allowed denied. acl_loop rfc ap False v4mask (pace # paces) missing allowed denied =
              acl_loop rfc ap False v4mask paces missing allowed denied"
      "\<And>n. bit missing n \<Longrightarrow> acl_decides ap (pace # paces) n = acl_decides ap paces n"
  | (allow) "IS_FSAL_ACE_ALLOW pace" "ap pace"
      "\<And>n. acl_decides ap (pace # paces) n =
         (if bit (ace_perm pace) n then Some True else acl_decides ap paces n)"
  | (deny) "\<not> IS_FSAL_ACE_ALLOW pace" "IS_FSAL_ACE_DENY pace" "ap pace"
      "ace_perm pace AND missing \<noteq> 0"
      "\<And>n. acl_decides ap (pace # paces) n =
         (if bit (ace_perm pace) n then Some False else acl_decides ap paces n)"
proof -
  consider "IS_FSAL_ACE_ALLOW pace" "ap pace"
    | "\<not> IS_FSAL_ACE_ALLOW pace" "IS_FSAL_ACE_DENY pace" "ap pace" "ace_perm pace AND missing \<noteq> 0"
    | "\<not> ((IS_FSAL_ACE_ALLOW pace \<or> IS_FSAL_ACE_DENY pace) \<and> ap pace)
       \<or> \<not> IS_FSAL_ACE_ALLOW pace \<and> ace_perm pace AND missing = 0"
    by blast
  then show thesis
  proof cases
    case 1
    then show thesis using allow by (simp add: acl_decides_Cons)
  next
    case 2
    then show thesis using deny by (simp add: acl_decides_Cons)
  next
    case 3
    then have "bit missing n \<Longrightarrow> acl_decides ap (pace # paces) n = acl_decides ap paces n" for n
      by (auto simp: acl_decides_Cons word_zero_iff_bits bit_simps)
    moreover have "acl_loop rfc ap False v4mask (pace # paces) missing allowed denied =
        acl_loop rfc ap False v4mask paces missing allowed denied" for allowed denied
      using 3 by auto
    ultimately show thesis using skip by blast
  qed
qed

lemma bit_and_not: "bit (w AND NOT (p AND w)) n \<longleftrightarrow> bit w n \<and> \<not> bit p n" for w :: uint32
  by (auto simp: bit_simps dest: bit32_less)

lemma acl_loop_ok_iff:
  assumes "denied = None \<or> denied = Some 0" and "\<forall>n. bit missing n \<longrightarrow> bit v4mask n"
  shows "acl_loop_ok (acl_loop rfc ap False v4mask paces missing allowed denied) \<longleftrightarrow>
         (\<forall>n. bit missing n \<longrightarrow> acl_decides ap paces n = Some True)"
  using assms
proof (induction paces arbitrary: missing allowed)
  case Nil
  then show ?case by (auto simp: word_zero_iff_bits)
next
  case (Cons pace paces)
  let ?m = "missing AND NOT (ace_perm pace AND missing)"
  show ?case
  proof (cases rule: acl_entry_cases [where pace = pace and paces = paces and missing = missing
        and ap = ap and rfc = rfc and v4mask = v4mask])
    case skip
    then show ?thesis using Cons.IH [of missing] Cons.prems by auto
  next
    case allow
    have "(case denied of Some d \<Rightarrow> ace_perm pace AND NOT d | None \<Rightarrow> ace_perm pace) = ace_perm pace"
      using Cons.prems(1) by auto
    then show ?thesis
      using allow Cons.IH [of ?m] Cons.prems bit_and_not [of missing "ace_perm pace"]
      by (cases "?m = 0") (auto simp: Let_def simp del: bit.de_Morgan_conj)
  next
    case deny
    then obtain n where n: "bit missing n" "bit (ace_perm pace) n"
      by (auto simp: word_zero_iff_bits bit_simps)
    then have "v4mask AND ace_perm pace \<noteq> 0"
      using Cons.prems(2) by (auto simp: word_zero_iff_bits bit_simps)
    then have "\<not> acl_loop_ok (acl_loop rfc ap False v4mask (pace # paces) missing allowed denied)"
      using deny(1-4) Cons.prems(1) acl_loop_denied [of "v4mask AND ace_perm pace"]
      by (auto simp: Let_def)
    then show ?thesis using n deny(5) by auto
  qed
qed

text \<open>For root, the loop only looks for an entry that allows what is still missing.\<close>

lemma acl_loop_root:
  assumes "denied = None \<or> denied = Some 0" and "missing \<noteq> 0"
    and "\<And>n m. bit missing n \<Longrightarrow> bit missing m \<Longrightarrow> n = m"
  shows "acl_loop_ok (acl_loop rfc ap True v4mask paces missing allowed denied) \<longleftrightarrow>
         (\<exists>pace \<in> set paces. IS_FSAL_ACE_ALLOW pace \<and> ap pace \<and> ace_perm pace AND missing \<noteq> 0)"
proof (induction paces arbitrary: allowed)
  case Nil
  then show ?case using assms by simp
next
  case (Cons pace paces)
  have t: "(case denied of Some d \<Rightarrow> ace_perm pace AND NOT d | None \<Rightarrow> ace_perm pace) =
           ace_perm pace"
    using assms(1) by auto
  have z: "missing AND NOT (ace_perm pace AND missing) = 0 \<longleftrightarrow> ace_perm pace AND missing \<noteq> 0"
    using assms(2,3) by (auto simp: word_zero_iff_bits bit_simps) (metis bit32_less)
  have s: "ace_perm pace AND missing = 0 \<Longrightarrow> missing AND NOT (ace_perm pace AND missing) = missing"
    by simp
  show ?case
    using assms(1) Cons.IH z s by (auto simp: t Let_def simp del: bit.de_Morgan_conj)
qed

text \<open>
  The rights the evaluation reports as allowed, when it is asked to go on after a refusal.
\<close>

lemma acl_loop_allowed:
  assumes "v4mask AND FSAL_ACE4_PERM_CONTINUE \<noteq> 0"
    and "\<And>k. bit missing k \<Longrightarrow> \<not> bit a k \<and> \<not> bit d k"
    and "bit v4mask n" and "\<not> bit missing n \<Longrightarrow> bit a n \<or> bit d n"
    and "acl_loop rfc ap False v4mask paces missing (Some a) (Some d) = (early, m', a', d')"
  shows "early = None \<and> (bit (the a') n \<longleftrightarrow>
           bit a n \<or> (bit missing n \<and> acl_decides ap paces n = Some True))"
  using assms(2-)
proof (induction paces arbitrary: missing a d)
  case Nil
  then show ?case by auto
next
  case (Cons pace paces)
  let ?p = "ace_perm pace"
  show ?case
  proof (cases rule: acl_entry_cases [where pace = pace and paces = paces and missing = missing
        and ap = ap and rfc = rfc and v4mask = v4mask])
    case skip
    then show ?thesis using Cons.IH [of missing a d] Cons.prems by auto
  next
    case allow
    let ?m = "missing AND NOT (?p AND NOT d AND missing)"
    let ?a = "a OR (v4mask AND (?p AND NOT d))"
    have m: "bit ?m k \<longleftrightarrow> bit missing k \<and> \<not> bit ?p k" for k
      using Cons.prems(1) [of k] by (auto simp: bit_simps dest: bit32_less)
    have a: "bit ?a n \<longleftrightarrow> bit a n \<or> (bit ?p n \<and> \<not> bit d n)"
      using Cons.prems(2) by (auto simp: bit_simps dest: bit32_less)
    have a0: "bit ?m k \<Longrightarrow> \<not> bit ?a k \<and> \<not> bit d k" for k
      using m [of k] Cons.prems(1) [of k] by (auto simp: bit_simps)
    have step: "acl_loop rfc ap False v4mask (pace # paces) missing (Some a) (Some d) =
        (if ?m = 0 then (None, ?m, Some ?a, Some d)
         else acl_loop rfc ap False v4mask paces ?m (Some ?a) (Some d))"
      using allow by (simp add: Let_def ac_simps del: bit.de_Morgan_conj)
    show ?thesis
      using Cons.IH [OF a0 Cons.prems(2)] Cons.prems(1) [of n] Cons.prems(3,4) allow(3) m a step
      by (cases "?m = 0") (auto simp del: bit.de_Morgan_conj acl_loop.simps)
  next
    case deny
    let ?m = "missing AND NOT (?p AND missing)"
    let ?d = "d OR (v4mask AND ?p)"
    note m = bit_and_not [of missing ?p]
    have d: "bit ?d n \<longleftrightarrow> bit d n \<or> bit ?p n"
      using Cons.prems(2) by (auto simp: bit_simps)
    have d0: "bit ?m k \<Longrightarrow> \<not> bit a k \<and> \<not> bit ?d k" for k
      using m [of k] Cons.prems(1) [of k] by (auto simp: bit_simps)
    have step: "acl_loop rfc ap False v4mask (pace # paces) missing (Some a) (Some d) =
        (if ?m = 0 then (None, ?m, Some a, Some ?d)
         else acl_loop rfc ap False v4mask paces ?m (Some a) (Some ?d))"
      using deny assms(1) by (simp add: Let_def del: bit.de_Morgan_conj)
    show ?thesis
      using Cons.IH [OF d0 Cons.prems(2)] Cons.prems(3,4) deny(5) m d step
      by (cases "?m = 0") (auto simp del: bit.de_Morgan_conj acl_loop.simps)
  qed
qed

subsection \<open>The outcome of a check\<close>

definition acl_applies :: "user_cred \<Rightarrow> attrlist \<Rightarrow> fsal_ace_t \<Rightarrow> bool" where
  "acl_applies creds attrs pace =
     fsal_check_ace_applicable pace creds (attr_type attrs = DIRECTORY)
       (fsal_check_ace_owner (attr_owner attrs) creds)
       (fsal_check_ace_group (attr_group attrs) creds) (caller_uid creds = 0)"

text \<open>The rights the caller has: those of an owner, and those the list decides for it.\<close>

definition acl_own :: "user_cred \<Rightarrow> attrlist \<Rightarrow> uint32" where
  "acl_own creds attrs = (if caller_uid creds = attr_owner attrs then owner_rights else 0)"

definition acl_grants :: "user_cred \<Rightarrow> attrlist \<Rightarrow> fsal_ace_t list \<Rightarrow> nat \<Rightarrow> bool" where
  "acl_grants creds attrs aces n \<longleftrightarrow>
     bit (acl_own creds attrs) n \<or> acl_decides (acl_applies creds attrs) aces n = Some True"

lemma loop_status:
  "\<not> FSAL_IS_ERROR (fst (case r of
       (Some status, missing, allowed, denied) \<Rightarrow> (status, allowed, denied)
     | (None, missing, allowed, denied) \<Rightarrow>
         (acl_final_status rfc v4mask missing denied, allowed, denied)))
   \<longleftrightarrow> acl_loop_ok r"
  if "\<And>st m a d. r = (Some st, m, a, d) \<Longrightarrow> FSAL_IS_ERROR st"
  using that by (auto simp: acl_loop_ok_def acl_final_ok split: prod.split option.split)

lemma acl_refusal_weaken:
  "\<exists>r. st = acl_refusal rfc (r AND (missing AND w)) \<Longrightarrow> \<exists>r. st = acl_refusal rfc (r AND missing)"
proof (elim exE)
  fix r assume "st = acl_refusal rfc (r AND (missing AND w))"
  then have "st = acl_refusal rfc ((r AND w) AND missing)" by (simp add: ac_simps)
  then show ?thesis ..
qed

lemma acl_loop_early:
  "acl_loop rfc ap False v4mask paces missing allowed denied = (Some st, m, a, d) \<Longrightarrow>
     \<exists>refused. st = acl_refusal rfc (refused AND missing)"
proof (induction paces arbitrary: missing allowed denied)
  case (Cons pace paces)
  have ih: "acl_loop rfc ap False v4mask paces (missing AND w) allowed denied = (Some st, m, a, d) \<Longrightarrow>
      \<exists>r. st = acl_refusal rfc (r AND missing)" for w allowed denied
    by (rule acl_refusal_weaken) (rule Cons.IH)
  show ?case
  proof (cases rule: acl_entry_cases [where pace = pace and paces = paces and missing = missing
        and ap = ap and rfc = rfc and v4mask = v4mask])
    case skip
    then show ?thesis using Cons by simp
  next
    case allow
    then show ?thesis
      using Cons.prems ih by (simp add: Let_def del: bit.de_Morgan_conj split: if_splits)
  next
    case deny
    then show ?thesis
      using Cons.prems ih by (auto simp: Let_def simp del: bit.de_Morgan_conj split: if_splits)
  qed
qed simp

lemma acl_loop_early_error:
  "acl_loop rfc ap False v4mask paces missing allowed denied = (Some st, m, a, d) \<Longrightarrow>
     FSAL_IS_ERROR st"
  by (drule acl_loop_early) (auto simp: acl_refusal_error)

lemma loop_outcome:
  "\<not> FSAL_IS_ERROR (fst (case acl_loop rfc ap False v4mask aces m a d of
       (Some status, missing, allowed, denied) \<Rightarrow> (status, allowed, denied)
     | (None, missing, allowed, denied) \<Rightarrow>
         (acl_final_status rfc v4mask missing denied, allowed, denied)))
   \<longleftrightarrow> acl_loop_ok (acl_loop rfc ap False v4mask aces m a d)"
  by (rule loop_status) (rule acl_loop_early_error)

lemma bit_minus: "bit (w AND NOT r) n \<longleftrightarrow> bit w n \<and> \<not> bit r n" for w r :: uint32
  by (auto simp: bit_simps dest: bit32_less)

lemma bit_asked: "bit (acl_asked v4mask) n \<Longrightarrow> bit v4mask n"
  unfolding acl_asked_def bit_minus by (rule conjunct1)

text \<open>
  The check of a caller other than root, as one run of the loop on the rights that ownership
  does not already give.
\<close>

lemma acl_check_is_loop:
  assumes "caller_uid creds \<noteq> 0" "attr_acl attrs = Some aces"
    "acl_asked v4mask AND NOT (acl_own creds attrs) \<noteq> 0"
  shows "fsal_check_access_acl rfc creds v4mask allowed denied attrs =
    (case acl_loop rfc (acl_applies creds attrs) False v4mask aces
            (acl_asked v4mask AND NOT (acl_own creds attrs))
            (map_option (\<lambda>_. v4mask AND acl_own creds attrs) allowed) (map_option (\<lambda>_. 0) denied) of
       (Some status, missing, allowed, denied) \<Rightarrow> (status, allowed, denied)
     | (None, missing, allowed, denied) \<Rightarrow>
         (acl_final_status rfc v4mask missing denied, allowed, denied))"
proof -
  have "acl_asked v4mask \<noteq> 0" using assms(3) by auto
  then show ?thesis
    using assms unfolding acl_own_def
    by (cases "caller_uid creds = attr_owner attrs")
      (simp_all add: fsal_check_access_acl_def Let_def acl_applies_def [abs_def]
        fsal_check_ace_owner_def option.map_comp comp_def)
qed

lemma acl_check_nothing_missing:
  assumes "caller_uid creds \<noteq> 0" "attr_acl attrs = Some aces"
    "acl_asked v4mask AND NOT (acl_own creds attrs) = 0"
  shows "fsal_check_access_acl rfc creds v4mask allowed denied attrs =
     (fsalstat ERR_FSAL_NO_ERROR 0,
      map_option (\<lambda>_. if acl_asked v4mask = 0 then 0 else v4mask AND acl_own creds attrs) allowed,
      map_option (\<lambda>_. 0) denied)"
  using assms
  by (auto simp: fsal_check_access_acl_def fsal_check_ace_owner_def acl_own_def Let_def
      option.map_comp comp_def split: if_splits)

lemma zero_pointer:
  "map_option (\<lambda>_. 0) p = None \<or> map_option (\<lambda>_. 0) p = Some (0 :: uint32)"
  by (cases p) simp_all

lemma acl_check_nonroot:
  assumes "caller_uid creds \<noteq> 0" "attr_acl attrs = Some aces"
  shows "\<not> FSAL_IS_ERROR (fst (fsal_check_access_acl rfc creds v4mask allowed denied attrs)) \<longleftrightarrow>
    (\<forall>n. bit (acl_asked v4mask) n \<longrightarrow> acl_grants creds attrs aces n)"
proof (cases "acl_asked v4mask AND NOT (acl_own creds attrs) = 0")
  case True
  then have "bit (acl_asked v4mask) n \<Longrightarrow> bit (acl_own creds attrs) n" for n
    by (metis bit_minus word_zero_iff_bits)
  then show ?thesis
    using acl_check_nothing_missing [OF assms True] by (simp add: acl_grants_def)
next
  case False
  have sub: "\<forall>n. bit (acl_asked v4mask AND NOT (acl_own creds attrs)) n \<longrightarrow> bit v4mask n"
    by (simp add: bit_minus bit_asked)
  show ?thesis
    unfolding acl_check_is_loop [OF assms False] loop_outcome acl_loop_ok_iff [OF zero_pointer sub]
    by (auto simp: acl_grants_def bit_minus)
qed

lemma bit_execute: "bit FSAL_ACE_PERM_EXECUTE n \<longleftrightarrow> n = 5"
  using bit_exp_iff [of 5 n, where 'a = "32 word"] by auto

lemma and_execute:
  "w AND FSAL_ACE_PERM_EXECUTE = 0 \<or> w AND FSAL_ACE_PERM_EXECUTE = FSAL_ACE_PERM_EXECUTE"
  for w :: uint32
  unfolding uint32_eq_iff bit_and_iff bit_execute bit_0_eq by auto

lemma execute_own: "FSAL_ACE_PERM_EXECUTE AND NOT owner_rights = FSAL_ACE_PERM_EXECUTE"
  by (simp add: owner_rights_def)

lemma acl_loop_root_not_early:
  "fst (acl_loop rfc ap True v4mask paces missing allowed denied) = None"
  by (induction paces arbitrary: missing allowed) (auto simp: Let_def)

lemma acl_loop_root_execute:
  "acl_loop_ok (acl_loop rfc ap True v4mask paces FSAL_ACE_PERM_EXECUTE allowed
      (map_option (\<lambda>_. 0) denied)) \<longleftrightarrow>
   (\<exists>pace \<in> set paces. IS_FSAL_ACE_ALLOW pace \<and> ap pace
      \<and> ace_perm pace AND FSAL_ACE_PERM_EXECUTE \<noteq> 0)"
  by (rule acl_loop_root [OF zero_pointer]) (simp, simp only: bit_execute)

lemma acl_check_root_is_loop:
  assumes "caller_uid creds = 0" "attr_acl attrs = Some aces"
  shows "\<not> FSAL_IS_ERROR (fst (fsal_check_access_acl rfc creds v4mask allowed denied attrs)) \<longleftrightarrow>
    attr_type attrs = DIRECTORY \<or> acl_asked v4mask AND FSAL_ACE_PERM_EXECUTE = 0 \<or>
    (\<exists>pace \<in> set aces. IS_FSAL_ACE_ALLOW pace \<and> acl_applies creds attrs pace
       \<and> ace_perm pace AND FSAL_ACE_PERM_EXECUTE \<noteq> 0)"
proof -
  have out: "\<not> FSAL_IS_ERROR (fst (case r of
       (Some status, missing, allowed, denied) \<Rightarrow> (status, allowed, denied)
     | (None, missing, allowed, denied) \<Rightarrow>
         (acl_final_status rfc v4mask missing denied, allowed, denied))) \<longleftrightarrow> acl_loop_ok r"
    if "fst r = None" for r
    using that by (auto simp: acl_loop_ok_def acl_final_ok split: prod.split option.split)
  note out' = out [OF acl_loop_root_not_early]
  show ?thesis
  proof (cases "attr_type attrs = DIRECTORY \<or> acl_asked v4mask AND FSAL_ACE_PERM_EXECUTE = 0")
    case True
    then show ?thesis using assms by (auto simp: fsal_check_access_acl_def Let_def)
  next
    case False
    then have "acl_asked v4mask \<noteq> 0" "acl_asked v4mask AND FSAL_ACE_PERM_EXECUTE = FSAL_ACE_PERM_EXECUTE"
      using and_execute by auto
    then show ?thesis
      using assms False
      by (simp add: fsal_check_access_acl_def Let_def out' acl_applies_def [abs_def] execute_own
          acl_loop_root_execute)
  qed
qed

text \<open>C9: The ACL check of a caller other than root succeeds exactly when every right asked for
  (the continue flag apart) is granted: the caller owns the file and the right is one of the
  four an owner always has, or the first allow or deny entry that applies to the caller and
  mentions the right is an allow entry.  This holds whichever result pointers are given.\<close>

theorem acl_check_first_match:
  assumes "caller_uid creds \<noteq> 0" and "attr_acl attrs = Some aces"
  shows "\<not> FSAL_IS_ERROR (fst (fsal_check_access_acl rfc creds v4mask allowed denied attrs)) \<longleftrightarrow>
    (\<forall>n. bit (acl_asked v4mask) n \<longrightarrow> acl_grants creds attrs aces n)"
  by (rule acl_check_nonroot [OF assms])

text \<open>A file of owner 10 whose list denies writing to user 20, then allows user 20 everything
  up to EXECUTE, and user 20 itself.\<close>

definition wit_creds :: user_cred where
  "wit_creds = \<lparr>caller_uid = 20, caller_gid = 30, caller_garray = [40]\<rparr>"

definition wit_aces :: "fsal_ace_t list" where
  "wit_aces =
     [\<lparr>ace_type = FSAL_ACE_TYPE_DENY, ace_perm = FSAL_ACE_PERM_WRITE_DATA, ace_flag = 0,
       ace_iflag = 0, ace_who = 20\<rparr>,
      \<lparr>ace_type = FSAL_ACE_TYPE_ALLOW, ace_perm = 0x3f, ace_flag = FSAL_ACE_FLAG_GROUP_ID,
       ace_iflag = 0, ace_who = 40\<rparr>]"

definition wit_attrs :: attrlist where
  "wit_attrs = \<lparr>attr_type = REGULAR_FILE, attr_owner = 10, attr_group = 11, attr_mode = 416,
     attr_acl = Some wit_aces\<rparr>"

theorem acl_check_first_match_witness:
  "\<not> FSAL_IS_ERROR (fst (fsal_check_access_acl False wit_creds 0x21 None None wit_attrs)) \<and>
   acl_grants wit_creds wit_attrs wit_aces 0 \<and> acl_grants wit_creds wit_attrs wit_aces 5"
proof -
  have a: "caller_uid wit_creds \<noteq> 0" "attr_acl wit_attrs = Some wit_aces"
    by (simp_all add: wit_creds_def wit_attrs_def)
  have "\<not> FSAL_IS_ERROR (fst (fsal_check_access_acl False wit_creds 0x21 None None wit_attrs))"
    by code_simp
  moreover have "bit (acl_asked 0x21) 0" "bit (acl_asked 0x21) 5"
    by code_simp+
  ultimately show ?thesis
    using acl_check_first_match [OF a, of False "0x21" None None] by blast
qed

text \<open>C30: When the ACL check is asked to go on after a refusal, and given both result pointers,
  it never stops early, and it reports as allowed, among the rights asked for, exactly those
  granted.\<close>

theorem acl_check_reports_granted:
  assumes "caller_uid creds \<noteq> 0" and "attr_acl attrs = Some aces"
    and "v4mask AND FSAL_ACE4_PERM_CONTINUE \<noteq> 0"
    and "fsal_check_access_acl rfc creds v4mask (Some a0) (Some d0) attrs = (status, allowed, denied)"
    and n: "bit (acl_asked v4mask) n"
  shows "bit (the allowed) n \<longleftrightarrow> acl_grants creds attrs aces n"
proof (cases "acl_asked v4mask AND NOT (acl_own creds attrs) = 0")
  case True
  then have "bit (acl_own creds attrs) n"
    using n by (metis bit_minus word_zero_iff_bits)
  then show ?thesis
    using n bit_asked [OF n] assms(4) acl_check_nothing_missing [OF assms(1,2) True]
    by (auto simp: acl_grants_def bit_and_iff)
next
  case False
  let ?m = "acl_asked v4mask AND NOT (acl_own creds attrs)"
  obtain early m' a' d' where loop: "acl_loop rfc (acl_applies creds attrs) False v4mask aces ?m
      (Some (v4mask AND acl_own creds attrs)) (Some 0) = (early, m', a', d')"
    by (metis prod_cases4)
  have "early = None \<and> (bit (the a') n \<longleftrightarrow> bit (v4mask AND acl_own creds attrs) n \<or>
      (bit ?m n \<and> acl_decides (acl_applies creds attrs) aces n = Some True))"
    using assms(3) bit_asked [OF n] n
    by (intro acl_loop_allowed [OF _ _ _ _ loop]) (auto simp: bit_simps dest: bit32_less)
  then show ?thesis
    using assms(4) n bit_asked [OF n] acl_check_is_loop [OF assms(1,2) False] loop
    by (auto simp: acl_grants_def bit_simps dest: bit32_less)
qed

theorem acl_check_reports_granted_witness:
  "bit (the (fst (snd (fsal_check_access_acl False wit_creds 0x40000023 (Some 0) (Some 0)
      wit_attrs)))) 5 \<longleftrightarrow> acl_grants wit_creds wit_attrs wit_aces 5"
proof -
  have a: "caller_uid wit_creds \<noteq> 0" "attr_acl wit_attrs = Some wit_aces"
    "(0x40000023 :: uint32) AND FSAL_ACE4_PERM_CONTINUE \<noteq> 0"
    by (simp_all add: wit_creds_def wit_attrs_def)
  have b: "bit (acl_asked 0x40000023) 5"
    by code_simp
  show ?thesis
    by (rule acl_check_reports_granted [OF a _ b, of False 0 0]) (auto simp: prod_eq_iff)
qed

text \<open>C31: On an object with an ACL, root is granted any request on a directory; on any other
  object root is granted the request exactly when it does not ask for EXECUTE, or some allow
  entry of the list that is not inherit-only or excluded for files gives EXECUTE to anyone.
  Deny entries never bind root.\<close>

theorem acl_check_root:
  assumes "caller_uid creds = 0" and "attr_acl attrs = Some aces"
  shows "\<not> FSAL_IS_ERROR (fst (fsal_check_access_acl rfc creds v4mask allowed denied attrs)) \<longleftrightarrow>
    attr_type attrs = DIRECTORY \<or> acl_asked v4mask AND FSAL_ACE_PERM_EXECUTE = 0 \<or>
    (\<exists>pace \<in> set aces. IS_FSAL_ACE_ALLOW pace \<and> \<not> IS_FSAL_ACE_INHERIT_ONLY pace
       \<and> IS_FSAL_FILE_APPLICABLE pace \<and> ace_perm pace AND FSAL_ACE_PERM_EXECUTE \<noteq> 0)"
  unfolding acl_check_root_is_loop [OF assms]
  using assms(1) by (auto simp: acl_applies_def fsal_check_ace_applicable_def)

theorem acl_check_root_witness:
  "\<not> FSAL_IS_ERROR (fst (fsal_check_access_acl False (wit_creds\<lparr>caller_uid := 0\<rparr>) 0x22
      None None wit_attrs)) \<longleftrightarrow>
   attr_type wit_attrs = DIRECTORY \<or> acl_asked 0x22 AND FSAL_ACE_PERM_EXECUTE = 0 \<or>
   (\<exists>pace \<in> set wit_aces. IS_FSAL_ACE_ALLOW pace \<and> \<not> IS_FSAL_ACE_INHERIT_ONLY pace
      \<and> IS_FSAL_FILE_APPLICABLE pace \<and> ace_perm pace AND FSAL_ACE_PERM_EXECUTE \<noteq> 0)"
  by (rule acl_check_root) (simp_all add: wit_attrs_def)

subsection \<open>Mode bits\<close>

text \<open>How far the mode is shifted: the class of the caller, with the owner class first.\<close>

definition mode_class :: "user_cred \<Rightarrow> attrlist \<Rightarrow> nat" where
  "mode_class creds attrs =
     (if caller_uid creds = attr_owner attrs then 6
      else if caller_gid creds = attr_group attrs
              \<or> attr_group attrs \<in> set (caller_garray creds) then 3
      else 0)"

definition mode_rights :: "uint32 \<Rightarrow> uint32" where
  "mode_rights mode =
     (if mode AND S_IROTH \<noteq> 0 then FSAL_R_OK else 0) OR
     (if mode AND S_IWOTH \<noteq> 0 then FSAL_W_OK else 0) OR
     (if mode AND S_IXOTH \<noteq> 0 then FSAL_X_OK else 0)"

lemma mode_check_nonroot:
  assumes "caller_uid creds \<noteq> 0" "t \<noteq> 0"
  shows "fsal_check_access_no_acl creds t allowed denied attrs =
    (let rights = mode_rights (drop_bit (mode_class creds attrs) (attr_mode attrs)) in
     (if rights AND t = t then fsalstat ERR_FSAL_NO_ERROR 0 else fsalstat ERR_FSAL_ACCESS 0,
      map_option (\<lambda>_. rights AND t) allowed, map_option (\<lambda>_. NOT rights AND t) denied))"
  using assms
  by (auto simp: fsal_check_access_no_acl_def Let_def mode_rights_def mode_class_def list_ex_iff
      option.map_comp comp_def)

lemma bit_pow32: "bit (2 ^ k :: uint32) n \<longleftrightarrow> n = k \<and> k < 32"
  by (auto simp: bit_exp_iff)

lemma and_pow_bit: "w AND 2 ^ k \<noteq> 0 \<longleftrightarrow> bit w k" for w :: uint32
  by (metis and_exp_eq_0_iff_not_bit)

lemma mode_rights_bits:
  "bit (mode_rights m) n \<longleftrightarrow> (n = 26 \<and> bit m 2) \<or> (n = 25 \<and> bit m 1) \<or> (n = 24 \<and> bit m 0)"
proof -
  have "mode_rights m = (if bit m 2 then 2 ^ 26 else 0) OR (if bit m 1 then 2 ^ 25 else 0) OR
     (if bit m 0 then 2 ^ 24 else 0)"
    unfolding mode_rights_def and_pow_bit [symmetric] by simp
  then show ?thesis by (simp add: bit_or_iff bit_pow32 del: power_numeral)
qed

lemma mode_mask_bits: "bit (FSAL_MODE_MASK t) n \<longleftrightarrow> bit t n \<and> n \<in> {24, 25, 26}"
proof -
  have "FSAL_MODE_MASK t = t AND (2 ^ 24 OR 2 ^ 25 OR 2 ^ 26)"
    by (simp add: FSAL_MODE_MASK_def)
  then show ?thesis by (auto simp: bit_or_iff bit_and_iff bit_pow32 simp del: power_numeral)
qed

text \<open>C10: On an object without an ACL, a caller other than root is granted a request exactly when
  each of read, write and execute that is asked for is set in the three mode bits of the
  caller's class, the owner class taking precedence over the group class and that over others.\<close>

theorem mode_check_unix_semantics:
  assumes "caller_uid creds \<noteq> 0" and "attr_acl attrs = None" and "\<not> IS_FSAL_ACE4_REQ access"
  shows "\<not> FSAL_IS_ERROR (fst (fsal_test_access rfc creds (fsalstat ERR_FSAL_NO_ERROR 0, attrs)
            access allowed denied False)) \<longleftrightarrow>
    (bit access 26 \<longrightarrow> bit (attr_mode attrs) (mode_class creds attrs + 2)) \<and>
    (bit access 25 \<longrightarrow> bit (attr_mode attrs) (mode_class creds attrs + 1)) \<and>
    (bit access 24 \<longrightarrow> bit (attr_mode attrs) (mode_class creds attrs))"
    (is "?ok \<longleftrightarrow> ?bits")
proof -
  let ?m = "drop_bit (mode_class creds attrs) (attr_mode attrs)"
  have test: "fsal_test_access rfc creds (fsalstat ERR_FSAL_NO_ERROR 0, attrs) access allowed
      denied False = fsal_check_access_no_acl creds (FSAL_MODE_MASK access) allowed denied attrs"
    using assms by (simp add: fsal_test_access_def)
  have "?ok \<longleftrightarrow> FSAL_MODE_MASK access = 0 \<or>
      mode_rights ?m AND FSAL_MODE_MASK access = FSAL_MODE_MASK access"
    using mode_check_nonroot [OF assms(1), of "FSAL_MODE_MASK access" allowed denied attrs]
    by (cases "FSAL_MODE_MASK access = 0") (simp_all add: test fsal_check_access_no_acl_def Let_def)
  also have "\<dots> \<longleftrightarrow> (\<forall>n. bit (FSAL_MODE_MASK access) n \<longrightarrow> bit (mode_rights ?m) n)"
    by (auto simp: word_subset_iff_bits)
  also have "\<dots> \<longleftrightarrow> ?bits"
    by (auto simp: mode_mask_bits mode_rights_bits bit_drop_bit_eq add.commute)
  finally show ?thesis .
qed

theorem mode_check_unix_semantics_witness:
  "\<not> FSAL_IS_ERROR (fst (fsal_test_access False wit_creds
       (fsalstat ERR_FSAL_NO_ERROR 0, wit_attrs\<lparr>attr_acl := None, attr_group := 40\<rparr>)
       FSAL_READ_ACCESS None None False)) \<and>
   bit (attr_mode wit_attrs) 5"
proof -
  let ?attrs = "wit_attrs\<lparr>attr_acl := None, attr_group := 40\<rparr>"
  have a: "caller_uid wit_creds \<noteq> 0" "attr_acl ?attrs = None" "\<not> IS_FSAL_ACE4_REQ FSAL_READ_ACCESS"
    by (simp_all add: wit_creds_def IS_FSAL_ACE4_REQ_def FSAL_READ_ACCESS_def
        FSAL_MODE_MASK_SET_def FSAL_ACE4_MASK_SET_def)
  have "\<not> FSAL_IS_ERROR (fst (fsal_test_access False wit_creds
       (fsalstat ERR_FSAL_NO_ERROR 0, ?attrs) FSAL_READ_ACCESS None None False))"
    "bit FSAL_READ_ACCESS 26" "mode_class wit_creds ?attrs = 3"
    by code_simp+
  then show ?thesis
    using mode_check_unix_semantics [OF a, of False None None] by (simp add: wit_attrs_def)
qed

lemma split_request:
  "r AND t = t \<longleftrightarrow> NOT r AND t = 0" "(r AND t) OR (NOT r AND t) = t" "(r AND t) AND (NOT r AND t) = 0"
  for r t :: uint32
  by (auto simp: uint32_eq_iff bit_simps)

lemma split_execute:
  "(t AND NOT FSAL_X_OK) OR (t AND FSAL_X_OK) = t" "(t AND NOT FSAL_X_OK) AND (t AND FSAL_X_OK) = 0"
  for t :: uint32
  using split_request(2,3) [of "NOT FSAL_X_OK" t] by (simp_all add: and.commute)

lemma access_status:
  assumes "X = (if b then fsalstat ERR_FSAL_NO_ERROR 0 else fsalstat ERR_FSAL_ACCESS 0, p, q)"
    and "b \<longleftrightarrow> c"
  shows "\<exists>st. X = (st, p, q) \<and> (FSAL_IS_ERROR st \<longleftrightarrow> \<not> c) \<and>
    major st \<in> {ERR_FSAL_NO_ERROR, ERR_FSAL_ACCESS}"
  using assms by (simp add: fsalstat_def FSAL_IS_ERROR_def)

text \<open>C32: The mode check splits the request: what it reports as allowed and as denied are disjoint
  and together are the request, it succeeds exactly when nothing is denied, and a refusal is
  always ACCESS, for root and for any other caller.\<close>

theorem mode_check_splits_request:
  "\<exists>st a d. fsal_check_access_no_acl creds t (Some a0) (Some d0) attrs = (st, Some a, Some d) \<and>
     a OR d = t \<and> a AND d = 0 \<and> (FSAL_IS_ERROR st \<longleftrightarrow> d \<noteq> 0) \<and>
     major st \<in> {ERR_FSAL_NO_ERROR, ERR_FSAL_ACCESS}"
proof (cases "caller_uid creds \<noteq> 0 \<and> t \<noteq> 0")
  case True
  define r where "r = mode_rights (drop_bit (mode_class creds attrs) (attr_mode attrs))"
  have "fsal_check_access_no_acl creds t (Some a0) (Some d0) attrs =
    (if r AND t = t then fsalstat ERR_FSAL_NO_ERROR 0 else fsalstat ERR_FSAL_ACCESS 0,
      Some (r AND t), Some (NOT r AND t))"
    using True by (simp add: mode_check_nonroot r_def Let_def)
  from access_status [OF this split_request(1)]
  obtain st where "fsal_check_access_no_acl creds t (Some a0) (Some d0) attrs =
      (st, Some (r AND t), Some (NOT r AND t))" "FSAL_IS_ERROR st \<longleftrightarrow> NOT r AND t \<noteq> 0"
      "major st \<in> {ERR_FSAL_NO_ERROR, ERR_FSAL_ACCESS}" by blast
  then show ?thesis
    by (intro exI conjI) (assumption | rule split_request)+
next
  case False
  define x y where "x = (t AND FSAL_X_OK)" and "y = (t AND NOT FSAL_X_OK)"
  define refused where "refused \<longleftrightarrow> attr_type attrs \<noteq> DIRECTORY \<and> x \<noteq> 0
      \<and> attr_mode attrs AND (S_IXOTH OR S_IXUSR OR S_IXGRP) = 0"
  have "fsal_check_access_no_acl creds t (Some a0) (Some d0) attrs =
    (if t \<noteq> 0 \<and> refused then (fsalstat ERR_FSAL_ACCESS 0, Some y, Some x)
     else (fsalstat ERR_FSAL_NO_ERROR 0, Some t, Some 0))"
  proof (cases "t = 0")
    case True
    then show ?thesis by (simp add: fsal_check_access_no_acl_def)
  next
    case t: False
    then have "caller_uid creds = 0" using False by simp
    then show ?thesis using t by (simp add: fsal_check_access_no_acl_def Let_def refused_def x_def y_def)
  qed
  moreover have "refused \<Longrightarrow> x \<noteq> 0" by (simp add: refused_def)
  moreover have "y OR x = t" "y AND x = 0"
    unfolding x_def y_def by (rule split_execute)+
  ultimately show ?thesis
    by (cases "t \<noteq> 0 \<and> refused") (simp_all add: fsalstat_def FSAL_IS_ERROR_def)
qed

subsection \<open>Opening a file\<close>

text \<open>
  What \<open>check_open_permission\<close> relies on, as the contract of an object's access method: a
  request that asks for none of the three attribute rights is never refused with PERM.
\<close>

locale plain_refusals =
  fixes test_access :: test_access_method
  assumes not_perm: "FSAL_ACE4_MASK t AND eperm_rights = 0 \<Longrightarrow>
    major (fst (test_access t None None False)) \<noteq> ERR_FSAL_PERM"
begin

lemma open_is_one_check:
  "fst (check_open_permission test_access openflags) =
     fst (fsal_access test_access
       ((if openflags AND FSAL_O_READ \<noteq> 0 then FSAL_READ_ACCESS else 0) OR
        (if openflags AND FSAL_O_WRITE \<noteq> 0 then FSAL_WRITE_ACCESS else 0)) None None)"
proof -
  have "FSAL_ACE4_MASK ((if r then FSAL_READ_ACCESS else 0) OR
      (if w then FSAL_WRITE_ACCESS else 0)) AND eperm_rights = 0" for r w
    by (simp add: FSAL_ACE4_MASK_def FSAL_READ_ACCESS_def FSAL_WRITE_ACCESS_def eperm_rights_def
        FSAL_MODE_MASK_SET_def FSAL_ACE4_MASK_SET_def)
  from not_perm [OF this, of "openflags AND FSAL_O_READ \<noteq> 0" "openflags AND FSAL_O_WRITE \<noteq> 0"]
  show ?thesis
    by (auto simp: check_open_permission_def Let_def fsal_access_def)
qed

end

definition plain_loop_result ::
  "fsal_status_t option \<times> uint32 \<times> uint32 option \<times> uint32 option \<Rightarrow> bool" where
  "plain_loop_result r \<longleftrightarrow>
     (case r of (Some st, _) \<Rightarrow> st = fsalstat ERR_FSAL_ACCESS 0
      | (None, missing, _) \<Rightarrow> missing AND eperm_rights = 0)"

lemma plain_loop_result_simps [simp]:
  "plain_loop_result (Some st, m, a, d) \<longleftrightarrow> st = fsalstat ERR_FSAL_ACCESS 0"
  "plain_loop_result (None, m, a, d) \<longleftrightarrow> m AND eperm_rights = 0"
  by (simp_all add: plain_loop_result_def)

lemma and_zero_mono: "m AND e = 0 \<Longrightarrow> (m AND w) AND e = 0" "m AND e = 0 \<Longrightarrow> (w AND m) AND e = 0"
  for m e w :: uint32
  by (simp_all add: and.assoc and.left_commute [of m w e])

lemma acl_loop_plain:
  assumes "missing AND eperm_rights = 0"
  shows "plain_loop_result (acl_loop rfc ap root v4mask paces missing allowed denied)"
  using assms
proof (induction paces arbitrary: missing allowed denied)
  case (Cons pace paces)
  have "acl_refusal rfc (ace_perm pace AND missing) = fsalstat ERR_FSAL_ACCESS 0"
    using and_zero_mono(2) [OF Cons.prems] by (simp add: acl_refusal_def)
  then show ?case
    using Cons.IH [OF Cons.prems] Cons.IH [OF and_zero_mono(1) [OF Cons.prems]]
    by (cases root) (simp_all add: Let_def del: bit.de_Morgan_conj)
qed simp

lemma acl_final_plain:
  "missing AND eperm_rights = 0 \<Longrightarrow>
     major (acl_final_status rfc v4mask missing denied) \<noteq> ERR_FSAL_PERM"
  by (auto simp: acl_final_status_def acl_refusal_def fsalstat_def)

lemma acl_check_plain:
  assumes "acl_asked v4mask AND eperm_rights = 0"
  shows "major (fst (fsal_check_access_acl rfc creds v4mask allowed denied attrs)) \<noteq> ERR_FSAL_PERM"
proof -
  have out: "major (fst (case r of
       (Some status, missing, allowed, denied) \<Rightarrow> (status, allowed, denied)
     | (None, missing, allowed, denied) \<Rightarrow>
         (acl_final_status rfc v4mask missing denied, allowed, denied))) \<noteq> ERR_FSAL_PERM"
    if "plain_loop_result r" for r
    using that acl_final_plain
    by (auto simp: plain_loop_result_def fsalstat_def split: prod.splits option.splits)
  note loop = out [OF acl_loop_plain [OF assms]]
    out [OF acl_loop_plain [OF and_zero_mono(1) [OF assms]]]
    out [OF acl_loop_plain [OF and_zero_mono(1) [OF and_zero_mono(1) [OF assms]]]]
  show ?thesis
    by (cases "attr_acl attrs"; cases "caller_uid creds = 0";
        cases "fsal_check_ace_owner (attr_owner attrs) creds")
      (simp_all add: fsal_check_access_acl_def Let_def loop fsalstat_def [of _ 0])
qed

lemma asked_plain: "v4mask AND eperm_rights = 0 \<Longrightarrow> acl_asked v4mask AND eperm_rights = 0"
  by (simp add: acl_asked_def and_zero_mono del: bit.de_Morgan_conj)

lemma mode_check_plain:
  "major (fst (fsal_check_access_no_acl creds t None None attrs)) \<noteq> ERR_FSAL_PERM"
proof (cases "caller_uid creds \<noteq> 0 \<and> t \<noteq> 0")
  case True
  then show ?thesis by (simp add: mode_check_nonroot Let_def fsalstat_def)
next
  case False
  then consider "t = 0" | "caller_uid creds = 0" by blast
  then show ?thesis
    by cases (simp_all add: fsal_check_access_no_acl_def Let_def fsalstat_def)
qed

interpretation default_access: plain_refusals
  "fsal_test_access rfc creds (fsalstat ERR_FSAL_NO_ERROR 0, attrs)" for rfc creds attrs
proof
  fix t :: uint32
  assume "FSAL_ACE4_MASK t AND eperm_rights = 0"
  then show "major (fst (fsal_test_access rfc creds (fsalstat ERR_FSAL_NO_ERROR 0, attrs)
      t None None False)) \<noteq> ERR_FSAL_PERM"
    using acl_check_plain [OF asked_plain] mode_check_plain
    by (simp add: fsal_test_access_def)
qed

text \<open>C33: With the default access method, permission to open a file is the result of the one
  check of the read and write rights the open flags ask for.  The retry with execute
  permission, meant for a file that may be executed and not read, changes nothing, because a
  refusal of read permission is ACCESS and the retry is made on PERM only.\<close>

theorem open_permission_is_one_check:
  "fst (check_open_permission
          (fsal_test_access rfc creds (fsalstat ERR_FSAL_NO_ERROR 0, attrs)) openflags) =
     fst (fsal_access (fsal_test_access rfc creds (fsalstat ERR_FSAL_NO_ERROR 0, attrs))
       ((if openflags AND FSAL_O_READ \<noteq> 0 then FSAL_READ_ACCESS else 0) OR
        (if openflags AND FSAL_O_WRITE \<noteq> 0 then FSAL_WRITE_ACCESS else 0)) None None)"
  by (rule default_access.open_is_one_check)

subsection \<open>Removing an entry\<close>

lemma required_never_met:
  assumes "caller_uid creds \<noteq> 0" "IS_FSAL_ACE4_REQ t"
    and "\<And>aces pace. attr_acl attrs = Some aces \<Longrightarrow> pace \<in> set aces \<Longrightarrow> \<not> bit (ace_perm pace) 28"
  shows "FSAL_IS_ERROR (fst (fsal_test_access rfc creds (fsalstat ERR_FSAL_NO_ERROR 0, attrs)
           t allowed denied False))"
proof (cases "attr_acl attrs")
  case None
  then show ?thesis
    using assms(2) by (simp add: fsal_test_access_def fsal_check_access_acl_def Let_def)
next
  case (Some aces)
  have "\<not> acl_grants creds attrs aces 28"
    using assms(3) [OF Some]
    by (auto simp: acl_grants_def acl_own_def owner_rights_def acl_decides_def find_Some_iff)
  moreover have "bit (acl_asked (FSAL_ACE4_MASK t)) 28"
  proof -
    have "bit t 28" using assms(2) and_pow_bit [of t 28] by (simp add: IS_FSAL_ACE4_REQ_def)
    then show ?thesis
      by (simp add: acl_asked_def FSAL_ACE4_MASK_def bit_and_iff)
  qed
  ultimately show ?thesis
    using acl_check_nonroot [OF assms(1) Some, of rfc "FSAL_ACE4_MASK t" allowed denied] assms(2)
    by (auto simp: fsal_test_access_def)
qed


text \<open>A directory and an entry whose lists give user 20 EXECUTE and DELETE_CHILD, and DELETE.\<close>

definition wit_allow :: "object_file_type_t \<Rightarrow> uint32 \<Rightarrow> attrlist" where
  "wit_allow type perm = wit_attrs\<lparr>attr_type := type, attr_acl :=
     Some [\<lparr>ace_type = FSAL_ACE_TYPE_ALLOW, ace_perm = perm, ace_flag = 0, ace_iflag = 0,
            ace_who = 20\<rparr>]\<rparr>"


subsection \<open>Setting attributes\<close>

text \<open>The rights a caller who does not own the file needs for a request.\<close>

definition setattr_access :: "uint64 \<Rightarrow> uint32" where
  "setattr_access attrib_mask =
    (let access_check = (if FSAL_TEST_MASK attrib_mask ATTR_OWNER
           then FSAL_ACE4_MASK_SET FSAL_ACE_PERM_WRITE_OWNER else 0);
         access_check = (if FSAL_TEST_MASK attrib_mask ATTR_GROUP
           then access_check OR FSAL_ACE4_MASK_SET FSAL_ACE_PERM_WRITE_OWNER else access_check);
         access_check = (if FSAL_TEST_MASK attrib_mask ATTR_MODE \<or> FSAL_TEST_MASK attrib_mask ATTR_ACL
           then access_check OR FSAL_ACE4_MASK_SET FSAL_ACE_PERM_WRITE_ACL else access_check);
         access_check = (if FSAL_TEST_MASK attrib_mask ATTR_SIZE
           then access_check OR FSAL_ACE4_MASK_SET FSAL_ACE_PERM_WRITE_DATA else access_check)
     in setattr_time_access attrib_mask access_check)"

lemma setattr_nonowner:
  assumes "caller_uid creds \<noteq> 0" "caller_uid creds \<noteq> attr_owner attrs"
    and "\<not> FSAL_IS_ERROR (fsal_check_setattr_perms creds (fsalstat ERR_FSAL_NO_ERROR 0, attrs) test req)"
  shows "(\<exists>aces. attr_acl attrs = Some aces
           \<and> \<not> FSAL_IS_ERROR (fst (test (setattr_access (set_mask req)) None None False))) \<or>
    setattr_access (set_mask req) = FSAL_ACE4_MASK_SET FSAL_ACE_PERM_WRITE_DATA"
proof -
  have "fsal_check_setattr_perms creds (fsalstat ERR_FSAL_NO_ERROR 0, attrs) test req =
    (if FSAL_TEST_MASK (set_mask req) ATTR_OWNER \<and> set_owner req \<noteq> caller_uid creds
        \<or> FSAL_TEST_MASK (set_mask req) ATTR_GROUP \<and> fsal_not_in_group_list creds (set_group req)
     then fsalstat ERR_FSAL_PERM 0
     else if attr_acl attrs \<noteq> None then fst (test (setattr_access (set_mask req)) None None False)
     else if setattr_access (set_mask req) \<noteq> FSAL_ACE4_MASK_SET FSAL_ACE_PERM_WRITE_DATA
     then fsalstat ERR_FSAL_PERM 0 else fst (test FSAL_W_OK None None False))"
    using assms(1,2) unfolding fsal_check_setattr_perms_def setattr_access_def Let_def
    by (simp only: fsalstat_error) simp
  then show ?thesis using assms(3) by (auto split: if_splits)
qed

lemma mask_set_bits:
  "bit (FSAL_ACE4_MASK_SET w) n \<longleftrightarrow> bit w n \<or> n = 31"
proof -
  have "FSAL_ACE4_MASK_SET w = w OR 2 ^ 31" by (simp add: FSAL_ACE4_MASK_SET_def)
  then show ?thesis by (simp add: bit_or_iff bit_pow32 del: power_numeral)
qed

lemma time_access_bits: "bit w n \<Longrightarrow> bit (setattr_time_access attrib_mask w) n"
  by (simp add: setattr_time_access_def bit_or_iff)

lemma setattr_access_bits:
  "FSAL_TEST_MASK m ATTR_OWNER \<or> FSAL_TEST_MASK m ATTR_GROUP \<Longrightarrow>
     bit (setattr_access m) 19 \<and> bit (setattr_access m) 31"
  "FSAL_TEST_MASK m ATTR_MODE \<or> FSAL_TEST_MASK m ATTR_ACL \<Longrightarrow>
     bit (setattr_access m) 18 \<and> bit (setattr_access m) 31"
  unfolding setattr_access_def Let_def
  by (auto intro!: time_access_bits simp: bit_or_iff mask_set_bits)

lemma ace4_mask_bits: "n < 24 \<Longrightarrow> bit (acl_asked (FSAL_ACE4_MASK t)) n \<longleftrightarrow> bit t n"
proof -
  assume n: "n < 24"
  have "acl_asked (FSAL_ACE4_MASK t) = (t AND (mask 24 OR 2 ^ 28 OR 2 ^ 30)) AND NOT (2 ^ 30)"
    by (simp add: acl_asked_def FSAL_ACE4_MASK_def mask_eq_exp_minus_1)
  then show ?thesis
    using n by (simp add: bit_and_iff bit_or_iff bit_not_iff bit_mask_iff bit_pow32 del: power_numeral)
qed

lemma setattr_refused:
  assumes "caller_uid creds \<noteq> 0" and
    "FSAL_TEST_MASK (set_mask req) ATTR_OWNER \<and> set_owner req \<noteq> caller_uid creds \<or>
     FSAL_TEST_MASK (set_mask req) ATTR_GROUP \<and> fsal_not_in_group_list creds (set_group req)"
  shows "fsal_check_setattr_perms creds (fsalstat ERR_FSAL_NO_ERROR 0, attrs) test req =
    fsalstat ERR_FSAL_PERM 0"
  using assms unfolding fsal_check_setattr_perms_def Let_def
  by (elim disjE) (simp_all only: fsalstat_error simp_thms if_True if_False prod.case if_cancel)

lemma not_in_group_iff:
  "fsal_not_in_group_list creds gid \<longleftrightarrow> gid \<notin> insert (caller_gid creds) (set (caller_garray creds))"
  by (auto simp: fsal_not_in_group_list_def list_ex_iff)

lemma granted_right:
  assumes "caller_uid creds \<noteq> 0" "attr_acl attrs = Some aces" "bit t n" "bit t 31" "n < 24"
    and "\<not> FSAL_IS_ERROR (fst (fsal_test_access rfc creds (fsalstat ERR_FSAL_NO_ERROR 0, attrs)
           t None None False))"
  shows "acl_grants creds attrs aces n"
proof -
  have "IS_FSAL_ACE4_MASK_VALID t"
  proof -
    have "t AND 2 ^ 31 = 2 ^ 31"
      unfolding word_subset_iff_bits bit_pow32 using assms(4) by simp
    then show ?thesis by (simp add: IS_FSAL_ACE4_MASK_VALID_def)
  qed
  moreover have "bit (acl_asked (FSAL_ACE4_MASK t)) n"
    using assms(3,5) by (simp add: ace4_mask_bits)
  ultimately show ?thesis
    using assms acl_check_nonroot [OF assms(1,2), of rfc "FSAL_ACE4_MASK t" None None]
    by (simp add: fsal_test_access_def)
qed

text \<open>C11: When the permission check for setting attributes succeeds for a caller other than root,
  a new owner can only be the caller, a new group can only be one of the caller's, and a caller
  who does not own the file changes owner or group, mode or ACL, only if the file has an ACL
  that grants WRITE_OWNER, respectively WRITE_ACL, to it.\<close>

theorem setattr_authorised:
  assumes "caller_uid creds \<noteq> 0"
    and "\<not> FSAL_IS_ERROR (fsal_check_setattr_perms creds (fsalstat ERR_FSAL_NO_ERROR 0, attrs)
           (fsal_test_access rfc creds (fsalstat ERR_FSAL_NO_ERROR 0, attrs)) req)"
  shows "(FSAL_TEST_MASK (set_mask req) ATTR_OWNER \<longrightarrow> set_owner req = caller_uid creds) \<and>
    (FSAL_TEST_MASK (set_mask req) ATTR_GROUP \<longrightarrow>
       set_group req \<in> insert (caller_gid creds) (set (caller_garray creds))) \<and>
    (caller_uid creds \<noteq> attr_owner attrs \<longrightarrow>
       (FSAL_TEST_MASK (set_mask req) ATTR_OWNER \<or> FSAL_TEST_MASK (set_mask req) ATTR_GROUP \<longrightarrow>
          (\<exists>aces. attr_acl attrs = Some aces \<and> acl_grants creds attrs aces 19)) \<and>
       (FSAL_TEST_MASK (set_mask req) ATTR_MODE \<or> FSAL_TEST_MASK (set_mask req) ATTR_ACL \<longrightarrow>
          (\<exists>aces. attr_acl attrs = Some aces \<and> acl_grants creds attrs aces 18)))"
proof -
  let ?m = "set_mask req"
  have noacl: "setattr_access ?m \<noteq> FSAL_ACE4_MASK_SET FSAL_ACE_PERM_WRITE_DATA"
    if "bit (setattr_access ?m) n" "n = 18 \<or> n = 19" for n
    using that by (auto simp: mask_set_bits)
  have "\<exists>aces. attr_acl attrs = Some aces \<and> acl_grants creds attrs aces n"
    if "caller_uid creds \<noteq> attr_owner attrs" "bit (setattr_access ?m) n \<and> bit (setattr_access ?m) 31"
      "n = 18 \<or> n = 19" for n
    using setattr_nonowner [OF assms(1) that(1) assms(2)] noacl that granted_right [OF assms(1)]
    by fastforce
  then have "caller_uid creds \<noteq> attr_owner attrs \<longrightarrow>
       (FSAL_TEST_MASK (set_mask req) ATTR_OWNER \<or> FSAL_TEST_MASK (set_mask req) ATTR_GROUP \<longrightarrow>
          (\<exists>aces. attr_acl attrs = Some aces \<and> acl_grants creds attrs aces 19)) \<and>
       (FSAL_TEST_MASK (set_mask req) ATTR_MODE \<or> FSAL_TEST_MASK (set_mask req) ATTR_ACL \<longrightarrow>
          (\<exists>aces. attr_acl attrs = Some aces \<and> acl_grants creds attrs aces 18))"
    using setattr_access_bits by blast
  moreover have "(FSAL_TEST_MASK (set_mask req) ATTR_OWNER \<longrightarrow> set_owner req = caller_uid creds) \<and>
    (FSAL_TEST_MASK (set_mask req) ATTR_GROUP \<longrightarrow>
       set_group req \<in> insert (caller_gid creds) (set (caller_garray creds)))"
    using assms(2) setattr_refused [OF assms(1), of req attrs] not_in_group_iff
    by (metis fsalstat_error fsal_errors_t.distinct(1))
  ultimately show ?thesis by blast
qed

theorem setattr_authorised_witness:
  "\<not> FSAL_IS_ERROR (fsal_check_setattr_perms wit_creds
       (fsalstat ERR_FSAL_NO_ERROR 0, wit_allow REGULAR_FILE 0xC0000)
       (fsal_test_access False wit_creds (fsalstat ERR_FSAL_NO_ERROR 0, wit_allow REGULAR_FILE 0xC0000))
       \<lparr>set_mask = 0x680, set_owner = 20, set_group = 40\<rparr>) \<and>
   acl_grants wit_creds (wit_allow REGULAR_FILE 0xC0000)
     (the (attr_acl (wit_allow REGULAR_FILE 0xC0000))) 19"
proof -
  let ?g = "(fsalstat ERR_FSAL_NO_ERROR 0, wit_allow REGULAR_FILE 0xC0000)"
  let ?req = "\<lparr>set_mask = 0x680, set_owner = 20, set_group = 40\<rparr>"
  have 1: "\<not> FSAL_IS_ERROR (fsal_check_setattr_perms wit_creds ?g
      (fsal_test_access False wit_creds ?g) ?req)"
    by code_simp
  have "caller_uid wit_creds \<noteq> 0" "caller_uid wit_creds \<noteq> attr_owner (wit_allow REGULAR_FILE 0xC0000)"
    "FSAL_TEST_MASK (set_mask ?req) ATTR_OWNER"
    by code_simp+
  then show ?thesis
    using setattr_authorised [OF _ 1] 1 by auto
qed

subsection \<open>Printing an entry\<close>

lemma letters_length: "length (letters tab w) \<le> length tab"
  by (simp add: letters_def)


end
