(* ===== verification/Lock_Owner.thy ===== *)
theory Lock_Owner
  imports Ganesha_Prelude
begin

text \<open>
  Lock owners and when two of them are the same: \<^verbatim>\<open>different_owners\<close> of
  \<^verbatim>\<open>SAL/state_misc.c\<close> and the comparison functions it calls in \<^verbatim>\<open>SAL/nlm_owner.c\<close>,
  \<^verbatim>\<open>SAL/nfs4_owner.c\<close>, \<^verbatim>\<open>SAL/9p_owner.c\<close> and \<^verbatim>\<open>RPCAL/rpc_tools.c\<close>.

  A pointer to an owner, an NLM client or an NSM client is an address, \<open>None\<close> the null
  pointer, and the memory the comparisons read is the record \<open>owner_env\<close>, with the
  configuration switch \<^verbatim>\<open>nsm_use_caller_name\<close>.  A comparison function returns whether
  its arguments differ; the C functions return an integer that is zero exactly if they do not.
  A name and its length are one list of bytes.
\<close>

subsection \<open>Owners\<close>

datatype state_owner_type_t =
    STATE_LOCK_OWNER_UNKNOWN | STATE_LOCK_OWNER_NLM | STATE_LOCK_OWNER_9P
  | STATE_OPEN_OWNER_NFSV4 | STATE_LOCK_OWNER_NFSV4 | STATE_CLIENTID_OWNER_NFSV4

datatype sockaddr_t =
    AF_INET "32 word" "16 word"
  | AF_INET6 "128 word" "16 word"
  | AF_OTHER "16 word"

record state_nsm_client_t =
  ssc_client :: nat
  ssc_nlm_caller_name :: "byte list"

record state_nlm_client_t =
  slc_nsm_client :: "nat option"
  slc_client_type :: nat
  slc_server_addr :: sockaddr_t
  slc_nlm_caller_name :: "byte list"

text \<open>The union of the protocol specific parts, by the type of owner.\<close>

datatype so_owner_t =
    So_nfs4 uint64
  | So_nlm "nat option" "32 word"
  | So_9p "32 word" sockaddr_t
  | So_unknown

record state_owner_t =
  so_type :: state_owner_type_t
  so_owner_val :: "byte list"
  so_owner :: so_owner_t

record owner_env =
  owners :: "nat \<Rightarrow> state_owner_t"
  nlm_clients :: "nat \<Rightarrow> state_nlm_client_t"
  nsm_clients :: "nat \<Rightarrow> state_nsm_client_t"
  nsm_use_caller_name :: bool

definition so_clientid :: "state_owner_t \<Rightarrow> uint64" where
  "so_clientid ow = (case so_owner ow of So_nfs4 c \<Rightarrow> c | _ \<Rightarrow> 0)"

definition so_client :: "state_owner_t \<Rightarrow> nat option" where
  "so_client ow = (case so_owner ow of So_nlm c _ \<Rightarrow> c | _ \<Rightarrow> None)"

definition so_nlm_svid :: "state_owner_t \<Rightarrow> 32 word" where
  "so_nlm_svid ow = (case so_owner ow of So_nlm _ s \<Rightarrow> s | _ \<Rightarrow> 0)"

definition proc_id :: "state_owner_t \<Rightarrow> 32 word" where
  "proc_id ow = (case so_owner ow of So_9p p _ \<Rightarrow> p | _ \<Rightarrow> 0)"

subsection \<open>Comparisons\<close>

definition cmp_sockaddr :: "sockaddr_t \<Rightarrow> sockaddr_t \<Rightarrow> bool \<Rightarrow> bool" where
  "cmp_sockaddr addr_1 addr_2 ignore_port =
     (case (addr_1, addr_2) of
        (AF_INET a1 p1, AF_INET a2 p2) \<Rightarrow> a1 = a2 \<and> (ignore_port \<or> p1 = p2)
      | (AF_INET6 a1 p1, AF_INET6 a2 p2) \<Rightarrow> a1 = a2 \<and> (ignore_port \<or> p1 = p2)
      | _ \<Rightarrow> False)"

definition compare_nsm_client :: "owner_env \<Rightarrow> nat option \<Rightarrow> nat option \<Rightarrow> bool" where
  "compare_nsm_client env client1 client2 =
     (case (client1, client2) of
        (Some c1, Some c2) \<Rightarrow>
          if c1 = c2 then False
          else if \<not> nsm_use_caller_name env then
            ssc_client (nsm_clients env c1) \<noteq> ssc_client (nsm_clients env c2)
          else ssc_nlm_caller_name (nsm_clients env c1) \<noteq> ssc_nlm_caller_name (nsm_clients env c2)
      | _ \<Rightarrow> True)"

definition compare_nlm_client :: "owner_env \<Rightarrow> nat option \<Rightarrow> nat option \<Rightarrow> bool" where
  "compare_nlm_client env client1 client2 =
     (case (client1, client2) of
        (Some c1, Some c2) \<Rightarrow>
          (let k1 = nlm_clients env c1; k2 = nlm_clients env c2 in
           if c1 = c2 then False
           else if compare_nsm_client env (slc_nsm_client k1) (slc_nsm_client k2) then True
           else if \<not> cmp_sockaddr (slc_server_addr k1) (slc_server_addr k2) True then True
           else if slc_client_type k1 \<noteq> slc_client_type k2 then True
           else slc_nlm_caller_name k1 \<noteq> slc_nlm_caller_name k2)
      | _ \<Rightarrow> True)"

definition compare_nlm_owner :: "owner_env \<Rightarrow> nat option \<Rightarrow> nat option \<Rightarrow> bool" where
  "compare_nlm_owner env owner1 owner2 =
     (case (owner1, owner2) of
        (Some o1, Some o2) \<Rightarrow>
          (let w1 = owners env o1; w2 = owners env o2 in
           if o1 = o2 then False
           else if compare_nlm_client env (so_client w1) (so_client w2) then True
           else if so_nlm_svid w1 \<noteq> so_nlm_svid w2 then True
           else so_owner_val w1 \<noteq> so_owner_val w2)
      | _ \<Rightarrow> True)"

definition compare_9p_owner :: "owner_env \<Rightarrow> nat option \<Rightarrow> nat option \<Rightarrow> bool" where
  "compare_9p_owner env owner1 owner2 =
     (case (owner1, owner2) of
        (Some o1, Some o2) \<Rightarrow>
          if o1 = o2 then False
          else proc_id (owners env o1) \<noteq> proc_id (owners env o2)
      | _ \<Rightarrow> True)"

definition compare_nfs4_owner :: "owner_env \<Rightarrow> nat option \<Rightarrow> nat option \<Rightarrow> bool" where
  "compare_nfs4_owner env owner1 owner2 =
     (case (owner1, owner2) of
        (Some o1, Some o2) \<Rightarrow>
          (let w1 = owners env o1; w2 = owners env o2 in
           if o1 = o2 then False
           else if so_type w1 \<noteq> so_type w2 then True
           else if so_clientid w1 \<noteq> so_clientid w2 then True
           else so_owner_val w1 \<noteq> so_owner_val w2)
      | _ \<Rightarrow> True)"

definition different_owners :: "owner_env \<Rightarrow> nat option \<Rightarrow> nat option \<Rightarrow> bool" where
  "different_owners env owner1 owner2 =
     (case (owner1, owner2) of
        (Some o1, Some o2) \<Rightarrow>
          if o1 = o2 then False
          else if so_type (owners env o1) \<noteq> so_type (owners env o2) then True
          else (case so_type (owners env o1) of
              STATE_LOCK_OWNER_NLM \<Rightarrow> compare_nlm_owner env owner1 owner2
            | STATE_LOCK_OWNER_9P \<Rightarrow> compare_9p_owner env owner1 owner2
            | STATE_OPEN_OWNER_NFSV4 \<Rightarrow> compare_nfs4_owner env owner1 owner2
            | STATE_LOCK_OWNER_NFSV4 \<Rightarrow> compare_nfs4_owner env owner1 owner2
            | STATE_CLIENTID_OWNER_NFSV4 \<Rightarrow> compare_nfs4_owner env owner1 owner2
            | STATE_LOCK_OWNER_UNKNOWN \<Rightarrow> True)
      | _ \<Rightarrow> True)"

subsection \<open>The contract of an owner comparison\<close>

text \<open>
  What the lock lists rely on: \<open>differ\<close> holds of the null pointer and anything, and its
  complement is an equivalence on the other pointers.
\<close>

locale owner_comparison =
  fixes differ :: "nat option \<Rightarrow> nat option \<Rightarrow> bool"
  assumes null_left: "differ None q"
    and null_right: "differ p None"
    and same: "\<not> differ (Some a) (Some a)"
    and symmetric: "differ p q \<Longrightarrow> differ q p"
    and transitive: "\<not> differ p q \<Longrightarrow> \<not> differ q r \<Longrightarrow> \<not> differ p r"
begin

lemma sym_iff: "differ p q \<longleftrightarrow> differ q p"
  by (blast intro: symmetric)

lemma sym_not: "\<not> differ p q \<Longrightarrow> \<not> differ q p"
  by (blast intro: symmetric)

lemma same_iff [simp]: "differ p p \<longleftrightarrow> p = None"
  by (cases p) (simp_all add: null_left same)

lemma cong_left: "\<not> differ p q \<Longrightarrow> differ p r \<longleftrightarrow> differ q r"
  by (metis symmetric transitive)

lemma cong_right: "\<not> differ p q \<Longrightarrow> differ r p \<longleftrightarrow> differ r q"
  by (metis symmetric transitive)

end

named_theorems compare_defs \<open>the comparison functions, unfolded\<close>

lemmas [compare_defs] = compare_nsm_client_def compare_nlm_client_def compare_nlm_owner_def
  compare_9p_owner_def compare_nfs4_owner_def Let_def

lemma cmp_sockaddr_sym: "cmp_sockaddr a b p = cmp_sockaddr b a p"
  by (auto simp: cmp_sockaddr_def split: sockaddr_t.split)

lemma cmp_sockaddr_trans: "cmp_sockaddr a b True \<Longrightarrow> cmp_sockaddr b c True \<Longrightarrow> cmp_sockaddr a c True"
  by (auto simp: cmp_sockaddr_def split: sockaddr_t.splits)

interpretation nsm: owner_comparison "compare_nsm_client env" for env
  by unfold_locales (auto simp: compare_defs split: option.splits if_splits)

lemma compare_nlm_client_Some:
  "\<not> compare_nlm_client env (Some a) (Some b) \<longleftrightarrow>
     a = b \<or> \<not> compare_nsm_client env (slc_nsm_client (nlm_clients env a))
                 (slc_nsm_client (nlm_clients env b))
       \<and> cmp_sockaddr (slc_server_addr (nlm_clients env a)) (slc_server_addr (nlm_clients env b)) True
       \<and> slc_client_type (nlm_clients env a) = slc_client_type (nlm_clients env b)
       \<and> slc_nlm_caller_name (nlm_clients env a) = slc_nlm_caller_name (nlm_clients env b)"
  by (simp add: compare_nlm_client_def Let_def)

lemma compare_nlm_owner_Some:
  "\<not> compare_nlm_owner env (Some a) (Some b) \<longleftrightarrow>
     a = b \<or> \<not> compare_nlm_client env (so_client (owners env a)) (so_client (owners env b))
       \<and> so_nlm_svid (owners env a) = so_nlm_svid (owners env b)
       \<and> so_owner_val (owners env a) = so_owner_val (owners env b)"
  by (simp add: compare_nlm_owner_def Let_def)

text \<open>
  A comparison by pointer, then by a relation on what is pointed to, has the contract as soon as
  the relation is symmetric and transitive.
\<close>

lemma pointer_comparison:
  assumes "\<And>a b. \<not> differ (Some a) (Some b) \<longleftrightarrow> a = b \<or> R a b"
    and "\<And>p. differ None p" "\<And>p. differ p None"
    and "\<And>a b. R a b \<Longrightarrow> R b a" "\<And>a b c. R a b \<Longrightarrow> R b c \<Longrightarrow> R a c"
  shows "owner_comparison differ"
proof
  fix p q r :: "nat option"
  show "differ p q \<Longrightarrow> differ q p"
    using assms(1-4) by (cases p; cases q) (simp_all, metis)
  show "\<not> differ p r" if d: "\<not> differ p q" "\<not> differ q r"
  proof -
    obtain a b c where [simp]: "p = Some a" "q = Some b" "r = Some c"
      using d assms(2,3) by (metis option.exhaust)
    have "a = b \<or> R a b" "b = c \<or> R b c" using d assms(1) by auto
    then have "a = c \<or> R a c" using assms(5) by blast
    then show ?thesis using assms(1) by simp
  qed
  show "differ None q" "differ p None" by (fact assms(2,3))+
  show "\<not> differ (Some a) (Some a)" for a using assms(1) [of a a] by simp
qed

interpretation nlmc: owner_comparison "compare_nlm_client env" for env
proof (rule pointer_comparison [OF compare_nlm_client_Some], goal_cases)
  case (3 a b)
  then show ?case using nsm.sym_not cmp_sockaddr_sym by metis
next
  case (4 a b c)
  then show ?case using nsm.transitive cmp_sockaddr_trans by metis
qed (auto simp: compare_nlm_client_def split: option.split)

interpretation nlmo: owner_comparison "compare_nlm_owner env" for env
proof (rule pointer_comparison [OF compare_nlm_owner_Some], goal_cases)
  case (3 a b)
  then show ?case using nlmc.sym_not by metis
next
  case (4 a b c)
  then show ?case using nlmc.transitive by metis
qed (auto simp: compare_nlm_owner_def split: option.split)

interpretation p9: owner_comparison "compare_9p_owner env" for env
  by unfold_locales (auto simp: compare_defs split: option.splits if_splits)

interpretation nfs4: owner_comparison "compare_nfs4_owner env" for env
  by unfold_locales (auto simp: compare_defs split: option.splits if_splits)

lemma different_owners_Some:
  "\<not> different_owners env (Some a) (Some b) \<longleftrightarrow>
     a = b \<or> so_type (owners env a) = so_type (owners env b) \<and>
     (case so_type (owners env a) of
        STATE_LOCK_OWNER_NLM \<Rightarrow> \<not> compare_nlm_owner env (Some a) (Some b)
      | STATE_LOCK_OWNER_9P \<Rightarrow> \<not> compare_9p_owner env (Some a) (Some b)
      | STATE_LOCK_OWNER_UNKNOWN \<Rightarrow> False
      | _ \<Rightarrow> \<not> compare_nfs4_owner env (Some a) (Some b))"
  by (auto simp: different_owners_def split: state_owner_type_t.split)

lemma different_owners_null:
  "different_owners env None q" "different_owners env p None"
  by (auto simp: different_owners_def split: option.split)

interpretation own: owner_comparison "different_owners env" for env
proof (rule pointer_comparison [OF different_owners_Some])
  fix a b c
  let ?R = "\<lambda>a b. so_type (owners env a) = so_type (owners env b) \<and>
     (case so_type (owners env a) of
        STATE_LOCK_OWNER_NLM \<Rightarrow> \<not> compare_nlm_owner env (Some a) (Some b)
      | STATE_LOCK_OWNER_9P \<Rightarrow> \<not> compare_9p_owner env (Some a) (Some b)
      | STATE_LOCK_OWNER_UNKNOWN \<Rightarrow> False
      | _ \<Rightarrow> \<not> compare_nfs4_owner env (Some a) (Some b))"
  show "?R a b \<Longrightarrow> ?R b a"
    using nlmo.sym_not [of env "Some a" "Some b"] p9.sym_not [of env "Some a" "Some b"]
      nfs4.sym_not [of env "Some a" "Some b"] by (simp split: state_owner_type_t.splits)
  show "?R a b \<Longrightarrow> ?R b c \<Longrightarrow> ?R a c"
    using nlmo.transitive [of env "Some a" "Some b" "Some c"]
      p9.transitive [of env "Some a" "Some b" "Some c"]
      nfs4.transitive [of env "Some a" "Some b" "Some c"]
    by (auto split: state_owner_type_t.splits)
qed (simp_all add: different_owners_null)

text \<open>C38: The owner comparison the lock lists use is an equivalence on owners, and never takes the
  null owner for any owner: being the same owner is reflexive on proper pointers, symmetric and
  transitive, across the protocols and whichever way NSM clients are identified.\<close>

theorem same_owner_equivalence:
  "different_owners env None q \<and> different_owners env p None \<and>
   \<not> different_owners env (Some a) (Some a) \<and>
   different_owners env p q = different_owners env q p \<and>
   (\<not> different_owners env p q \<and> \<not> different_owners env q r \<longrightarrow> \<not> different_owners env p r)"
  using own.null_left own.null_right own.same own.sym_iff own.transitive by blast

definition wit_9p_env :: owner_env where
  "wit_9p_env = \<lparr>owners = (\<lambda>a. \<lparr>so_type = STATE_LOCK_OWNER_9P, so_owner_val = [],
       so_owner = So_9p 7 (AF_INET (of_nat a) 0)\<rparr>),
     nlm_clients = (\<lambda>_. \<lparr>slc_nsm_client = None, slc_client_type = 0,
       slc_server_addr = AF_OTHER 0, slc_nlm_caller_name = []\<rparr>),
     nsm_clients = (\<lambda>_. \<lparr>ssc_client = 0, ssc_nlm_caller_name = []\<rparr>),
     nsm_use_caller_name = False\<rparr>"

theorem same_owner_equivalence_witness:
  "\<not> different_owners wit_9p_env (Some 1) (Some 3)"
proof -
  have "\<not> different_owners wit_9p_env (Some 1) (Some 2)" "\<not> different_owners wit_9p_env (Some 2) (Some 3)"
    by (simp_all add: different_owners_def compare_9p_owner_def proc_id_def wit_9p_env_def)
  then show ?thesis
    using same_owner_equivalence [of wit_9p_env "Some 2" "Some 1" 1 "Some 3"] by blast
qed



end
