(* ===== verification/Lock_Range.thy ===== *)
theory Lock_Range
  imports Ganesha_Prelude
begin

text \<open>
  Byte ranges of file locks: \<^verbatim>\<open>fsal_lock_param_t\<close> of \<^verbatim>\<open>include/fsal_types.h\<close>, the range
  arithmetic of \<^verbatim>\<open>SAL/state_lock.c\<close>, and the range check the NFSv4 lock operations make
  before they call it.  All of it is unsigned 64-bit arithmetic that wraps.  The meaning of a
  range is the set of bytes it covers.
\<close>

subsection \<open>Lock descriptions\<close>

datatype fsal_lock_op_t =
  FSAL_OP_LOCKT | FSAL_OP_LOCK | FSAL_OP_LOCKB | FSAL_OP_UNLOCK | FSAL_OP_CANCEL

datatype fsal_lock_t = FSAL_LOCK_R | FSAL_LOCK_W | FSAL_NO_LOCK

datatype fsal_sle_type = FSAL_POSIX_LOCK | FSAL_LEASE_LOCK

record fsal_lock_param_t =
  lock_sle_type :: fsal_sle_type
  lock_type :: fsal_lock_t
  lock_start :: uint64
  lock_length :: uint64
  lock_reclaim :: bool

definition lock_end :: "fsal_lock_param_t \<Rightarrow> uint64" where
  "lock_end lock =
     (if lock_length lock = 0 then UINT64_MAX
      else lock_start lock + lock_length lock - 1)"

definition different_lock :: "fsal_lock_param_t \<Rightarrow> fsal_lock_param_t \<Rightarrow> bool" where
  "different_lock lock1 lock2 \<longleftrightarrow>
     lock_type lock1 \<noteq> lock_type lock2 \<or> lock_start lock1 \<noteq> lock_start lock2
     \<or> lock_length lock1 \<noteq> lock_length lock2"

text \<open>The overlap test that \<^verbatim>\<open>get_overlapping_entry\<close>, \<^verbatim>\<open>state_lock\<close> and
  \<^verbatim>\<open>cancel_blocked_locks_range\<close> write out.\<close>

definition locks_overlap :: "fsal_lock_param_t \<Rightarrow> fsal_lock_param_t \<Rightarrow> bool" where
  "locks_overlap found lock \<longleftrightarrow>
     lock_end found \<ge> lock_start lock \<and> lock_start found \<le> lock_end lock"

text \<open>
  The range of an NFSv4 LOCK, LOCKT or LOCKU: a length of all ones means to the end of the file,
  and a range that would wrap is refused (\<open>None\<close>, the operation returns INVAL).
\<close>

definition nfs4_lock_range ::
  "fsal_lock_t \<Rightarrow> uint64 \<Rightarrow> uint64 \<Rightarrow> bool \<Rightarrow> fsal_lock_param_t option" where
  "nfs4_lock_range type offset len reclaim =
     (let lock_desc = \<lparr>lock_sle_type = FSAL_POSIX_LOCK, lock_type = type, lock_start = offset,
            lock_length = (if len \<noteq> UINT64_MAX then len else 0), lock_reclaim = reclaim\<rparr>
      in if lock_length lock_desc > UINT64_MAX - lock_start lock_desc then None
         else Some lock_desc)"

text \<open>The range of an NLM request, taken over as it is.\<close>

definition nlm_lock_range :: "bool \<Rightarrow> uint64 \<Rightarrow> uint64 \<Rightarrow> fsal_lock_param_t" where
  "nlm_lock_range exclusive offset len =
     \<lparr>lock_sle_type = FSAL_POSIX_LOCK,
      lock_type = (if exclusive then FSAL_LOCK_W else FSAL_LOCK_R),
      lock_start = offset, lock_length = len, lock_reclaim = False\<rparr>"

subsection \<open>The bytes of a range\<close>

definition lock_bytes :: "fsal_lock_param_t \<Rightarrow> uint64 set" where
  "lock_bytes lock = {b. lock_start lock \<le> b \<and> b \<le> lock_end lock}"

text \<open>A range that does not wrap.\<close>

definition lock_valid :: "fsal_lock_param_t \<Rightarrow> bool" where
  "lock_valid lock \<longleftrightarrow> lock_start lock \<le> lock_end lock"

lemma lock_bytes_nonempty: "lock_valid lock \<longleftrightarrow> lock_bytes lock \<noteq> {}"
  by (auto simp: lock_valid_def lock_bytes_def)

lemma start_in_bytes: "lock_valid lock \<Longrightarrow> lock_start lock \<in> lock_bytes lock"
  by (simp add: lock_valid_def lock_bytes_def)

lemma lock_valid_iff:
  "lock_valid lock \<longleftrightarrow>
     lock_length lock = 0 \<or> unat (lock_start lock) + unat (lock_length lock) \<le> 2 ^ 64"
proof (cases "lock_length lock = 0")
  case True
  then show ?thesis by (simp add: lock_valid_def lock_end_def)
next
  case False
  let ?s = "lock_start lock" and ?l = "lock_length lock"
  have l: "unat (?l - 1) = unat ?l - 1" and pos: "unat ?l > 0"
    using False by (simp_all add: unat_minus_one unat_gt_0)
  have end_eq: "lock_end lock = ?s + (?l - 1)"
    using False by (simp add: lock_end_def algebra_simps)
  have "?s \<le> ?s + (?l - 1) \<longleftrightarrow> unat ?s + unat (?l - 1) < 2 ^ 64"
    using no_olen_add_nat [of ?s "?l - 1"] by simp
  then show ?thesis
    using False l pos end_eq by (auto simp: lock_valid_def)
qed

lemma locks_overlap_iff:
  assumes "lock_valid l1" "lock_valid l2"
  shows "locks_overlap l1 l2 \<longleftrightarrow> lock_bytes l1 \<inter> lock_bytes l2 \<noteq> {}"
proof
  assume ov: "locks_overlap l1 l2"
  show "lock_bytes l1 \<inter> lock_bytes l2 \<noteq> {}"
  proof (cases "lock_start l1 \<le> lock_start l2")
    case True
    then have "lock_start l2 \<in> lock_bytes l1 \<inter> lock_bytes l2"
      using ov assms by (auto simp: locks_overlap_def lock_bytes_def lock_valid_def)
    then show ?thesis by blast
  next
    case False
    then have "lock_start l1 \<in> lock_bytes l1 \<inter> lock_bytes l2"
      using ov assms by (auto simp: locks_overlap_def lock_bytes_def lock_valid_def)
    then show ?thesis by blast
  qed
next
  assume "lock_bytes l1 \<inter> lock_bytes l2 \<noteq> {}"
  then show "locks_overlap l1 l2"
    by (auto simp: locks_overlap_def lock_bytes_def intro: order_trans)
qed

subsection \<open>Changing the ends of a range\<close>

text \<open>How the code writes a new range into a description: from a start and an end, from a start
  after an end, and up to a start.\<close>

lemma plus_one_le: "(s :: uint64) \<le> e \<Longrightarrow> e + 1 = s \<Longrightarrow> e = UINT64_MAX"
proof (rule ccontr)
  assume "s \<le> e" "e + 1 = s" "e \<noteq> UINT64_MAX"
  then have "unat s = unat e + 1" using unat_plus_one by metis
  then show False using \<open>s \<le> e\<close> by (simp add: word_le_nat_alt)
qed

lemma end_of_span:
  assumes "s \<le> e"
  shows "lock_end (lock\<lparr>lock_start := s, lock_length := e - s + 1\<rparr>) = e"
proof (cases "e - s + 1 = 0")
  case True
  then have "e + 1 = s" by (simp add: algebra_simps eq_neg_iff_add_eq_0)
  then show ?thesis using True plus_one_le [OF assms] by (simp add: lock_end_def)
qed (simp add: lock_end_def)

lemma end_after:
  "le < ce \<Longrightarrow> lock_end (lock\<lparr>lock_start := le + 1, lock_length := ce - le\<rparr>) = ce"
  by (auto simp: lock_end_def)

lemma end_before:
  "lock_start lock < ls \<Longrightarrow> lock_end (lock\<lparr>lock_length := ls - lock_start lock\<rparr>) = ls - 1"
  by (auto simp: lock_end_def)

lemma le_minus_one: "(s :: uint64) < t \<Longrightarrow> x \<le> t - 1 \<longleftrightarrow> x < t"
proof -
  assume "s < t"
  then have "t \<noteq> 0" by auto
  then have "unat (t - 1) = unat t - 1" "unat t > 0" by (simp_all add: unat_minus_one unat_gt_0)
  then show ?thesis by (simp add: word_le_nat_alt word_less_nat_alt) arith
qed

lemma plus_one_le_iff: "(s :: uint64) < t \<Longrightarrow> s + 1 \<le> x \<longleftrightarrow> s < x"
proof -
  assume "s < t"
  then have "s \<noteq> UINT64_MAX" by (metis word_order.extremum_strict)
  then show ?thesis by (simp add: word_le_nat_alt word_less_nat_alt unat_plus_one Suc_le_eq)
qed

text \<open>
  Two ranges of which neither ends before the byte before the other's start touch or overlap,
  whether or not the additions wrap, and the span of the two is their union.
\<close>

lemma span_is_union:
  assumes "lock_valid l1" "lock_valid l2"
    and "\<not> lock_end l1 + 1 < lock_start l2" "\<not> lock_end l2 + 1 < lock_start l1"
  shows "{b. min (lock_start l1) (lock_start l2) \<le> b \<and> b \<le> max (lock_end l1) (lock_end l2)} =
    lock_bytes l1 \<union> lock_bytes l2"
proof -
  have gap: "b \<le> lock_end l \<or> m \<le> b" if "\<not> lock_end l + 1 < m" for l m b
  proof (rule disjCI)
    assume "\<not> m \<le> b"
    show "b \<le> lock_end l"
    proof (rule ccontr)
      assume "\<not> b \<le> lock_end l"
      then have "lock_end l + 1 \<le> b" using plus_one_le_iff [of "lock_end l" b b] by simp
      then show False using that \<open>\<not> m \<le> b\<close> by simp
    qed
  qed
  show ?thesis
    using assms gap [OF assms(3)] gap [OF assms(4)]
    by (auto simp: lock_bytes_def lock_valid_def min_def max_def split: if_splits)
qed

end
