(* ===== verification/Lock_State.thy ===== *)
theory Lock_State
  imports Status_Codes Access_Check Lock_Owner Lock_Range "HOL-Library.Monad_Syntax"
begin

text \<open>
  The lock lists of \<^verbatim>\<open>SAL/state_lock.c\<close>: lock entries, their creation, reference counts and
  removal, the search for a conflicting entry, and adding and subtracting byte ranges.

  Lock entries live in a heap: an entry is reached by its address, a list of entries is the list
  of their addresses in the order of the \<^verbatim>\<open>glist\<close>, and \<^verbatim>\<open>glist_del\<close> is the removal of an
  address (of a node on no list, as in the C code, nothing).  The record \<open>lock_sys\<close> has the heap,
  the lists an entry can be on (of its object, owner, NSM client, export and state, and the list
  of blocked locks), the reference counts the operations take and release, the grant cookies and
  their hash table, and the state \<open>'fs\<close> of the file system back end.  What happens when the last
  reference to an owner, client, export, object or state is released belongs to those components
  and is not part of this model; memory allocation does not fail (\<^verbatim>\<open>gsh_malloc\<close> aborts).

  The record \<open>lock_env\<close> has what the operations only read (owners, object types, the capabilities
  of an export) and the methods of the back end they call, as functions on \<open>'fs\<close>.
\<close>

subsection \<open>Entries and the state\<close>

datatype state_blocking_t =
    STATE_NON_BLOCKING | STATE_NLM_BLOCKING | STATE_NFSV4_BLOCKING | STATE_GRANTING
  | STATE_CANCELED

datatype state_grant_type_t =
    STATE_GRANT_NONE | STATE_GRANT_INTERNAL | STATE_GRANT_FSAL | STATE_GRANT_FSAL_AVAILABLE
  | STATE_GRANT_POLL

datatype state_block_type_t =
  STATE_BLOCK_NONE | STATE_BLOCK_INTERNAL | STATE_BLOCK_ASYNC | STATE_BLOCK_POLL

text \<open>Block data belongs to one lock entry; its callback is always \<^verbatim>\<open>nlm_granted_callback\<close>.\<close>

record state_block_data_t =
  sbd_grant_type :: state_grant_type_t
  sbd_block_type :: state_block_type_t
  sbd_blocked_cookie :: "nat option"

record state_lock_entry_t =
  sle_export :: nat
  sle_obj :: nat
  sle_block_data :: "state_block_data_t option"
  sle_owner :: "nat option"
  sle_state :: "nat option"
  sle_blocked :: state_blocking_t
  sle_ref_count :: int
  sle_lock :: fsal_lock_param_t

record state_cookie_entry_t =
  sce_obj :: nat
  sce_lock_entry :: nat
  sce_cookie :: uint64

record 'fs lock_sys =
  ent :: "nat \<Rightarrow> state_lock_entry_t"
  alive :: "nat \<Rightarrow> bool"
  next_entry :: nat
  lock_list :: "nat \<Rightarrow> nat list"
  so_lock_list :: "nat \<Rightarrow> nat list"
  ssc_lock_list :: "nat \<Rightarrow> nat list"
  exp_lock_list :: "nat \<Rightarrow> nat list"
  state_locklist :: "nat \<Rightarrow> nat list"
  state_blocked_locks :: "nat list"
  so_refcount :: "nat \<Rightarrow> int"
  ssc_refcount :: "nat \<Rightarrow> int"
  slc_refcount :: "nat \<Rightarrow> int"
  exp_refcount :: "nat \<Rightarrow> int"
  obj_refcount :: "nat \<Rightarrow> int"
  state_refcount :: "nat \<Rightarrow> int"
  cookies :: "nat \<Rightarrow> state_cookie_entry_t option"
  next_cookie :: nat
  granted_cookie :: uint64
  ht_lock_cookies :: "uint64 \<Rightarrow> nat option"
  fsal :: 'fs

datatype fso_t =
  fso_lock_support | fso_lock_support_owner | fso_lock_support_async_block | fso_reopen_method

record 'fs lock_env =
  own_env :: owner_env
  unknown_owner :: nat
  fs_supports :: "nat \<Rightarrow> fso_t \<Rightarrow> bool"
  export_ready :: "nat \<Rightarrow> bool"
  support_ex :: "nat \<Rightarrow> bool"
  obj_type :: "nat \<Rightarrow> object_file_type_t"
  state_seqid :: "nat \<Rightarrow> int"
  fsal_open :: "nat \<Rightarrow> uint32 \<Rightarrow> 'fs \<Rightarrow> fsal_status_t \<times> 'fs"
  lock_op :: "nat \<Rightarrow> nat option \<Rightarrow> fsal_lock_op_t \<Rightarrow> fsal_lock_param_t \<Rightarrow> 'fs \<Rightarrow>
    fsal_status_t \<times> fsal_lock_param_t \<times> 'fs"
  lock_op2 :: "nat \<Rightarrow> nat option \<Rightarrow> nat \<Rightarrow> fsal_lock_op_t \<Rightarrow> fsal_lock_param_t \<Rightarrow> 'fs \<Rightarrow>
    fsal_status_t \<times> fsal_lock_param_t \<times> 'fs"
  state_async_schedule :: "'fs \<Rightarrow> state_status_t \<times> 'fs"

abbreviation (input) differ :: "'fs lock_env \<Rightarrow> nat option \<Rightarrow> nat option \<Rightarrow> bool" where
  "differ env \<equiv> different_owners (own_env env)"

abbreviation upd_ent ::
  "nat \<Rightarrow> (state_lock_entry_t \<Rightarrow> state_lock_entry_t) \<Rightarrow> 'fs lock_sys \<Rightarrow> 'fs lock_sys" where
  "upd_ent a f s \<equiv> s\<lparr>ent := (ent s)(a := f (ent s a))\<rparr>"

text \<open>The NSM client of an NLM owner.\<close>

definition nsm_client :: "'fs lock_env \<Rightarrow> nat \<Rightarrow> nat" where
  "nsm_client env owner =
     the (slc_nsm_client (nlm_clients (own_env env) (the (so_client (owners (own_env env) owner)))))"

definition owner_is_nlm :: "'fs lock_env \<Rightarrow> nat \<Rightarrow> bool" where
  "owner_is_nlm env owner \<longleftrightarrow> so_type (owners (own_env env) owner) = STATE_LOCK_OWNER_NLM"

subsection \<open>Creating and removing entries\<close>

definition create_state_lock_entry ::
  "'fs lock_env \<Rightarrow> nat \<Rightarrow> nat \<Rightarrow> state_blocking_t \<Rightarrow> nat \<Rightarrow> nat option \<Rightarrow> fsal_lock_param_t \<Rightarrow>
   'fs lock_sys \<Rightarrow> nat \<times> 'fs lock_sys" where
  "create_state_lock_entry env obj export blocked owner state lock s =
    (let a = next_entry s;
         new_entry = \<lparr>sle_export = export, sle_obj = obj, sle_block_data = None,
            sle_owner = Some owner, sle_state = state, sle_blocked = blocked,
            sle_ref_count = 1, sle_lock = lock\<rparr>;
         s = s\<lparr>ent := (ent s)(a := new_entry), alive := (alive s)(a := True),
               next_entry := a + 1\<rparr>;
         s = (if owner_is_nlm env owner then
                (let c = nsm_client env owner in
                 s\<lparr>ssc_refcount := (ssc_refcount s)(c := ssc_refcount s c + 1),
                   ssc_lock_list := (ssc_lock_list s)(c := ssc_lock_list s c @ [a])\<rparr>)
              else s);
         s = s\<lparr>exp_lock_list := (exp_lock_list s)(export := exp_lock_list s export @ [a]),
               exp_refcount := (exp_refcount s)(export := exp_refcount s export + 1),
               obj_refcount := (obj_refcount s)(obj := obj_refcount s obj + 1),
               so_refcount := (so_refcount s)(owner := so_refcount s owner + 1)\<rparr>;
         s = (case state of
                None \<Rightarrow> s
              | Some st \<Rightarrow>
                 s\<lparr>state_locklist := (state_locklist s)(st := state_locklist s st @ [a]),
                   state_refcount := (state_refcount s)(st := state_refcount s st + 1)\<rparr>);
         s = s\<lparr>so_lock_list := (so_lock_list s)(owner := so_lock_list s owner @ [a])\<rparr>
     in (a, s))"

definition state_lock_entry_t_dup ::
  "'fs lock_env \<Rightarrow> nat \<Rightarrow> 'fs lock_sys \<Rightarrow> nat \<times> 'fs lock_sys" where
  "state_lock_entry_t_dup env orig s =
     create_state_lock_entry env (sle_obj (ent s orig)) (sle_export (ent s orig))
       (sle_blocked (ent s orig)) (the (sle_owner (ent s orig))) (sle_state (ent s orig))
       (sle_lock (ent s orig)) s"

definition lock_entry_inc_ref :: "nat \<Rightarrow> 'fs lock_sys \<Rightarrow> 'fs lock_sys" where
  "lock_entry_inc_ref a s = upd_ent a (sle_ref_count_update (\<lambda>r. r + 1)) s"

definition lock_entry_dec_ref :: "nat \<Rightarrow> 'fs lock_sys \<Rightarrow> 'fs lock_sys" where
  "lock_entry_dec_ref a s =
    (let s = upd_ent a (sle_ref_count_update (\<lambda>r. r - 1)) s; e = ent s a in
     if sle_ref_count e = 0 then
       (let s = (if sle_block_data e \<noteq> None
                 then s\<lparr>state_blocked_locks := remove1 a (state_blocked_locks s)\<rparr> else s)
        in s\<lparr>obj_refcount := (obj_refcount s)(sle_obj e := obj_refcount s (sle_obj e) - 1),
             exp_refcount := (exp_refcount s)(sle_export e := exp_refcount s (sle_export e) - 1),
             alive := (alive s)(a := False)\<rparr>)
     else s)"

text \<open>\<^verbatim>\<open>remove_from_locklist\<close> up to the two list removals that depend on the owner.\<close>

definition drop_owner_links :: "'fs lock_env \<Rightarrow> nat \<Rightarrow> 'fs lock_sys \<Rightarrow> 'fs lock_sys" where
  "drop_owner_links env a s =
    (case sle_owner (ent s a) of
       None \<Rightarrow> s
     | Some owner \<Rightarrow>
        (let e = ent s a;
             s = (if owner_is_nlm env owner then
                    (let c = nsm_client env owner in
                     s\<lparr>ssc_lock_list := (ssc_lock_list s)(c := remove1 a (ssc_lock_list s c)),
                       ssc_refcount := (ssc_refcount s)(c := ssc_refcount s c - 1)\<rparr>)
                  else s);
             s = s\<lparr>exp_lock_list := (exp_lock_list s)
                    (sle_export e := remove1 a (exp_lock_list s (sle_export e)))\<rparr>;
             s = (case sle_state e of
                    None \<Rightarrow> s
                  | Some st \<Rightarrow>
                     s\<lparr>state_locklist := (state_locklist s)(st := remove1 a (state_locklist s st))\<rparr>);
             s = s\<lparr>so_lock_list := (so_lock_list s)(owner := remove1 a (so_lock_list s owner)),
                   so_refcount := (so_refcount s)(owner := so_refcount s owner - 1)\<rparr>
         in (case sle_state e of
               None \<Rightarrow> s
             | Some st \<Rightarrow>
                s\<lparr>state_refcount := (state_refcount s)(st := state_refcount s st - 1)\<rparr>)))"

definition remove_from_locklist :: "'fs lock_env \<Rightarrow> nat \<Rightarrow> 'fs lock_sys \<Rightarrow> 'fs lock_sys" where
  "remove_from_locklist env a s =
    (let obj = sle_obj (ent s a);
         s = drop_owner_links env a s;
         s = upd_ent a (sle_owner_update (\<lambda>_. None)) s;
         s = s\<lparr>lock_list := (lock_list s)(obj := remove1 a (lock_list s obj))\<rparr>
     in lock_entry_dec_ref a s)"

definition free_list :: "'fs lock_env \<Rightarrow> nat list \<Rightarrow> 'fs lock_sys \<Rightarrow> 'fs lock_sys" where
  "free_list env xs s = fold (remove_from_locklist env) xs s"

subsection \<open>Searching\<close>

definition entry_conflicts ::
  "'fs lock_env \<Rightarrow> state_lock_entry_t \<Rightarrow> nat option \<Rightarrow> fsal_lock_param_t \<Rightarrow> bool" where
  "entry_conflicts env e owner lock \<longleftrightarrow>
     locks_overlap (sle_lock e) lock
     \<and> (lock_type (sle_lock e) = FSAL_LOCK_W \<or> lock_type lock = FSAL_LOCK_W)
     \<and> differ env (sle_owner e) owner"

definition get_overlapping_entry ::
  "'fs lock_env \<Rightarrow> 'fs lock_sys \<Rightarrow> nat \<Rightarrow> nat option \<Rightarrow> fsal_lock_param_t \<Rightarrow> nat option" where
  "get_overlapping_entry env s obj owner lock =
     find (\<lambda>a. let e = ent s a in
        \<not> (sle_blocked e = STATE_NLM_BLOCKING \<or> sle_blocked e = STATE_NFSV4_BLOCKING
           \<or> sle_blocked e = STATE_CANCELED)
        \<and> entry_conflicts env e owner lock) (lock_list s obj)"

subsection \<open>Adding a range\<close>

text \<open>The body of the loop of \<^verbatim>\<open>merge_lock_entry\<close>: the entry \<open>c\<close> of the list is looked at for the
  entry \<open>a\<close> that is added.  The result has the entry that was appended to the list, if any.\<close>

definition merge_step ::
  "'fs lock_env \<Rightarrow> nat \<Rightarrow> nat \<Rightarrow> nat \<Rightarrow> 'fs lock_sys \<Rightarrow> 'fs lock_sys \<times> nat option" where
  "merge_step env obj a c s =
    (let check_lock = sle_lock (ent s c);
         lock = sle_lock (ent s a);
         check_end = lock_end check_lock;
         entry_end = lock_end lock in
     if c = a then (s, None)
     else if differ env (sle_owner (ent s c)) (sle_owner (ent s a)) then (s, None)
     else if sle_blocked (ent s c) \<noteq> STATE_NON_BLOCKING then (s, None)
     else if check_end + 1 < lock_start lock then (s, None)
     else if entry_end + 1 < lock_start check_lock then (s, None)
     else if lock_type check_lock \<noteq> lock_type lock
             \<and> (entry_end < check_end \<or> lock_start check_lock < lock_start lock) then
       (let split = (entry_end < check_end \<and> lock_start check_lock < lock_start lock);
            (right, s, added) =
              (if split then
                 (let (r, s) = state_lock_entry_t_dup env c s in
                  (r, s\<lparr>lock_list := (lock_list s)(obj := lock_list s obj @ [r])\<rparr>, Some r))
               else (c, s, None));
            s = (if entry_end < check_end then
                   upd_ent right (sle_lock_update (\<lambda>l. l\<lparr>lock_start := entry_end + 1,
                     lock_length := check_end - entry_end\<rparr>)) s
                 else s);
            s = (if lock_start check_lock < lock_start lock then
                   upd_ent c (sle_lock_update (\<lambda>l. l\<lparr>
                     lock_length := lock_start lock - lock_start check_lock\<rparr>)) s
                 else s)
        in (s, added))
     else
       (let entry_end = (if entry_end < check_end then check_end else entry_end);
            start = (if lock_start check_lock < lock_start lock then lock_start check_lock
                     else lock_start lock);
            s = upd_ent a (sle_lock_update (\<lambda>l. l\<lparr>lock_start := start,
                  lock_length := entry_end - start + 1\<rparr>)) s
        in (remove_from_locklist env c s, None)))"

text \<open>
  The loop over the list.  The next node is read before the body runs, so an entry appended by
  the body is visited later unless the body was at the last node.  The loop need not end, and
  \<open>None\<close> is that it does not.
\<close>

partial_function (option) merge_loop ::
  "'fs lock_env \<Rightarrow> nat \<Rightarrow> nat \<Rightarrow> nat list \<Rightarrow> 'fs lock_sys \<Rightarrow> 'fs lock_sys option" where
  "merge_loop env obj a todo s =
    (case todo of
       [] \<Rightarrow> Some s
     | c # rest \<Rightarrow>
        (case merge_step env obj a c s of
           (s', None) \<Rightarrow> merge_loop env obj a rest s'
         | (s', Some r) \<Rightarrow>
             merge_loop env obj a (if rest = [] then [] else rest @ [r]) s'))"

definition merge_lock_entry ::
  "'fs lock_env \<Rightarrow> nat \<Rightarrow> nat \<Rightarrow> 'fs lock_sys \<Rightarrow> 'fs lock_sys option" where
  "merge_lock_entry env obj a s = merge_loop env obj a (lock_list s obj) s"

subsection \<open>Subtracting a range\<close>

text \<open>
  The entries that remain of \<open>found\<close> are appended to \<open>split_list\<close>; \<open>found\<close> itself is moved to
  \<open>remove_list\<close> when it was changed.
\<close>

definition subtract_lock_from_entry ::
  "'fs lock_env \<Rightarrow> nat \<Rightarrow> fsal_lock_param_t \<Rightarrow> nat list \<Rightarrow> nat list \<Rightarrow> 'fs lock_sys \<Rightarrow>
   bool \<times> nat list \<times> nat list \<times> 'fs lock_sys" where
  "subtract_lock_from_entry env found lock split_list remove_list s =
    (let found_lock = sle_lock (ent s found);
         found_end = lock_end found_lock;
         range_end = lock_end lock in
     if range_end < lock_start found_lock then (False, split_list, remove_list, s)
     else if found_end < lock_start lock then (False, split_list, remove_list, s)
     else if lock_start lock \<le> lock_start found_lock \<and> range_end \<ge> found_end then
       (True, split_list, remove_list @ [found], s)
     else
       (let (split_list, s) =
              (if lock_start lock > lock_start found_lock then
                 (let (l, s) = state_lock_entry_t_dup env found s;
                      s = upd_ent l (sle_lock_update (\<lambda>k. k\<lparr>
                            lock_length := lock_start lock - lock_start found_lock\<rparr>)) s
                  in (split_list @ [l], s))
               else (split_list, s));
            (split_list, s) =
              (if range_end < found_end then
                 (let (r, s) = state_lock_entry_t_dup env found s;
                      s = upd_ent r (sle_lock_update (\<lambda>k. k\<lparr>lock_start := range_end + 1,
                            lock_length := (if found_end = UINT64_MAX then 0
                                            else found_end - range_end)\<rparr>)) s
                  in (split_list @ [r], s))
               else (split_list, s))
        in (True, split_list, remove_list @ [found], s)))"

text \<open>Whether the loop of \<^verbatim>\<open>subtract_lock_from_list\<close> passes an entry over.\<close>

definition subtract_skips ::
  "'fs lock_env \<Rightarrow> nat option \<Rightarrow> bool \<Rightarrow> int \<Rightarrow> state_lock_entry_t \<Rightarrow> bool" where
  "subtract_skips env owner state_applies state e \<longleftrightarrow>
     (owner \<noteq> None \<and> differ env (sle_owner e) owner)
     \<or> sle_blocked e \<noteq> STATE_NON_BLOCKING
     \<or> (state_applies \<and> state_seqid env (the (sle_state e)) = state)"

primrec subtract_loop ::
  "'fs lock_env \<Rightarrow> nat option \<Rightarrow> bool \<Rightarrow> int \<Rightarrow> fsal_lock_param_t \<Rightarrow> nat list \<Rightarrow>
   bool \<times> nat list \<times> nat list \<times> 'fs lock_sys \<Rightarrow> bool \<times> nat list \<times> nat list \<times> 'fs lock_sys" where
  "subtract_loop env owner state_applies state lock [] acc = acc"
| "subtract_loop env owner state_applies state lock (found # rest) acc =
    (case acc of (removed, split_list, remove_list, s) \<Rightarrow>
       if subtract_skips env owner state_applies state (ent s found) then
         subtract_loop env owner state_applies state lock rest acc
       else
         (case subtract_lock_from_entry env found lock split_list remove_list s of
            (removed_one, split_list, remove_list, s) \<Rightarrow>
              subtract_loop env owner state_applies state lock rest
                (removed \<or> removed_one, split_list, remove_list, s)))"

text \<open>
  The list given is the one worked on; the new list is part of the result.  The status is always
  success, since splitting an entry does not fail.
\<close>

definition subtract_lock_from_list ::
  "'fs lock_env \<Rightarrow> nat option \<Rightarrow> bool \<Rightarrow> int \<Rightarrow> fsal_lock_param_t \<Rightarrow> nat list \<Rightarrow> 'fs lock_sys \<Rightarrow>
   state_status_t \<times> bool \<times> nat list \<times> 'fs lock_sys" where
  "subtract_lock_from_list env owner state_applies state lock xs s =
    (case subtract_loop env owner state_applies state lock xs (False, [], [], s) of
       (removed, split_list, remove_list, s) \<Rightarrow>
         (let xs = filter (\<lambda>a. a \<notin> set remove_list) xs;
              s = free_list env remove_list s
          in (STATE_SUCCESS, removed, xs @ split_list, s)))"

primrec subtract_list_from_list ::
  "'fs lock_env \<Rightarrow> nat list \<Rightarrow> nat list \<Rightarrow> 'fs lock_sys \<Rightarrow> state_status_t \<times> nat list \<times> 'fs lock_sys" where
  "subtract_list_from_list env target [] s = (STATE_SUCCESS, target, s)"
| "subtract_list_from_list env target (found # source) s =
    (case subtract_lock_from_list env None False 0 (sle_lock (ent s found)) target s of
       (status, removed, target, s) \<Rightarrow>
         if status \<noteq> STATE_SUCCESS then (status, target, s)
         else subtract_list_from_list env target source s)"

end
