(* ===== verification/Lock_Ops.thy ===== *)
theory Lock_Ops
  imports Lock_State
begin

text \<open>
  The operations on locks of \<^verbatim>\<open>SAL/state_lock.c\<close>: calls into the file system back end, grant
  cookies, granting and cancelling blocked locks, and the entry points \<^verbatim>\<open>state_test\<close>,
  \<^verbatim>\<open>state_lock\<close>, \<^verbatim>\<open>state_unlock\<close> and \<^verbatim>\<open>state_cancel\<close>, with the grant callback
  \<^verbatim>\<open>nlm_granted_callback\<close> of \<^verbatim>\<open>Protocols/NLM/nlm_util.c\<close>.

  An operation runs with the state lock of its file held, so each definition is one atomic step.
  The argument \<open>ctx\<close> is the export of the operation context (\<^verbatim>\<open>op_ctx->ctx_export\<close>, and its
  FSAL export).  Results through pointers (\<open>holder\<close>, \<open>conflict\<close>) are options: \<open>None\<close> is that
  nothing was written.
\<close>

subsection \<open>Calls to the back end\<close>

definition posix_lock :: "fsal_lock_param_t \<Rightarrow> fsal_lock_param_t" where
  "posix_lock lock = lock\<lparr>lock_sle_type := FSAL_POSIX_LOCK\<rparr>"

definition convert_lock_owner :: "'fs lock_env \<Rightarrow> nat \<Rightarrow> nat option \<Rightarrow> nat option" where
  "convert_lock_owner env ctx owner =
     (if fs_supports env ctx fso_lock_support_owner then owner else None)"

primrec unlock_loop ::
  "'fs lock_env \<Rightarrow> nat \<Rightarrow> nat list \<Rightarrow> state_status_t \<Rightarrow> 'fs lock_sys \<Rightarrow> state_status_t \<times> 'fs lock_sys" where
  "unlock_loop env obj [] status s = (status, s)"
| "unlock_loop env obj (found # rest) status s =
    (case lock_op env obj None FSAL_OP_UNLOCK (sle_lock (ent s found)) (fsal s) of
       (fsal_status, _, fs) \<Rightarrow>
         (let s = s\<lparr>fsal := fs\<rparr>;
              t_status = state_error_convert fsal_status;
              status = (if t_status \<noteq> STATE_SUCCESS then t_status else status)
          in unlock_loop env obj rest status (remove_from_locklist env found s)))"

definition do_unlock_no_owner ::
  "'fs lock_env \<Rightarrow> nat \<Rightarrow> nat \<Rightarrow> fsal_lock_param_t \<Rightarrow> 'fs lock_sys \<Rightarrow> state_status_t \<times> 'fs lock_sys" where
  "do_unlock_no_owner env ctx obj lock s =
    (case create_state_lock_entry env obj ctx STATE_NON_BLOCKING (unknown_owner env) None lock s of
       (unlock_entry, s) \<Rightarrow>
         (case subtract_list_from_list env [unlock_entry] (lock_list s obj) s of
            (status, fsal_unlock_list, s) \<Rightarrow> unlock_loop env obj fsal_unlock_list status s))"

type_synonym 'fs lock_result =
  "state_status_t \<times> nat option \<times> fsal_lock_param_t option \<times> 'fs lock_sys"

text \<open>The call of the lock method of the back end in \<^verbatim>\<open>do_lock_op\<close>, with its status.\<close>

definition call_lock_op ::
  "'fs lock_env \<Rightarrow> nat \<Rightarrow> nat \<Rightarrow> nat option \<Rightarrow> fsal_lock_op_t \<Rightarrow> nat option \<Rightarrow> fsal_lock_param_t \<Rightarrow>
   'fs lock_sys \<Rightarrow> state_status_t \<times> fsal_lock_param_t \<times> 'fs lock_sys" where
  "call_lock_op env ctx obj state op owner lock s =
    (let fsal_op = (if op = FSAL_OP_LOCKB \<and> \<not> fs_supports env ctx fso_lock_support_async_block
                    then FSAL_OP_LOCK else op)
     in case (if \<not> support_ex env obj
              then lock_op env obj (convert_lock_owner env ctx owner) fsal_op lock (fsal s)
              else lock_op2 env obj state (the owner) fsal_op lock (fsal s)) of
          (fsal_status, conflicting_lock, fs) \<Rightarrow>
            (let status = state_error_convert fsal_status in
             (if status = STATE_LOCK_BLOCKED \<and> fsal_op \<noteq> FSAL_OP_LOCKB then STATE_FSAL_ERROR
              else if status = STATE_LOCK_CONFLICT \<and> op = FSAL_OP_LOCKB then STATE_LOCK_BLOCKED
              else status,
              conflicting_lock, s\<lparr>fsal := fs\<rparr>)))"

text \<open>The cleared description that is the conflicting lock when no call fills it in.\<close>

definition no_lock :: fsal_lock_param_t where
  "no_lock = \<lparr>lock_sle_type = FSAL_POSIX_LOCK, lock_type = FSAL_LOCK_R, lock_start = 0,
     lock_length = 0, lock_reclaim = False\<rparr>"

definition do_lock_op ::
  "'fs lock_env \<Rightarrow> nat \<Rightarrow> nat \<Rightarrow> nat option \<Rightarrow> fsal_lock_op_t \<Rightarrow> nat option \<Rightarrow> fsal_lock_param_t \<Rightarrow>
   bool \<Rightarrow> bool \<Rightarrow> bool \<Rightarrow> 'fs lock_sys \<Rightarrow> 'fs lock_result" where
  "do_lock_op env ctx obj state op owner lock want_holder want_conflict overlap s =
    (if \<not> fs_supports env ctx fso_lock_support
        \<or> (\<not> fs_supports env ctx fso_lock_support_async_block \<and> op = FSAL_OP_CANCEL)
        \<or> (\<not> fs_supports env ctx fso_lock_support_owner \<and> overlap) then (STATE_SUCCESS, None, None, s)
     else
       (case (if fs_supports env ctx fso_lock_support_owner \<or> op \<noteq> FSAL_OP_UNLOCK
              then call_lock_op env ctx obj state op owner (posix_lock lock) s
              else (case do_unlock_no_owner env ctx obj (posix_lock lock) s of
                      (status, s) \<Rightarrow> (status, no_lock, s))) of
          (status, conflicting_lock, s) \<Rightarrow>
            if status = STATE_LOCK_CONFLICT then
              (status,
               (if want_holder then Some (unknown_owner env) else None),
               (if want_conflict then Some conflicting_lock else None),
               (if want_holder
                then s\<lparr>so_refcount := (so_refcount s)
                       (unknown_owner env := so_refcount s (unknown_owner env) + 1)\<rparr>
                else s))
            else (status, None, None, s)))"

text \<open>\<^verbatim>\<open>do_lock_op\<close> on the lock description inside an entry, with no interest in a conflict.\<close>

definition do_entry_lock_op ::
  "'fs lock_env \<Rightarrow> nat \<Rightarrow> nat \<Rightarrow> nat \<Rightarrow> fsal_lock_op_t \<Rightarrow> 'fs lock_sys \<Rightarrow> state_status_t \<times> 'fs lock_sys" where
  "do_entry_lock_op env ctx obj a op s =
    (let s = upd_ent a (sle_lock_update posix_lock) s;
         e = ent s a
     in case do_lock_op env ctx obj (sle_state e) op (sle_owner e) (sle_lock e) False False False s of
          (status, _, _, s) \<Rightarrow> (status, s))"

definition copy_conflict ::
  "nat option \<Rightarrow> bool \<Rightarrow> bool \<Rightarrow> 'fs lock_sys \<Rightarrow>
   nat option \<times> fsal_lock_param_t option \<times> 'fs lock_sys" where
  "copy_conflict found want_holder want_conflict s =
    (case found of
       None \<Rightarrow> (None, None, s)
     | Some a \<Rightarrow>
        (let e = ent s a; owner = the (sle_owner e) in
         ((if want_holder then sle_owner e else None),
          (if want_conflict then Some (sle_lock e) else None),
          (if want_holder
           then s\<lparr>so_refcount := (so_refcount s)(owner := so_refcount s owner + 1)\<rparr> else s))))"

subsection \<open>Grant cookies\<close>

definition free_cookie :: "nat \<Rightarrow> bool \<Rightarrow> 'fs lock_sys \<Rightarrow> 'fs lock_sys" where
  "free_cookie c unblock s =
    (let a = sce_lock_entry (the (cookies s c));
         s = (if unblock then
                (let s = upd_ent a (sle_block_data_update
                           (map_option (sbd_blocked_cookie_update (\<lambda>_. None)))) s
                 in lock_entry_dec_ref a s)
              else s)
     in s\<lparr>cookies := (cookies s)(c := None)\<rparr>)"

definition state_add_grant_cookie ::
  "'fs lock_env \<Rightarrow> nat \<Rightarrow> nat \<Rightarrow> uint64 \<Rightarrow> nat \<Rightarrow> 'fs lock_sys \<Rightarrow>
   state_status_t \<times> nat option \<times> 'fs lock_sys" where
  "state_add_grant_cookie env ctx obj cookie a s =
    (case sle_block_data (ent s a) of
       None \<Rightarrow> (STATE_INCONSISTENT_ENTRY, None, s)
     | Some block_data \<Rightarrow>
        if ht_lock_cookies s cookie \<noteq> None then (STATE_HASH_TABLE_ERROR, None, s)
        else
          (let c = next_cookie s;
               s = s\<lparr>next_cookie := c + 1,
                     cookies := (cookies s)(c := Some \<lparr>sce_obj = obj, sce_lock_entry = a,
                       sce_cookie = cookie\<rparr>),
                     ht_lock_cookies := (ht_lock_cookies s)(cookie := Some c)\<rparr>;
               s = lock_entry_inc_ref a s;
               s = upd_ent a (sle_block_data_update
                     (map_option (sbd_blocked_cookie_update (\<lambda>_. Some c)))) s;
               (status, s) =
                 (case sbd_grant_type block_data of
                    STATE_GRANT_NONE \<Rightarrow> (STATE_INCONSISTENT_ENTRY, s)
                  | STATE_GRANT_POLL \<Rightarrow> do_entry_lock_op env ctx obj a FSAL_OP_LOCKB s
                  | STATE_GRANT_FSAL_AVAILABLE \<Rightarrow> do_entry_lock_op env ctx obj a FSAL_OP_LOCKB s
                  | STATE_GRANT_INTERNAL \<Rightarrow> do_entry_lock_op env ctx obj a FSAL_OP_LOCK s
                  | STATE_GRANT_FSAL \<Rightarrow> (STATE_SUCCESS, s))
           in if status \<noteq> STATE_SUCCESS then (status, None, free_cookie c False s)
              else (status, Some c, s)))"

definition state_cancel_grant ::
  "'fs lock_env \<Rightarrow> nat \<Rightarrow> nat \<Rightarrow> 'fs lock_sys \<Rightarrow> state_status_t \<times> 'fs lock_sys" where
  "state_cancel_grant env ctx c s =
    (let ce = the (cookies s c);
         (status, s) = do_entry_lock_op env ctx (sce_obj ce) (sce_lock_entry ce) FSAL_OP_UNLOCK s
     in (status, free_cookie c True s))"

definition state_find_grant ::
  "uint64 \<Rightarrow> 'fs lock_sys \<Rightarrow> state_status_t \<times> nat option \<times> 'fs lock_sys" where
  "state_find_grant cookie s =
    (case ht_lock_cookies s cookie of
       None \<Rightarrow> (STATE_BAD_COOKIE, None, s)
     | Some c \<Rightarrow>
        (STATE_SUCCESS, Some c, s\<lparr>ht_lock_cookies := (ht_lock_cookies s)(cookie := None)\<rparr>))"

definition nlm_granted_callback ::
  "'fs lock_env \<Rightarrow> nat \<Rightarrow> nat \<Rightarrow> nat \<Rightarrow> 'fs lock_sys \<Rightarrow> state_status_t \<times> 'fs lock_sys" where
  "nlm_granted_callback env ctx obj a s =
    (let client = the (so_client (owners (own_env env) (the (sle_owner (ent s a)))));
         s = s\<lparr>granted_cookie := granted_cookie s + 1\<rparr>
     in case state_add_grant_cookie env ctx obj (granted_cookie s) a s of
          (status, c, s) \<Rightarrow>
            if status \<noteq> STATE_SUCCESS then (status, s)
            else
              (let s = s\<lparr>slc_refcount := (slc_refcount s)(client := slc_refcount s client + 1)\<rparr>
               in case state_async_schedule env (fsal s) of
                    (status, fs) \<Rightarrow>
                      (let s = s\<lparr>fsal := fs\<rparr> in
                       if status = STATE_SUCCESS then (status, s)
                       else
                         (let s = s\<lparr>slc_refcount := (slc_refcount s)
                                     (client := slc_refcount s client - 1)\<rparr>
                          in (status, snd (state_cancel_grant env ctx (the c) s))))))"

subsection \<open>Granting\<close>

definition try_to_grant_lock :: "'fs lock_env \<Rightarrow> nat \<Rightarrow> 'fs lock_sys \<Rightarrow> 'fs lock_sys" where
  "try_to_grant_lock env a s =
    (let export = sle_export (ent s a); blocked = sle_blocked (ent s a) in
     if blocked = STATE_CANCELED then remove_from_locklist env a s
     else if sle_block_data (ent s a) = None then remove_from_locklist env a s
     else if \<not> export_ready env export then remove_from_locklist env a s
     else
       (let s = s\<lparr>exp_refcount := (exp_refcount s)(export := exp_refcount s export + 1)\<rparr>;
            s = upd_ent a (sle_blocked_update (\<lambda>_. STATE_GRANTING)) s;
            s = upd_ent a (sle_block_data_update (map_option (sbd_grant_type_update
                  (\<lambda>g. if g = STATE_GRANT_NONE then STATE_GRANT_INTERNAL else g)))) s;
            (status, s) = nlm_granted_callback env export (sle_obj (ent s a)) a s;
            s = s\<lparr>exp_refcount := (exp_refcount s)(export := exp_refcount s export - 1)\<rparr>
        in if status = STATE_LOCK_BLOCKED then
             upd_ent a (\<lambda>e. e\<lparr>sle_blocked := blocked, sle_block_data :=
               map_option (sbd_grant_type_update (\<lambda>_. STATE_GRANT_NONE)) (sle_block_data e)\<rparr>) s
           else
             (let s = s\<lparr>state_blocked_locks := remove1 a (state_blocked_locks s)\<rparr>
              in if status = STATE_SUCCESS then s else remove_from_locklist env a s)))"

definition process_blocked_lock_upcall :: "'fs lock_env \<Rightarrow> nat \<Rightarrow> 'fs lock_sys \<Rightarrow> 'fs lock_sys" where
  "process_blocked_lock_upcall env a s =
     lock_entry_dec_ref a (try_to_grant_lock env a (lock_entry_inc_ref a s))"

primrec grant_loop ::
  "'fs lock_env \<Rightarrow> nat \<Rightarrow> nat list \<Rightarrow> 'fs lock_sys \<Rightarrow> 'fs lock_sys" where
  "grant_loop env obj [] s = s"
| "grant_loop env obj (found # rest) s =
    (let e = ent s found in
     if sle_blocked e \<noteq> STATE_NLM_BLOCKING \<and> sle_blocked e \<noteq> STATE_NFSV4_BLOCKING then
       grant_loop env obj rest s
     else if get_overlapping_entry env s obj (sle_owner e) (sle_lock e) \<noteq> None then
       grant_loop env obj rest s
     else grant_loop env obj rest (try_to_grant_lock env found s))"

definition grant_blocked_locks :: "'fs lock_env \<Rightarrow> nat \<Rightarrow> nat \<Rightarrow> 'fs lock_sys \<Rightarrow> 'fs lock_sys" where
  "grant_blocked_locks env ctx obj s =
    (if fs_supports env ctx fso_lock_support_async_block then s
     else grant_loop env obj (lock_list s obj) s)"

definition grant_blocked_lock_immediate ::
  "'fs lock_env \<Rightarrow> nat \<Rightarrow> nat \<Rightarrow> nat \<Rightarrow> 'fs lock_sys \<Rightarrow> 'fs lock_sys option" where
  "grant_blocked_lock_immediate env ctx obj a s =
    (let granted = (\<lambda>s. do {
           s \<leftarrow> merge_lock_entry env obj a (upd_ent a (sle_blocked_update (\<lambda>_. STATE_NON_BLOCKING)) s);
           Some (grant_blocked_locks env ctx obj s) })
     in case sle_block_data (ent s a) of
          None \<Rightarrow> granted s
        | Some block_data \<Rightarrow>
           (case sbd_blocked_cookie block_data of
              Some c \<Rightarrow>
               (case state_find_grant (sce_cookie (the (cookies s c))) s of
                  (status, found, s) \<Rightarrow>
                    if status = STATE_SUCCESS then granted (free_cookie (the found) True s)
                    else Some s)
            | None \<Rightarrow> granted (upd_ent a (sle_block_data_update (\<lambda>_. None)) s)))"

definition state_complete_grant ::
  "'fs lock_env \<Rightarrow> nat \<Rightarrow> nat \<Rightarrow> 'fs lock_sys \<Rightarrow> 'fs lock_sys option" where
  "state_complete_grant env ctx c s =
    (let ce = the (cookies s c); a = sce_lock_entry ce; obj = sce_obj ce in
     do {
       s \<leftarrow> (if sle_blocked (ent s a) = STATE_GRANTING then
               do {
                 s \<leftarrow> merge_lock_entry env obj a
                       (upd_ent a (sle_blocked_update (\<lambda>_. STATE_NON_BLOCKING)) s);
                 Some (grant_blocked_locks env ctx obj s) }
             else Some s);
       Some (free_cookie c True s) })"

subsection \<open>Cancelling\<close>

definition cancel_blocked_lock ::
  "'fs lock_env \<Rightarrow> nat \<Rightarrow> nat \<Rightarrow> nat \<Rightarrow> 'fs lock_sys \<Rightarrow> 'fs lock_sys" where
  "cancel_blocked_lock env ctx obj a s =
    (let s = upd_ent a (sle_blocked_update (\<lambda>_. STATE_CANCELED)) s;
         cookie = (case sle_block_data (ent s a) of
                     None \<Rightarrow> None | Some block_data \<Rightarrow> sbd_blocked_cookie block_data)
     in case cookie of
          Some c \<Rightarrow>
           (case state_find_grant (sce_cookie (the (cookies s c))) s of
              (status, found, s) \<Rightarrow>
                remove_from_locklist env a
                  (if status = STATE_SUCCESS then free_cookie (the found) True s else s))
        | None \<Rightarrow>
           (case do_entry_lock_op env ctx obj a FSAL_OP_CANCEL s of
              (status, s) \<Rightarrow>
                if status \<noteq> STATE_SUCCESS then s else remove_from_locklist env a s))"

primrec cancel_loop ::
  "'fs lock_env \<Rightarrow> nat \<Rightarrow> nat \<Rightarrow> nat option \<Rightarrow> bool \<Rightarrow> int \<Rightarrow> fsal_lock_param_t \<Rightarrow> nat list \<Rightarrow>
   'fs lock_sys \<Rightarrow> 'fs lock_sys" where
  "cancel_loop env ctx obj owner state_applies state lock [] s = s"
| "cancel_loop env ctx obj owner state_applies state lock (found # rest) s =
    (let e = ent s found in
     if owner \<noteq> None \<and> differ env (sle_owner e) owner then
       cancel_loop env ctx obj owner state_applies state lock rest s
     else if state_applies \<and> state_seqid env (the (sle_state e)) = state then
       cancel_loop env ctx obj owner state_applies state lock rest s
     else if sle_blocked e = STATE_NON_BLOCKING then
       cancel_loop env ctx obj owner state_applies state lock rest s
     else if locks_overlap (sle_lock e) lock then
       cancel_loop env ctx obj owner state_applies state lock rest
         (cancel_blocked_lock env ctx obj found s)
     else cancel_loop env ctx obj owner state_applies state lock rest s)"

definition cancel_blocked_locks_range ::
  "'fs lock_env \<Rightarrow> nat \<Rightarrow> nat \<Rightarrow> nat option \<Rightarrow> bool \<Rightarrow> int \<Rightarrow> fsal_lock_param_t \<Rightarrow>
   'fs lock_sys \<Rightarrow> 'fs lock_sys" where
  "cancel_blocked_locks_range env ctx obj owner state_applies state lock s =
     cancel_loop env ctx obj owner state_applies state lock (lock_list s obj) s"

definition state_release_grant ::
  "'fs lock_env \<Rightarrow> nat \<Rightarrow> nat \<Rightarrow> 'fs lock_sys \<Rightarrow> state_status_t \<times> 'fs lock_sys" where
  "state_release_grant env ctx c s =
    (let ce = the (cookies s c); a = sce_lock_entry ce; obj = sce_obj ce;
         (status, s) =
           (if sle_blocked (ent s a) = STATE_GRANTING then
              (case do_entry_lock_op env ctx obj a FSAL_OP_UNLOCK
                      (upd_ent a (sle_blocked_update (\<lambda>_. STATE_CANCELED)) s) of
                 (status, s) \<Rightarrow>
                   (status, if status \<noteq> STATE_SUCCESS then s else remove_from_locklist env a s))
            else (STATE_SUCCESS, s));
         s = free_cookie c True s;
         s = grant_blocked_locks env ctx obj s;
         s = (if lock_list s obj = []
              then s\<lparr>obj_refcount := (obj_refcount s)(obj := obj_refcount s obj - 1)\<rparr> else s)
     in (status, s))"

subsection \<open>Entry points\<close>

text \<open>The callers give both result pointers.\<close>

definition state_test ::
  "'fs lock_env \<Rightarrow> nat \<Rightarrow> nat \<Rightarrow> nat option \<Rightarrow> nat \<Rightarrow> fsal_lock_param_t \<Rightarrow> 'fs lock_sys \<Rightarrow> 'fs lock_result" where
  "state_test env ctx obj state owner lock s =
    (let (opened, s) =
           (if state = None \<and> \<not> support_ex env obj then
              (case fsal_open env obj FSAL_O_READ (fsal s) of (st, fs) \<Rightarrow> (st, s\<lparr>fsal := fs\<rparr>))
            else (fsalstat ERR_FSAL_NO_ERROR 0, s))
     in if FSAL_IS_ERROR opened then (state_error_convert opened, None, None, s)
        else
          (case get_overlapping_entry env s obj (Some owner) lock of
             Some found \<Rightarrow>
              (case copy_conflict (Some found) True True s of
                 (holder, conflict, s) \<Rightarrow> (STATE_LOCK_CONFLICT, holder, conflict, s))
           | None \<Rightarrow>
               do_lock_op env ctx obj state FSAL_OP_LOCKT (Some owner) lock True True False s))"

text \<open>
  The first loop of \<^verbatim>\<open>state_lock\<close>, for a blocking request: the status it returns with, if it
  does.
\<close>

primrec blocked_request_loop ::
  "'fs lock_env \<Rightarrow> nat \<Rightarrow> 'fs lock_sys \<Rightarrow> nat \<Rightarrow> state_blocking_t \<Rightarrow> fsal_lock_param_t \<Rightarrow> nat list \<Rightarrow>
   state_status_t option" where
  "blocked_request_loop env ctx s owner blocking lock [] = None"
| "blocked_request_loop env ctx s owner blocking lock (found # rest) =
    (let e = ent s found in
     if differ env (sle_owner e) (Some owner) then
       blocked_request_loop env ctx s owner blocking lock rest
     else if sle_export e \<noteq> ctx then Some STATE_INVALID_ARGUMENT
     else if sle_blocked e \<noteq> blocking then
       blocked_request_loop env ctx s owner blocking lock rest
     else if different_lock (sle_lock e) lock then
       blocked_request_loop env ctx s owner blocking lock rest
     else Some STATE_LOCK_BLOCKED)"

text \<open>
  How the second loop ends: on an entry of the owner for another export, on a conflicting entry
  (\<^verbatim>\<open>allow\<close> is false and \<^verbatim>\<open>overlap\<close> true), on an entry of the owner that has the whole
  range, or at the end of the list with the hint \<^verbatim>\<open>overlap\<close>.
\<close>

datatype scan_result = Scan_export | Scan_conflict nat | Scan_existing nat | Scan_end bool

primrec lock_scan_loop ::
  "'fs lock_env \<Rightarrow> nat \<Rightarrow> 'fs lock_sys \<Rightarrow> nat \<Rightarrow> fsal_lock_param_t \<Rightarrow> bool \<Rightarrow> nat list \<Rightarrow> scan_result" where
  "lock_scan_loop env ctx s owner lock overlap [] = Scan_end overlap"
| "lock_scan_loop env ctx s owner lock overlap (found # rest) =
    (let e = ent s found in
     if sle_export e \<noteq> ctx \<and> \<not> differ env (sle_owner e) (Some owner) then Scan_export
     else if \<not> lock_reclaim lock \<and> entry_conflicts env e (Some owner) lock then Scan_conflict found
     else if lock_end (sle_lock e) \<ge> lock_end lock
             \<and> lock_start (sle_lock e) \<le> lock_start lock
             \<and> lock_type (sle_lock e) = lock_type lock
             \<and> (sle_blocked e = STATE_NON_BLOCKING \<or> sle_blocked e = STATE_GRANTING) then
       (if \<not> differ env (sle_owner e) (Some owner) then Scan_existing found
        else lock_scan_loop env ctx s owner lock True rest)
     else lock_scan_loop env ctx s owner lock overlap rest)"

text \<open>\<^verbatim>\<open>state_lock\<close> from the point where it decides how to proceed.\<close>

definition state_lock_insert ::
  "'fs lock_env \<Rightarrow> nat \<Rightarrow> nat \<Rightarrow> nat \<Rightarrow> nat option \<Rightarrow> state_blocking_t \<Rightarrow> state_block_data_t option \<Rightarrow>
   fsal_lock_param_t \<Rightarrow> bool \<Rightarrow> bool \<Rightarrow> nat option \<Rightarrow> fsal_lock_param_t option \<Rightarrow> 'fs lock_sys \<Rightarrow>
   'fs lock_result option" where
  "state_lock_insert env ctx obj owner state blocking block_data lock allow overlap holder conflict s =
    (if blocking \<noteq> STATE_NLM_BLOCKING \<and> \<not> allow then
       Some (STATE_LOCK_CONFLICT, holder, conflict, s)
     else
       (let op = (if blocking = STATE_NLM_BLOCKING then FSAL_OP_LOCKB else FSAL_OP_LOCK);
            (found, s) = create_state_lock_entry env obj ctx STATE_NON_BLOCKING owner state lock s;
            async = fs_supports env ctx fso_lock_support_async_block;
            (status, fsal_holder, fsal_conflict, s) =
              (if allow \<or> async
               then do_lock_op env ctx obj state op (Some owner) lock allow allow overlap s
               else (STATE_LOCK_BLOCKED, None, None, s));
            holder = (if fsal_holder \<noteq> None then fsal_holder else holder);
            conflict = (if fsal_conflict \<noteq> None then fsal_conflict else conflict)
        in if status = STATE_SUCCESS then
             do {
               let s = (if lock_list s obj = []
                        then s\<lparr>obj_refcount := (obj_refcount s)(obj := obj_refcount s obj + 1)\<rparr>
                        else s);
               s \<leftarrow> merge_lock_entry env obj found s;
               let s = s\<lparr>lock_list := (lock_list s)(obj := lock_list s obj @ [found])\<rparr>;
               Some (status, holder, conflict, grant_blocked_locks env ctx obj s) }
           else if status = STATE_LOCK_CONFLICT then
             Some (status, holder, conflict, remove_from_locklist env found s)
           else if status = STATE_LOCK_BLOCKED then
             (let s = upd_ent found (\<lambda>e. e\<lparr>
                    sle_block_data := map_option (sbd_block_type_update (\<lambda>_.
                      if async then STATE_BLOCK_ASYNC
                      else if allow then STATE_BLOCK_POLL else STATE_BLOCK_INTERNAL)) block_data,
                    sle_blocked := blocking\<rparr>) s;
                  s = s\<lparr>lock_list := (lock_list s)(obj := lock_list s obj @ [found]),
                        state_blocked_locks := state_blocked_locks s @ [found]\<rparr>
              in Some (status, holder, conflict, s))
           else Some (status, holder, conflict, remove_from_locklist env found s)))"

abbreviation (input) FSAL_O_RDWR :: uint32 where "FSAL_O_RDWR \<equiv> 0x0003"

text \<open>Opening the file for a back end that does not manage descriptors itself.\<close>

definition state_lock_open ::
  "'fs lock_env \<Rightarrow> nat \<Rightarrow> nat \<Rightarrow> fsal_lock_param_t \<Rightarrow> 'fs lock_sys \<Rightarrow> fsal_status_t \<times> 'fs lock_sys" where
  "state_lock_open env ctx obj lock s =
    (if \<not> support_ex env obj then
       (case fsal_open env obj
               (if lock_type lock = FSAL_LOCK_R \<and> fs_supports env ctx fso_reopen_method
                then FSAL_O_READ else FSAL_O_RDWR) (fsal s) of
          (st, fs) \<Rightarrow> (st, s\<lparr>fsal := fs\<rparr>))
     else (fsalstat ERR_FSAL_NO_ERROR 0, s))"

text \<open>The part of \<^verbatim>\<open>state_lock\<close> that runs with the lock of the file held.\<close>

definition state_lock_search ::
  "'fs lock_env \<Rightarrow> nat \<Rightarrow> nat \<Rightarrow> nat \<Rightarrow> nat option \<Rightarrow> state_blocking_t \<Rightarrow> state_block_data_t option \<Rightarrow>
   fsal_lock_param_t \<Rightarrow> 'fs lock_sys \<Rightarrow> 'fs lock_result option" where
  "state_lock_search env ctx obj owner state blocking block_data lock s =
    (case (if blocking \<noteq> STATE_NON_BLOCKING
           then blocked_request_loop env ctx s owner blocking lock (lock_list s obj)
           else None) of
       Some status \<Rightarrow> Some (status, None, None, s)
     | None \<Rightarrow>
        (case lock_scan_loop env ctx s owner lock False (lock_list s obj) of
           Scan_export \<Rightarrow> Some (STATE_INVALID_ARGUMENT, None, None, s)
         | Scan_existing found \<Rightarrow>
            do {
              s \<leftarrow> (if sle_blocked (ent s found) = STATE_GRANTING
                    then grant_blocked_lock_immediate env ctx obj found s else Some s);
              Some (STATE_SUCCESS, None, None, s) }
         | Scan_conflict found \<Rightarrow>
            (case copy_conflict (Some found) True True s of
               (holder, conflict, s) \<Rightarrow>
                 state_lock_insert env ctx obj owner state blocking block_data lock
                   False True holder conflict s)
         | Scan_end overlap \<Rightarrow>
            state_lock_insert env ctx obj owner state blocking block_data lock
              True overlap None None s))"

definition state_lock ::
  "'fs lock_env \<Rightarrow> nat \<Rightarrow> nat \<Rightarrow> nat \<Rightarrow> nat option \<Rightarrow> state_blocking_t \<Rightarrow> state_block_data_t option \<Rightarrow>
   fsal_lock_param_t \<Rightarrow> 'fs lock_sys \<Rightarrow> 'fs lock_result option" where
  "state_lock env ctx obj owner state blocking block_data lock s =
    (case state_lock_open env ctx obj lock s of
       (opened, s) \<Rightarrow>
         if FSAL_IS_ERROR opened then Some (state_error_convert opened, None, None, s)
         else state_lock_search env ctx obj owner state blocking block_data lock s)"

definition state_unlock ::
  "'fs lock_env \<Rightarrow> nat \<Rightarrow> nat \<Rightarrow> nat option \<Rightarrow> nat option \<Rightarrow> bool \<Rightarrow> int \<Rightarrow> fsal_lock_param_t \<Rightarrow>
   'fs lock_sys \<Rightarrow> state_status_t \<times> 'fs lock_sys" where
  "state_unlock env ctx obj state owner state_applies nsm_state lock s =
    (if obj_type env obj \<noteq> REGULAR_FILE then (STATE_BAD_TYPE, s)
     else if lock_list s obj = [] then (STATE_SUCCESS, s)
     else
       (let s = cancel_blocked_locks_range env ctx obj owner state_applies nsm_state lock s
        in case subtract_lock_from_list env owner state_applies nsm_state lock (lock_list s obj) s of
             (status, removed, xs, s) \<Rightarrow>
               (let s = s\<lparr>lock_list := (lock_list s)(obj := xs)\<rparr>;
                    s = (if xs = []
                         then s\<lparr>obj_refcount := (obj_refcount s)(obj := obj_refcount s obj - 1)\<rparr>
                         else s)
                in if status \<noteq> STATE_SUCCESS then (status, s)
                   else
                     (case do_lock_op env ctx obj state FSAL_OP_UNLOCK owner lock False False False s of
                        (status, _, _, s) \<Rightarrow> (status, grant_blocked_locks env ctx obj s)))))"

primrec cancel_search ::
  "'fs lock_env \<Rightarrow> 'fs lock_sys \<Rightarrow> nat \<Rightarrow> fsal_lock_param_t \<Rightarrow> nat list \<Rightarrow> nat option" where
  "cancel_search env s owner lock [] = None"
| "cancel_search env s owner lock (found # rest) =
    (let e = ent s found in
     if differ env (sle_owner e) (Some owner) then cancel_search env s owner lock rest
     else if sle_blocked e = STATE_NON_BLOCKING then cancel_search env s owner lock rest
     else if different_lock (sle_lock e) lock then cancel_search env s owner lock rest
     else Some found)"

definition state_cancel ::
  "'fs lock_env \<Rightarrow> nat \<Rightarrow> nat \<Rightarrow> nat \<Rightarrow> fsal_lock_param_t \<Rightarrow> 'fs lock_sys \<Rightarrow>
   state_status_t \<times> 'fs lock_sys" where
  "state_cancel env ctx obj owner lock s =
    (if obj_type env obj \<noteq> REGULAR_FILE then (STATE_BAD_TYPE, s)
     else
       (case cancel_search env s owner lock (lock_list s obj) of
          None \<Rightarrow> (STATE_SUCCESS, s)
        | Some found \<Rightarrow>
           (STATE_SUCCESS, grant_blocked_locks env ctx obj (cancel_blocked_lock env ctx obj found s))))"

definition state_lock_wipe :: "'fs lock_env \<Rightarrow> nat \<Rightarrow> 'fs lock_sys \<Rightarrow> bool \<times> 'fs lock_sys" where
  "state_lock_wipe env obj s =
    (if lock_list s obj = [] then (False, s)
     else (True, free_list env (lock_list s obj) s))"

subsection \<open>Polling and upcalls\<close>

text \<open>
  The polling thread and the upcalls of a back end mark a blocked lock and schedule
  \<^verbatim>\<open>process_blocked_lock_upcall\<close> for it.  The result has the locks that are scheduled;
  \<open>None\<close> is the fatal error of an upcall for a lock that is not known.
\<close>

definition blocked_lock_polling :: "'fs lock_sys \<Rightarrow> nat list \<times> 'fs lock_sys" where
  "blocked_lock_polling s =
    (let polled = filter (\<lambda>a. case sle_block_data (ent s a) of
                     None \<Rightarrow> False
                   | Some block_data \<Rightarrow> sbd_block_type block_data = STATE_BLOCK_POLL)
                   (state_blocked_locks s)
     in (polled, fold (\<lambda>a. upd_ent a (sle_block_data_update (map_option
                   (sbd_grant_type_update (\<lambda>_. STATE_GRANT_POLL))))) polled s))"

definition find_blocked_lock_upcall ::
  "nat \<Rightarrow> nat \<Rightarrow> fsal_lock_param_t \<Rightarrow> state_grant_type_t \<Rightarrow> 'fs lock_sys \<Rightarrow> (nat \<times> 'fs lock_sys) option" where
  "find_blocked_lock_upcall obj owner lock grant_type s =
    (case find (\<lambda>a. sle_obj (ent s a) = obj \<and> sle_owner (ent s a) = Some owner
              \<and> \<not> different_lock (sle_lock (ent s a)) lock) (state_blocked_locks s) of
       None \<Rightarrow> None
     | Some a \<Rightarrow> Some (a, upd_ent a (sle_block_data_update (map_option
                   (sbd_grant_type_update (\<lambda>_. grant_type)))) s))"

definition grant_blocked_lock_upcall ::
  "nat \<Rightarrow> nat \<Rightarrow> fsal_lock_param_t \<Rightarrow> 'fs lock_sys \<Rightarrow> (nat \<times> 'fs lock_sys) option" where
  "grant_blocked_lock_upcall obj owner lock s =
     find_blocked_lock_upcall obj owner lock STATE_GRANT_FSAL s"

definition available_blocked_lock_upcall ::
  "nat \<Rightarrow> nat \<Rightarrow> fsal_lock_param_t \<Rightarrow> 'fs lock_sys \<Rightarrow> (nat \<times> 'fs lock_sys) option" where
  "available_blocked_lock_upcall obj owner lock s =
     find_blocked_lock_upcall obj owner lock STATE_GRANT_FSAL_AVAILABLE s"

end
