(* ===== verification/Lock_Bytes.thy ===== *)
theory Lock_Bytes
  imports Lock_State
begin

text \<open>
  What the list operations of \<^verbatim>\<open>SAL/state_lock.c\<close> do to the bytes that are locked.  A set of
  entries is read as the bytes its entries cover, by owner, state, status and type of lock; the
  operations of \<open>Lock_State\<close> are characterised by their effect on that reading.
\<close>

subsection \<open>Effects of the basic operations\<close>

lemma create_effect [simp]:
  "fst (create_state_lock_entry env obj export blocked owner state lock s) = next_entry s"
  "ent (snd (create_state_lock_entry env obj export blocked owner state lock s)) =
     (ent s)(next_entry s := \<lparr>sle_export = export, sle_obj = obj, sle_block_data = None,
            sle_owner = Some owner, sle_state = state, sle_blocked = blocked,
            sle_ref_count = 1, sle_lock = lock\<rparr>)"
  "next_entry (snd (create_state_lock_entry env obj export blocked owner state lock s)) =
     Suc (next_entry s)"
  "lock_list (snd (create_state_lock_entry env obj export blocked owner state lock s)) = lock_list s"
  "cookies (snd (create_state_lock_entry env obj export blocked owner state lock s)) = cookies s"
  "state_blocked_locks (snd (create_state_lock_entry env obj export blocked owner state lock s)) =
     state_blocked_locks s"
  "fsal (snd (create_state_lock_entry env obj export blocked owner state lock s)) = fsal s"
  by (cases state; simp add: create_state_lock_entry_def Let_def)+

lemma dup_effect [simp]:
  "fst (state_lock_entry_t_dup env c s) = next_entry s"
  "ent (snd (state_lock_entry_t_dup env c s)) =
     (ent s)(next_entry s := (ent s c)\<lparr>sle_block_data := None,
        sle_owner := Some (the (sle_owner (ent s c))), sle_ref_count := 1\<rparr>)"
  "next_entry (snd (state_lock_entry_t_dup env c s)) = Suc (next_entry s)"
  "lock_list (snd (state_lock_entry_t_dup env c s)) = lock_list s"
  "cookies (snd (state_lock_entry_t_dup env c s)) = cookies s"
  "state_blocked_locks (snd (state_lock_entry_t_dup env c s)) = state_blocked_locks s"
  by (cases "ent s c"; simp add: state_lock_entry_t_dup_def)+

lemma inc_ref_effect [simp]:
  "ent (lock_entry_inc_ref a s) = (ent s)(a := sle_ref_count_update (\<lambda>r. r + 1) (ent s a))"
  "lock_list (lock_entry_inc_ref a s) = lock_list s"
  "next_entry (lock_entry_inc_ref a s) = next_entry s"
  "cookies (lock_entry_inc_ref a s) = cookies s"
  by (simp_all add: lock_entry_inc_ref_def)

lemma dec_ref_effect [simp]:
  "ent (lock_entry_dec_ref a s) = (ent s)(a := sle_ref_count_update (\<lambda>r. r - 1) (ent s a))"
  "lock_list (lock_entry_dec_ref a s) = lock_list s"
  "next_entry (lock_entry_dec_ref a s) = next_entry s"
  "cookies (lock_entry_dec_ref a s) = cookies s"
  by (simp_all add: lock_entry_dec_ref_def Let_def)

lemma drop_owner_links_effect [simp]:
  "ent (drop_owner_links env a s) = ent s"
  "lock_list (drop_owner_links env a s) = lock_list s"
  "next_entry (drop_owner_links env a s) = next_entry s"
  "cookies (drop_owner_links env a s) = cookies s"
  by (simp_all add: drop_owner_links_def Let_def split: option.splits)

lemma remove_effect [simp]:
  "ent (remove_from_locklist env a s) =
     (ent s)(a := sle_ref_count_update (\<lambda>r. r - 1) ((ent s a)\<lparr>sle_owner := None\<rparr>))"
  "lock_list (remove_from_locklist env a s) =
     (lock_list s)(sle_obj (ent s a) := remove1 a (lock_list s (sle_obj (ent s a))))"
  "next_entry (remove_from_locklist env a s) = next_entry s"
  "cookies (remove_from_locklist env a s) = cookies s"
  by (simp_all add: remove_from_locklist_def Let_def)

lemma free_list_effect:
  "b \<notin> set xs \<Longrightarrow> ent (free_list env xs s) b = ent s b"
  "next_entry (free_list env xs s) = next_entry s"
  "cookies (free_list env xs s) = cookies s"
  by (induction xs arbitrary: s) (auto simp: free_list_def)

lemma free_list_gone:
  "sle_obj (ent (free_list env xs s) a) = sle_obj (ent s a)"
  "a \<in> set xs \<Longrightarrow> sle_owner (ent (free_list env xs s) a) = None"
proof -
  show "sle_obj (ent (free_list env xs s) a) = sle_obj (ent s a)" for s
    by (induction xs arbitrary: s) (auto simp: free_list_def)
  have keep: "sle_owner (ent s a) = None \<Longrightarrow> sle_owner (ent (free_list env xs s) a) = None" for s xs
    by (induction xs arbitrary: s) (auto simp: free_list_def)
  show "a \<in> set xs \<Longrightarrow> sle_owner (ent (free_list env xs s) a) = None"
    using keep [of _ xs] by (induction xs arbitrary: s) (auto simp: free_list_def keep [unfolded free_list_def])
qed

lemma free_list_lists:
  "(\<And>a. a \<in> set xs \<Longrightarrow> sle_obj (ent s a) = obj') \<Longrightarrow> obj \<noteq> obj' \<Longrightarrow>
   lock_list (free_list env xs s) obj = lock_list s obj"
proof (induction xs arbitrary: s)
  case (Cons a xs)
  have "lock_list (free_list env xs (remove_from_locklist env a s)) obj
      = lock_list (remove_from_locklist env a s) obj"
    using Cons.prems by (intro Cons.IH) auto
  then show ?case using Cons.prems by (simp add: free_list_def)
qed (simp add: free_list_def)

subsection \<open>The bytes a set of entries covers\<close>

definition covers ::
  "'fs lock_sys \<Rightarrow> nat set \<Rightarrow> nat option \<Rightarrow> nat option \<Rightarrow> state_blocking_t \<Rightarrow> fsal_lock_t \<Rightarrow> uint64 \<Rightarrow> bool" where
  "covers s A owner state blocked t x \<longleftrightarrow>
     (\<exists>a \<in> A. sle_owner (ent s a) = owner \<and> sle_state (ent s a) = state
        \<and> sle_blocked (ent s a) = blocked \<and> lock_type (sle_lock (ent s a)) = t
        \<and> x \<in> lock_bytes (sle_lock (ent s a)))"

lemma covers_un: "covers s (A \<union> B) ow st b t x \<longleftrightarrow> covers s A ow st b t x \<or> covers s B ow st b t x"
  by (auto simp: covers_def)

lemma covers_empty [simp]: "\<not> covers s {} ow st b t x"
  by (simp add: covers_def)

lemma covers_cong:
  "(\<And>a. a \<in> A \<Longrightarrow> ent s a = ent s' a) \<Longrightarrow> covers s A ow st b t x \<longleftrightarrow> covers s' A ow st b t x"
  by (auto simp: covers_def)

text \<open>The entries an operation on a list works with: they exist, have an owner and a range.\<close>

definition good_entries :: "'fs lock_sys \<Rightarrow> nat set \<Rightarrow> bool" where
  "good_entries s A \<longleftrightarrow>
     (\<forall>a \<in> A. a < next_entry s \<and> sle_owner (ent s a) \<noteq> None \<and> lock_valid (sle_lock (ent s a)))"

lemma good_entries_un [simp]: "good_entries s (A \<union> B) \<longleftrightarrow> good_entries s A \<and> good_entries s B"
  by (auto simp: good_entries_def)

lemma good_entries_mono:
  assumes "good_entries s A" "next_entry s \<le> next_entry s'"
    and "\<And>a. a \<in> A \<Longrightarrow> a < next_entry s \<Longrightarrow> ent s' a = ent s a"
  shows "good_entries s' A"
  unfolding good_entries_def
proof
  fix a assume "a \<in> A"
  with assms(1) have a: "a < next_entry s" "sle_owner (ent s a) \<noteq> None" "lock_valid (sle_lock (ent s a))"
    by (simp_all add: good_entries_def)
  with assms(2) assms(3) [OF \<open>a \<in> A\<close> a(1)]
  show "a < next_entry s' \<and> sle_owner (ent s' a) \<noteq> None \<and> lock_valid (sle_lock (ent s' a))" by simp
qed

subsection \<open>Subtracting from an entry\<close>

text \<open>Whether an entry is one the subtraction applies to.\<close>

definition subtract_hits ::
  "'fs lock_env \<Rightarrow> nat option \<Rightarrow> bool \<Rightarrow> int \<Rightarrow> nat option \<Rightarrow> nat option \<Rightarrow> state_blocking_t \<Rightarrow> bool" where
  "subtract_hits env owner state_applies state ow st b \<longleftrightarrow>
     (owner = None \<or> \<not> differ env ow owner) \<and> b = STATE_NON_BLOCKING
     \<and> \<not> (state_applies \<and> state_seqid env (the st) = state)"

lemma subtract_skips_iff:
  "subtract_skips env owner state_applies state e \<longleftrightarrow>
     \<not> subtract_hits env owner state_applies state (sle_owner e) (sle_state e) (sle_blocked e)"
  by (auto simp: subtract_skips_def subtract_hits_def)

text \<open>The two pieces that remain of a range.\<close>

lemma left_piece:
  assumes "lock_start l < lock_start r" 
  defines "k \<equiv> l\<lparr>lock_length := lock_start r - lock_start l\<rparr>"
  shows "lock_valid k" "lock_bytes k = {x. lock_start l \<le> x \<and> x < lock_start r}"
proof -
  have "lock_end k = lock_start r - 1" unfolding k_def by (rule end_before [OF assms(1)])
  then show "lock_bytes k = {x. lock_start l \<le> x \<and> x < lock_start r}"
    using le_minus_one [OF assms(1)] by (auto simp: lock_bytes_def k_def)
  then show "lock_valid k" using assms(1) by (auto simp: lock_bytes_nonempty)
qed

lemma right_piece:
  assumes "lock_end r < lock_end l"
  defines "k \<equiv> l\<lparr>lock_start := lock_end r + 1,
    lock_length := (if lock_end l = UINT64_MAX then 0 else lock_end l - lock_end r)\<rparr>"
  shows "lock_valid k" "lock_bytes k = {x. lock_end r < x \<and> x \<le> lock_end l}"
proof -
  have "lock_end k = lock_end l"
    using end_after [OF assms(1), of l] by (cases "lock_end l = UINT64_MAX") (simp_all add: k_def lock_end_def)
  then show "lock_bytes k = {x. lock_end r < x \<and> x \<le> lock_end l}"
    using plus_one_le_iff [OF assms(1)] by (auto simp: lock_bytes_def k_def)
  then show "lock_valid k" using assms(1) by (auto simp: lock_bytes_nonempty)
qed


text \<open>
  The effect of a subtraction on a list of entries: \<open>gone\<close> are the entries to be removed, \<open>new\<close>
  the new entries for what remains of them, and \<open>hit\<close> says which entries it is about.
\<close>

definition subtracted ::
  "'fs lock_sys \<Rightarrow> nat list \<Rightarrow> (nat option \<Rightarrow> nat option \<Rightarrow> state_blocking_t \<Rightarrow> bool) \<Rightarrow> fsal_lock_param_t \<Rightarrow>
   nat list \<Rightarrow> nat list \<Rightarrow> 'fs lock_sys \<Rightarrow> bool" where
  "subtracted s xs hit lock new gone s' \<longleftrightarrow>
     set gone \<subseteq> set xs \<and> set new \<subseteq> {next_entry s..<next_entry s'} \<and> distinct new
     \<and> next_entry s \<le> next_entry s' \<and> (\<forall>b < next_entry s. ent s' b = ent s b)
     \<and> lock_list s' = lock_list s \<and> cookies s' = cookies s
     \<and> good_entries s' (set new)
     \<and> (\<forall>n \<in> set new. \<exists>a \<in> set xs. sle_obj (ent s' n) = sle_obj (ent s a))
     \<and> (\<forall>ow st b t x. covers s' (set xs - set gone \<union> set new) ow st b t x \<longleftrightarrow>
          covers s (set xs) ow st b t x \<and> \<not> (hit ow st b \<and> x \<in> lock_bytes lock))"

lemma covers_single:
  "covers s {a} ow st b t x \<longleftrightarrow> sle_owner (ent s a) = ow \<and> sle_state (ent s a) = st
     \<and> sle_blocked (ent s a) = b \<and> lock_type (sle_lock (ent s a)) = t
     \<and> x \<in> lock_bytes (sle_lock (ent s a))"
  by (auto simp: covers_def)

text \<open>When the pieces are copies of the entry but for their ranges, only the bytes matter.\<close>

lemma subtracted_pieces:
  assumes "set new \<subseteq> {next_entry s..<next_entry s'}" "distinct new" "next_entry s \<le> next_entry s'"
    and "\<forall>b < next_entry s. ent s' b = ent s b" "lock_list s' = lock_list s" "cookies s' = cookies s"
    and "good_entries s {found}"
    and "\<And>n. n \<in> set new \<Longrightarrow> sle_owner (ent s' n) = sle_owner (ent s found)
        \<and> sle_state (ent s' n) = sle_state (ent s found) \<and> sle_obj (ent s' n) = sle_obj (ent s found)
        \<and> sle_blocked (ent s' n) = sle_blocked (ent s found)
        \<and> lock_type (sle_lock (ent s' n)) = lock_type (sle_lock (ent s found))
        \<and> lock_valid (sle_lock (ent s' n))"
    and bytes: "(\<Union>n \<in> set new. lock_bytes (sle_lock (ent s' n))) =
        lock_bytes (sle_lock (ent s found)) - lock_bytes lock"
  shows "subtracted s [found] (\<lambda>_ _ _. True) lock new [found] s'"
proof -
  have "covers s' (set new) ow st b t x \<longleftrightarrow> covers s {found} ow st b t x \<and> x \<notin> lock_bytes lock"
    for ow st b t x
  proof -
    have "covers s' (set new) ow st b t x \<longleftrightarrow> sle_owner (ent s found) = ow \<and> sle_state (ent s found) = st
       \<and> sle_blocked (ent s found) = b \<and> lock_type (sle_lock (ent s found)) = t
       \<and> x \<in> (\<Union>n \<in> set new. lock_bytes (sle_lock (ent s' n)))"
      using assms(8) by (auto simp: covers_def)
    then show ?thesis unfolding bytes covers_single by blast
  qed
  then show ?thesis
    using assms(1-8) by (auto simp: subtracted_def good_entries_def subset_eq)
qed

text \<open>What is done to an entry that the range covers in part.\<close>

lemma subtract_part:
  fixes s :: "'fs lock_sys" and found :: nat
  defines "l \<equiv> sle_lock (ent s found)" and "n \<equiv> next_entry s"
  assumes step: "subtract_lock_from_entry env found lock split_list remove_list s = (removed, split', remove', s')"
    and ow: "sle_owner (ent s found) = Some ow" and lt: "found < next_entry s"
    and part: "L \<or> R" "\<not> lock_end lock < lock_start l" "\<not> lock_end l < lock_start lock"
    and L: "L = (lock_start l < lock_start lock)" and R: "R = (lock_end lock < lock_end l)"
    and new: "new = (if L then [n] else []) @ (if R then [if L then Suc n else n] else [])"
    and copy: "copy = (ent s found)\<lparr>sle_block_data := None, sle_ref_count := 1\<rparr>"
  shows "split' = split_list @ new" "remove' = remove_list @ [found]"
    and "lock_list s' = lock_list s" "cookies s' = cookies s" "next_entry s' = n + length new"
    and "\<forall>b < n. ent s' b = ent s b"
    and "L \<Longrightarrow> ent s' n = copy\<lparr>sle_lock := l\<lparr>lock_length := lock_start lock - lock_start l\<rparr>\<rparr>"
    and "R \<Longrightarrow> ent s' (if L then Suc n else n) = copy\<lparr>sle_lock := l\<lparr>lock_start := lock_end lock + 1,
       lock_length := (if lock_end l = UINT64_MAX then 0 else lock_end l - lock_end lock)\<rparr>\<rparr>"
proof -
  have out: "\<not> (lock_start lock \<le> lock_start l \<and> lock_end l \<le> lock_end lock)"
    using part L R by auto
  have eq: "subtract_lock_from_entry env found lock split_list remove_list s =
    (let (sp, s1) = (if L then (split_list @ [n], upd_ent n (sle_lock_update (\<lambda>k. k\<lparr>
                            lock_length := lock_start lock - lock_start l\<rparr>))
                          (snd (state_lock_entry_t_dup env found s)))
                     else (split_list, s));
         (sp, s2) = (if R then (sp @ [next_entry s1], upd_ent (next_entry s1) (sle_lock_update (\<lambda>k.
                       k\<lparr>lock_start := lock_end lock + 1,
                         lock_length := (if lock_end l = UINT64_MAX then 0
                                            else lock_end l - lock_end lock)\<rparr>))
                          (snd (state_lock_entry_t_dup env found s1)))
                     else (sp, s1))
     in (True, sp, remove_list @ [found], s2))"
    using part(2,3) out unfolding subtract_lock_from_entry_def L R
    by (simp add: Let_def split_def l_def n_def)
  show "split' = split_list @ new" "remove' = remove_list @ [found]"
    "lock_list s' = lock_list s" "cookies s' = cookies s" "next_entry s' = n + length new"
    "\<forall>b < n. ent s' b = ent s b"
    "L \<Longrightarrow> ent s' n = copy\<lparr>sle_lock := l\<lparr>lock_length := lock_start lock - lock_start l\<rparr>\<rparr>"
    "R \<Longrightarrow> ent s' (if L then Suc n else n) = copy\<lparr>sle_lock := l\<lparr>lock_start := lock_end lock + 1,
       lock_length := (if lock_end l = UINT64_MAX then 0 else lock_end l - lock_end lock)\<rparr>\<rparr>"
    using step lt ow unfolding eq new copy l_def n_def
    by (cases L; cases R; auto)+
qed

lemma subtract_part_effect:
  fixes s :: "'fs lock_sys" and found :: nat
  defines "l \<equiv> sle_lock (ent s found)"
  assumes good: "good_entries s {found}" and valid: "lock_valid lock"
    and step: "subtract_lock_from_entry env found lock split_list remove_list s = (removed, split', remove', s')"
    and part: "lock_start l < lock_start lock \<or> lock_end lock < lock_end l"
      "\<not> lock_end lock < lock_start l" "\<not> lock_end l < lock_start lock"
  shows "\<exists>new. split' = split_list @ new \<and> remove' = remove_list @ [found]
    \<and> subtracted s [found] (\<lambda>_ _ _. True) lock new [found] s'"
proof -
  obtain ow where ow: "sle_owner (ent s found) = Some ow" and lt: "found < next_entry s"
    using good by (auto simp: good_entries_def)
  let ?n = "next_entry s"
  let ?L = "lock_start l < lock_start lock" and ?R = "lock_end lock < lock_end l"
  let ?new = "(if ?L then [?n] else []) @ (if ?R then [if ?L then Suc ?n else ?n] else [])"
  note eff = subtract_part [OF step ow lt part [unfolded l_def] refl refl refl refl, folded l_def]
  have left: "?L \<Longrightarrow> lock_bytes (sle_lock (ent s' ?n)) = {x. lock_start l \<le> x \<and> x < lock_start lock}
      \<and> lock_valid (sle_lock (ent s' ?n))"
    using eff(7) left_piece [of l lock] by simp
  have right: "?R \<Longrightarrow> lock_bytes (sle_lock (ent s' (if ?L then Suc ?n else ?n))) = {x. lock_end lock < x \<and> x \<le> lock_end l}
      \<and> lock_valid (sle_lock (ent s' (if ?L then Suc ?n else ?n)))"
    using eff(8) right_piece [of lock l] by simp
  have copies: "sle_owner (ent s' m) = sle_owner (ent s found) \<and> sle_state (ent s' m) = sle_state (ent s found)
      \<and> sle_obj (ent s' m) = sle_obj (ent s found) \<and> sle_blocked (ent s' m) = sle_blocked (ent s found)
      \<and> lock_type (sle_lock (ent s' m)) = lock_type l \<and> lock_valid (sle_lock (ent s' m))"
    if "m \<in> set ?new" for m
  proof -
    have "?L \<and> m = ?n \<or> ?R \<and> m = (if ?L then Suc ?n else ?n)"
      using that by (auto split: if_splits)
    then show ?thesis using left right eff(7,8) by (elim disjE conjE) simp_all
  qed
  have "(\<Union>m \<in> set ?new. lock_bytes (sle_lock (ent s' m))) = lock_bytes l - lock_bytes lock"
  proof -
    have "lock_bytes l - lock_bytes lock =
       {x. lock_start l \<le> x \<and> x < lock_start lock} \<union> {x. lock_end lock < x \<and> x \<le> lock_end l}"
      using part valid by (auto simp: lock_bytes_def lock_valid_def)
    moreover have "\<not> ?L \<Longrightarrow> {x. lock_start l \<le> x \<and> x < lock_start lock} = {}"
      and "\<not> ?R \<Longrightarrow> {x. lock_end lock < x \<and> x \<le> lock_end l} = {}" by auto
    ultimately show ?thesis using left right by (cases ?L; cases ?R) simp_all
  qed
  with copies have "subtracted s [found] (\<lambda>_ _ _. True) lock ?new [found] s'"
    using eff(3-6) good by (intro subtracted_pieces) (auto simp: l_def)
  then show ?thesis using eff(1,2) by blast
qed

lemma subtract_lock_from_entry_effect:
  assumes good: "good_entries s {found}" and valid: "lock_valid lock"
    and step: "subtract_lock_from_entry env found lock split_list remove_list s = (removed, split', remove', s')"
  shows "\<exists>new gone. split' = split_list @ new \<and> remove' = remove_list @ gone
    \<and> subtracted s [found] (\<lambda>_ _ _. True) lock new gone s'"
proof -
  let ?l = "sle_lock (ent s found)"
  consider (apart) "lock_end lock < lock_start ?l \<or> lock_end ?l < lock_start lock"
    | (inside) "lock_start lock \<le> lock_start ?l" "lock_end lock \<ge> lock_end ?l"
        "\<not> lock_end lock < lock_start ?l" "\<not> lock_end ?l < lock_start lock"
    | (part) "lock_start ?l < lock_start lock \<or> lock_end lock < lock_end ?l"
        "\<not> lock_end lock < lock_start ?l" "\<not> lock_end ?l < lock_start lock"
    by fastforce
  then show ?thesis
  proof cases
    case apart
    then have "subtract_lock_from_entry env found lock split_list remove_list s =
        (False, split_list, remove_list, s)"
      by (cases "lock_end lock < lock_start ?l") (simp_all add: subtract_lock_from_entry_def Let_def)
    moreover have "subtracted s [found] (\<lambda>_ _ _. True) lock [] [] s"
      using apart by (auto simp: subtracted_def good_entries_def covers_single lock_bytes_def)
    ultimately show ?thesis using step by (intro exI [of _ "[]"]) simp
  next
    case inside
    then have "subtract_lock_from_entry env found lock split_list remove_list s =
        (True, split_list, remove_list @ [found], s)"
      by (simp add: subtract_lock_from_entry_def Let_def)
    moreover have "subtracted s [found] (\<lambda>_ _ _. True) lock [] [found] s"
      using inside good by (intro subtracted_pieces) (auto simp: lock_bytes_def)
    ultimately show ?thesis using step by (intro exI [of _ "[]"] exI [of _ "[found]"]) simp
  next
    case part
    then show ?thesis using subtract_part_effect [OF good valid step] by blast
  qed
qed

subsection \<open>Subtracting from a list\<close>

lemma subtracted_skip:
  "\<not> hit (sle_owner (ent s a)) (sle_state (ent s a)) (sle_blocked (ent s a)) \<Longrightarrow>
   subtracted s [a] hit lock [] [] s"
  by (auto simp: subtracted_def good_entries_def covers_single)

lemma subtracted_hit:
  "subtracted s [a] (\<lambda>_ _ _. True) lock new gone s' \<Longrightarrow>
   hit (sle_owner (ent s a)) (sle_state (ent s a)) (sle_blocked (ent s a)) \<Longrightarrow>
   subtracted s [a] hit lock new gone s'"
  unfolding subtracted_def by (auto simp: covers_single)

lemma subtractedD:
  assumes "subtracted s xs hit lock new gone s'"
  shows "set gone \<subseteq> set xs" "\<And>n. n \<in> set new \<Longrightarrow> next_entry s \<le> n \<and> n < next_entry s'"
    and "distinct new" "next_entry s \<le> next_entry s'" "\<And>b. b < next_entry s \<Longrightarrow> ent s' b = ent s b"
    and "lock_list s' = lock_list s" "cookies s' = cookies s" "good_entries s' (set new)"
    and "\<And>n. n \<in> set new \<Longrightarrow> \<exists>a \<in> set xs. sle_obj (ent s' n) = sle_obj (ent s a)"
    and "\<And>ow st b t x. covers s' (set xs - set gone \<union> set new) ow st b t x \<longleftrightarrow>
          covers s (set xs) ow st b t x \<and> \<not> (hit ow st b \<and> x \<in> lock_bytes lock)"
  using assms by (auto simp: subtracted_def subset_eq)

text \<open>Subtracting from an entry and then from the rest of the list.\<close>

lemma subtracted_Cons:
  assumes one: "subtracted s [a] hit lock new1 gone1 s1"
    and rest: "subtracted s1 xs hit lock new2 gone2 s2"
    and good: "good_entries s (set (a # xs))" and "a \<notin> set xs"
  shows "subtracted s (a # xs) hit lock (new1 @ new2) (gone1 @ gone2) s2"
proof -
  let ?A1 = "{a} - set gone1 \<union> set new1" and ?A2 = "set xs - set gone2 \<union> set new2"
  have lt: "b < next_entry s" if "b \<in> set (a # xs)" for b
    using good that by (auto simp: good_entries_def)
  note D1 = subtractedD [OF one] and D2 = subtractedD [OF rest]
  have A1: "covers s2 ?A1 ow st b t x = covers s1 ?A1 ow st b t x" for ow st b t x
    by (rule covers_cong) (use lt [of a] D1(2,4) D2(5) in auto)
  have "covers s1 (set xs) ow st b t x = covers s (set xs) ow st b t x" for ow st b t x
    by (rule covers_cong) (use lt D1(5) in auto)
  moreover have split: "set (a # xs) - set (gone1 @ gone2) \<union> set (new1 @ new2) = ?A1 \<union> ?A2"
    using D1(1) D2(1) \<open>a \<notin> set xs\<close> by auto
  moreover have "covers s (set (a # xs)) ow st b t x \<longleftrightarrow>
      covers s {a} ow st b t x \<or> covers s (set xs) ow st b t x" for ow st b t x
    using covers_un [of s "{a}" "set xs"] by simp
  ultimately have cov: "covers s2 (set (a # xs) - set (gone1 @ gone2) \<union> set (new1 @ new2)) ow st b t x \<longleftrightarrow>
      covers s (set (a # xs)) ow st b t x \<and> \<not> (hit ow st b \<and> x \<in> lock_bytes lock)" for ow st b t x
    using D1(10) D2(10) A1 by (auto simp only: covers_un list.set)
  have "good_entries s2 (set new1)" by (rule good_entries_mono [OF D1(8) D2(4)]) (rule D2(5))
  moreover have "\<exists>b \<in> set (a # xs). sle_obj (ent s2 n) = sle_obj (ent s b)"
    if n: "n \<in> set (new1 @ new2)" for n
  proof (cases "n \<in> set new1")
    case True
    then show ?thesis using D1(2,9) D2(5) by fastforce
  next
    case False
    then obtain b where "b \<in> set xs" "sle_obj (ent s2 n) = sle_obj (ent s1 b)"
      using n D2(9) by auto
    then show ?thesis using lt D1(5) by auto
  qed
  moreover have "set (new1 @ new2) \<subseteq> {next_entry s..<next_entry s2}" "distinct (new1 @ new2)"
    using D1(2,3,4) D2(2,3,4) by fastforce+
  ultimately show ?thesis
    using D1(1,4,5,6,7) D2(1,4,5,6,7,8) cov unfolding subtracted_def by auto
qed

lemma subtract_loop_effect:
  assumes "good_entries s (set xs)" "distinct xs" "lock_valid lock"
    and "subtract_loop env owner state_applies state lock xs (removed, split_list, remove_list, s) =
      (removed', split', remove', s')"
  shows "\<exists>new gone. split' = split_list @ new \<and> remove' = remove_list @ gone
    \<and> subtracted s xs (subtract_hits env owner state_applies state) lock new gone s'"
  using assms
proof (induction xs arbitrary: removed split_list remove_list s)
  case Nil
  then show ?case by (auto simp: subtracted_def good_entries_def)
next
  case (Cons a xs)
  let ?hit = "subtract_hits env owner state_applies state"
  obtain r1 sp1 rm1 s1 new1 gone1 where
    next1: "subtract_loop env owner state_applies state lock xs (r1, sp1, rm1, s1) = (removed', split', remove', s')"
    and acc: "sp1 = split_list @ new1" "rm1 = remove_list @ gone1"
    and one: "subtracted s [a] ?hit lock new1 gone1 s1"
  proof (cases "subtract_skips env owner state_applies state (ent s a)")
    case True
    then show ?thesis
      using that [of removed split_list remove_list s "[]" "[]"] Cons.prems(4)
        subtracted_skip [of ?hit s a lock] by (simp add: subtract_skips_iff)
  next
    case False
    obtain r1 sp1 rm1 s1 where step:
      "subtract_lock_from_entry env a lock split_list remove_list s = (r1, sp1, rm1, s1)"
      by (metis prod_cases4)
    have "good_entries s {a}" using Cons.prems(1) by (simp add: good_entries_def)
    from subtract_lock_from_entry_effect [OF this Cons.prems(3) step] obtain new1 gone1
      where "sp1 = split_list @ new1" "rm1 = remove_list @ gone1"
        "subtracted s [a] (\<lambda>_ _ _. True) lock new1 gone1 s1" by blast
    then show ?thesis
      using that [of "removed \<or> r1" sp1 rm1 s1 new1 gone1] Cons.prems(4) False step
        subtracted_hit [of s a lock new1 gone1 s1 ?hit] by (simp add: subtract_skips_iff)
  qed
  have "good_entries s1 (set xs)"
    by (rule good_entries_mono [OF _ subtractedD(4) [OF one]])
       (use Cons.prems(1) subtractedD(5) [OF one] in \<open>simp_all add: good_entries_def\<close>)
  then obtain new2 gone2 where acc2: "split' = sp1 @ new2" "remove' = rm1 @ gone2"
    and two: "subtracted s1 xs ?hit lock new2 gone2 s'"
    using Cons.IH [OF _ _ Cons.prems(3) next1] Cons.prems(2) by auto
  have "subtracted s (a # xs) ?hit lock (new1 @ new2) (gone1 @ gone2) s'"
    using subtracted_Cons [OF one two Cons.prems(1)] Cons.prems(2) by simp
  then show ?case using acc acc2 by auto
qed

text \<open>The whole subtraction: the entries of the new list cover what the old ones did, less the range.\<close>

lemma subtract_lock_from_list_effect:
  assumes good: "good_entries s (set xs)" and "distinct xs" "lock_valid lock"
    and run: "subtract_lock_from_list env owner state_applies state lock xs s = (status, removed, ys, s')"
  shows "status = STATE_SUCCESS" "distinct ys" "good_entries s' (set ys)"
    and "next_entry s \<le> next_entry s'" "cookies s' = cookies s"
    and "\<And>a. a < next_entry s \<Longrightarrow> a \<notin> set xs \<Longrightarrow> ent s' a = ent s a"
    and "\<And>a. a \<in> set ys \<Longrightarrow> a \<in> set xs \<and> ent s' a = ent s a
      \<or> next_entry s \<le> a \<and> (\<exists>b \<in> set xs. sle_obj (ent s' a) = sle_obj (ent s b))"
    and "\<And>a. a < next_entry s \<Longrightarrow> sle_obj (ent s' a) = sle_obj (ent s a)"
    and "\<And>a. a \<in> set xs \<Longrightarrow> a \<notin> set ys \<Longrightarrow> sle_owner (ent s' a) = None"
    and "(\<And>a. a \<in> set xs \<Longrightarrow> sle_obj (ent s a) = obj) \<Longrightarrow> obj' \<noteq> obj \<Longrightarrow>
      lock_list s' obj' = lock_list s obj'"
    and "covers s' (set ys) ow st b t x \<longleftrightarrow> covers s (set xs) ow st b t x
      \<and> \<not> (subtract_hits env owner state_applies state ow st b \<and> x \<in> lock_bytes lock)"
proof -
  obtain removed' new gone s1 where
    loop: "subtract_loop env owner state_applies state lock xs (False, [], [], s) = (removed', new, gone, s1)"
    by (metis prod_cases4)
  then have ys: "status = STATE_SUCCESS" "ys = filter (\<lambda>a. a \<notin> set gone) xs @ new"
    and s': "s' = free_list env gone s1"
    using run by (auto simp: subtract_lock_from_list_def)
  from subtract_loop_effect [OF assms(1-3) loop]
  have sub: "subtracted s xs (subtract_hits env owner state_applies state) lock new gone s1" by auto
  note D = subtractedD [OF sub]
  have lt: "a < next_entry s" if "a \<in> set xs" for a
    using good that by (simp add: good_entries_def)
  have fresh: "n \<notin> set xs" if "n \<in> set new" for n
    using lt [of n] D(2) [OF that] by auto
  have set_ys: "set ys = set xs - set gone \<union> set new" by (auto simp: ys)
  have same: "ent s' a = ent s1 a" if "a \<in> set ys" for a
  proof -
    have "a \<notin> set gone" using that D(1) fresh by (auto simp: set_ys)
    then show ?thesis by (simp add: s' free_list_effect)
  qed
  show "status = STATE_SUCCESS" by (rule ys)
  show "distinct ys" using \<open>distinct xs\<close> D(3) fresh by (auto simp: ys)
  show "next_entry s \<le> next_entry s'" "cookies s' = cookies s"
    using D(4,7) by (simp_all add: s' free_list_effect)
  show "ent s' a = ent s a" if "a < next_entry s" "a \<notin> set xs" for a
    using that D(1,5) free_list_effect(1) [of a gone env s1] by (auto simp: s')
  show "a \<in> set xs \<and> ent s' a = ent s a
      \<or> next_entry s \<le> a \<and> (\<exists>b \<in> set xs. sle_obj (ent s' a) = sle_obj (ent s b))" if "a \<in> set ys" for a
    using that same D(2,5,9) lt by (auto simp: set_ys)
  show "sle_obj (ent s' a) = sle_obj (ent s a)" if "a < next_entry s" for a
    using D(5) [OF that] by (simp add: s' free_list_gone)
  show "sle_owner (ent s' a) = None" if "a \<in> set xs" "a \<notin> set ys" for a
    using that by (auto simp: s' set_ys free_list_gone)
  have "good_entries s1 (set xs)" by (rule good_entries_mono [OF good D(4)]) (rule D(5))
  then have "good_entries s1 (set ys)"
    using D(8) by (auto simp: good_entries_def set_ys)
  then show "good_entries s' (set ys)"
    using same by (auto simp: good_entries_def s' free_list_effect)
  show "lock_list s' obj' = lock_list s obj'"
    if "\<And>a. a \<in> set xs \<Longrightarrow> sle_obj (ent s a) = obj" "obj' \<noteq> obj"
  proof -
    have "sle_obj (ent s1 a) = obj" if "a \<in> set gone" for a
      using that D(1,5) lt \<open>\<And>a. a \<in> set xs \<Longrightarrow> sle_obj (ent s a) = obj\<close> by (metis subset_iff)
    then show ?thesis
      using free_list_lists [of gone s1 obj obj' env] \<open>obj' \<noteq> obj\<close> D(6) by (simp add: s')
  qed
  show "covers s' (set ys) ow st b t x \<longleftrightarrow> covers s (set xs) ow st b t x
      \<and> \<not> (subtract_hits env owner state_applies state ow st b \<and> x \<in> lock_bytes lock)"
    using D(10) covers_cong [of "set ys" s' s1] same by (simp add: set_ys)
qed

end
