(* ===== verification/Lock_Merge.thy ===== *)
theory Lock_Merge
  imports Lock_Bytes
begin

text \<open>
  The effect of \<^verbatim>\<open>merge_lock_entry\<close> on the bytes that are locked, and that its loop ends when
  no range wraps.  Merging looks at owners up to \<^verbatim>\<open>different_owners\<close>, so the reading of a set
  of entries used here is by owner in that sense.
\<close>

subsection \<open>The bytes an owner holds\<close>

definition held ::
  "'fs lock_env \<Rightarrow> 'fs lock_sys \<Rightarrow> nat set \<Rightarrow> state_blocking_t \<Rightarrow> fsal_lock_t \<Rightarrow> nat option \<Rightarrow> uint64 \<Rightarrow> bool" where
  "held env s A b t ow x \<longleftrightarrow>
     (\<exists>a \<in> A. \<not> differ env (sle_owner (ent s a)) ow \<and> sle_blocked (ent s a) = b
        \<and> lock_type (sle_lock (ent s a)) = t \<and> x \<in> lock_bytes (sle_lock (ent s a)))"

lemma held_covers: "held env s A b t ow x \<longleftrightarrow> (\<exists>ow' st. \<not> differ env ow' ow \<and> covers s A ow' st b t x)"
  by (auto simp: held_def covers_def)

lemma held_un: "held env s (A \<union> B) b t ow x \<longleftrightarrow> held env s A b t ow x \<or> held env s B b t ow x"
  by (auto simp: held_def)

lemma held_cong:
  "(\<And>a. a \<in> A \<Longrightarrow> ent s a = ent s' a) \<Longrightarrow> held env s A b t ow x \<longleftrightarrow> held env s' A b t ow x"
  by (auto simp: held_def)

lemma held_single:
  "held env s {a} b t ow x \<longleftrightarrow> \<not> differ env (sle_owner (ent s a)) ow \<and> sle_blocked (ent s a) = b
     \<and> lock_type (sle_lock (ent s a)) = t \<and> x \<in> lock_bytes (sle_lock (ent s a))"
  by (auto simp: held_def)

lemma held_mono: "A \<subseteq> B \<Longrightarrow> held env s A b t ow x \<Longrightarrow> held env s B b t ow x"
  by (auto simp: held_def)

text \<open>The entries the loop works on: those of the list and the entry \<open>a\<close> that is added.\<close>

definition work :: "nat \<Rightarrow> nat \<Rightarrow> 'fs lock_sys \<Rightarrow> nat set" where
  "work obj a s = insert a (set (lock_list s obj))"

definition merge_ready :: "nat \<Rightarrow> nat \<Rightarrow> 'fs lock_sys \<Rightarrow> bool" where
  "merge_ready obj a s \<longleftrightarrow> good_entries s (work obj a s) \<and> distinct (lock_list s obj)
     \<and> (\<forall>c \<in> set (lock_list s obj). sle_obj (ent s c) = obj)
     \<and> sle_blocked (ent s a) = STATE_NON_BLOCKING"

text \<open>
  What merging keeps: the added entry only grows, a byte held afterwards was held before, and a
  byte held before is held afterwards unless the added entry replaces it with its other type.
\<close>

definition merged :: "'fs lock_env \<Rightarrow> nat \<Rightarrow> nat \<Rightarrow> 'fs lock_sys \<Rightarrow> 'fs lock_sys \<Rightarrow> bool" where
  "merged env obj a s s' \<longleftrightarrow>
     merge_ready obj a s' \<and> next_entry s \<le> next_entry s' \<and> cookies s' = cookies s
     \<and> (\<forall>obj'. obj' \<noteq> obj \<longrightarrow> lock_list s' obj' = lock_list s obj')
     \<and> (\<forall>b < next_entry s. b \<notin> work obj a s \<longrightarrow> b \<notin> work obj a s' \<and> ent s' b = ent s b)
     \<and> (\<forall>b < next_entry s. sle_obj (ent s' b) = sle_obj (ent s b) \<and>
          (sle_owner (ent s' b) = None \<or>
           sle_owner (ent s' b) = sle_owner (ent s b)
           \<and> (b \<in> set (lock_list s obj) \<longrightarrow> b \<in> set (lock_list s' obj))))
     \<and> sle_owner (ent s' a) = sle_owner (ent s a)
     \<and> lock_type (sle_lock (ent s' a)) = lock_type (sle_lock (ent s a))
     \<and> lock_bytes (sle_lock (ent s a)) \<subseteq> lock_bytes (sle_lock (ent s' a))
     \<and> (a \<in> set (lock_list s' obj) \<longleftrightarrow> a \<in> set (lock_list s obj))
     \<and> (\<forall>b t ow x. held env s' (work obj a s') b t ow x \<longrightarrow> held env s (work obj a s) b t ow x)
     \<and> (\<forall>b t ow x. held env s (work obj a s) b t ow x \<longrightarrow>
          held env s' (work obj a s') b t ow x
          \<or> b = STATE_NON_BLOCKING \<and> t \<noteq> lock_type (sle_lock (ent s a))
             \<and> \<not> differ env (sle_owner (ent s a)) ow \<and> x \<in> lock_bytes (sle_lock (ent s' a)))"

lemma mergedD:
  assumes "merged env obj a s s'"
  shows "merge_ready obj a s'" "next_entry s \<le> next_entry s'" "cookies s' = cookies s"
    and "\<And>obj'. obj' \<noteq> obj \<Longrightarrow> lock_list s' obj' = lock_list s obj'"
    and "\<And>b. b < next_entry s \<Longrightarrow> b \<notin> work obj a s \<Longrightarrow> b \<notin> work obj a s' \<and> ent s' b = ent s b"
    and "\<And>b. b < next_entry s \<Longrightarrow> sle_obj (ent s' b) = sle_obj (ent s b)"
    and "\<And>b. b < next_entry s \<Longrightarrow> sle_owner (ent s' b) = None \<or>
           sle_owner (ent s' b) = sle_owner (ent s b)
           \<and> (b \<in> set (lock_list s obj) \<longrightarrow> b \<in> set (lock_list s' obj))"
    and "sle_owner (ent s' a) = sle_owner (ent s a)"
    and "lock_type (sle_lock (ent s' a)) = lock_type (sle_lock (ent s a))"
    and "lock_bytes (sle_lock (ent s a)) \<subseteq> lock_bytes (sle_lock (ent s' a))"
    and "a \<in> set (lock_list s' obj) \<longleftrightarrow> a \<in> set (lock_list s obj)"
    and "\<And>b t ow x. held env s' (work obj a s') b t ow x \<Longrightarrow> held env s (work obj a s) b t ow x"
    and "\<And>b t ow x. held env s (work obj a s) b t ow x \<Longrightarrow>
          held env s' (work obj a s') b t ow x
          \<or> b = STATE_NON_BLOCKING \<and> t \<noteq> lock_type (sle_lock (ent s a))
             \<and> \<not> differ env (sle_owner (ent s a)) ow \<and> x \<in> lock_bytes (sle_lock (ent s' a))"
  using assms unfolding merged_def by blast+

lemma mergedI:
  assumes "merge_ready obj a s'" "next_entry s \<le> next_entry s'" "cookies s' = cookies s"
    and "\<And>obj'. obj' \<noteq> obj \<Longrightarrow> lock_list s' obj' = lock_list s obj'"
    and "\<And>b. b < next_entry s \<Longrightarrow> b \<notin> work obj a s \<Longrightarrow> b \<notin> work obj a s' \<and> ent s' b = ent s b"
    and "\<And>b. b < next_entry s \<Longrightarrow> sle_obj (ent s' b) = sle_obj (ent s b) \<and>
           (sle_owner (ent s' b) = None \<or> sle_owner (ent s' b) = sle_owner (ent s b)
             \<and> (b \<in> set (lock_list s obj) \<longrightarrow> b \<in> set (lock_list s' obj)))"
    and "sle_owner (ent s' a) = sle_owner (ent s a)"
    and "lock_type (sle_lock (ent s' a)) = lock_type (sle_lock (ent s a))"
    and "lock_bytes (sle_lock (ent s a)) \<subseteq> lock_bytes (sle_lock (ent s' a))"
    and "a \<in> set (lock_list s' obj) \<longleftrightarrow> a \<in> set (lock_list s obj)"
    and "\<And>b t ow x. held env s' (work obj a s') b t ow x \<Longrightarrow> held env s (work obj a s) b t ow x"
    and "\<And>b t ow x. held env s (work obj a s) b t ow x \<Longrightarrow>
          held env s' (work obj a s') b t ow x
          \<or> b = STATE_NON_BLOCKING \<and> t \<noteq> lock_type (sle_lock (ent s a))
             \<and> \<not> differ env (sle_owner (ent s a)) ow \<and> x \<in> lock_bytes (sle_lock (ent s' a))"
  shows "merged env obj a s s'"
  unfolding merged_def using assms by blast

lemma merged_refl: "merge_ready obj a s \<Longrightarrow> merged env obj a s s"
  by (simp add: merged_def)

lemma merged_trans:
  assumes one: "merged env obj a s s1" and two: "merged env obj a s1 s2"
  shows "merged env obj a s s2"
proof -
  note D1 = mergedD [OF one] and D2 = mergedD [OF two]
  have lt: "b < next_entry s1" if "b < next_entry s" for b using that D1(2) by simp
  have "sle_owner (ent s2 b) = None \<or> sle_owner (ent s2 b) = sle_owner (ent s b)
      \<and> (b \<in> set (lock_list s obj) \<longrightarrow> b \<in> set (lock_list s2 obj))" if "b < next_entry s" for b
    using D1(7) [OF that] D2(7) [OF lt [OF that]] by auto
  moreover have "b \<notin> work obj a s2 \<and> ent s2 b = ent s b" if "b < next_entry s" "b \<notin> work obj a s" for b
    using D1(5) [OF that] D2(5) [OF lt [OF that(1)]] by simp
  moreover have "sle_obj (ent s2 b) = sle_obj (ent s b)" if "b < next_entry s" for b
    using D1(6) [OF that] D2(6) [OF lt [OF that]] by simp
  moreover have "held env s2 (work obj a s2) b t ow x
      \<or> b = STATE_NON_BLOCKING \<and> t \<noteq> lock_type (sle_lock (ent s a))
         \<and> \<not> differ env (sle_owner (ent s a)) ow \<and> x \<in> lock_bytes (sle_lock (ent s2 a))"
    if "held env s (work obj a s) b t ow x" for b t ow x
    using D1(13) [OF that] D2(13) [of b t ow x] D1(8,9) D2(10) by auto
  ultimately show ?thesis
    unfolding merged_def using D1 D2 by (simp add: subset_trans [OF D1(10) D2(10)])
qed

subsection \<open>One step\<close>

text \<open>An entry the loop passes over, and the two things it does to the others.\<close>

definition merge_skips :: "'fs lock_env \<Rightarrow> nat \<Rightarrow> nat \<Rightarrow> 'fs lock_sys \<Rightarrow> bool" where
  "merge_skips env a c s \<longleftrightarrow> c = a \<or> differ env (sle_owner (ent s c)) (sle_owner (ent s a))
     \<or> sle_blocked (ent s c) \<noteq> STATE_NON_BLOCKING
     \<or> lock_end (sle_lock (ent s c)) + 1 < lock_start (sle_lock (ent s a))
     \<or> lock_end (sle_lock (ent s a)) + 1 < lock_start (sle_lock (ent s c))"

lemma merge_step_skip: "merge_skips env a c s \<Longrightarrow> merge_step env obj a c s = (s, None)"
  by (auto simp: merge_skips_def merge_step_def Let_def)

lemma merge_step_absorb:
  assumes "\<not> merge_skips env a c s"
    and "lock_type (sle_lock (ent s c)) = lock_type (sle_lock (ent s a))
      \<or> \<not> lock_end (sle_lock (ent s a)) < lock_end (sle_lock (ent s c))
        \<and> \<not> lock_start (sle_lock (ent s c)) < lock_start (sle_lock (ent s a))"
  shows "merge_step env obj a c s = (remove_from_locklist env c (upd_ent a (sle_lock_update (\<lambda>l.
     l\<lparr>lock_start := min (lock_start (sle_lock (ent s c))) (lock_start (sle_lock (ent s a))),
       lock_length := max (lock_end (sle_lock (ent s c))) (lock_end (sle_lock (ent s a)))
         - min (lock_start (sle_lock (ent s c))) (lock_start (sle_lock (ent s a))) + 1\<rparr>)) s), None)"
proof -
  have "(if lock_end (sle_lock (ent s a)) < lock_end (sle_lock (ent s c))
         then lock_end (sle_lock (ent s c)) else lock_end (sle_lock (ent s a)))
      = max (lock_end (sle_lock (ent s c))) (lock_end (sle_lock (ent s a)))"
    and "(if lock_start (sle_lock (ent s c)) < lock_start (sle_lock (ent s a))
         then lock_start (sle_lock (ent s c)) else lock_start (sle_lock (ent s a)))
      = min (lock_start (sle_lock (ent s c))) (lock_start (sle_lock (ent s a)))"
    by (auto simp: max_def min_def)
  note ends = this
  show ?thesis
  proof (cases "lock_type (sle_lock (ent s c)) = lock_type (sle_lock (ent s a))")
    case True
    then show ?thesis
      using assms(1) unfolding merge_step_def Let_def merge_skips_def by (simp add: ends)
  next
    case False
    then show ?thesis
      using assms unfolding merge_step_def Let_def merge_skips_def ends by simp
  qed
qed

text \<open>Shrinking, in the three ways the ends can lie.\<close>

lemma merge_step_shrink:
  fixes s :: "'fs lock_sys" and a c :: nat
  defines "l \<equiv> sle_lock (ent s c)" and "k \<equiv> sle_lock (ent s a)"
  assumes "\<not> merge_skips env a c s" "lock_type l \<noteq> lock_type k"
    and lt: "c < next_entry s" and own: "sle_owner (ent s c) \<noteq> None"
  shows "lock_start l < lock_start k \<Longrightarrow> lock_end k < lock_end l \<Longrightarrow>
     \<exists>s'. merge_step env obj a c s = (s', Some (next_entry s))
       \<and> lock_list s' = (lock_list s)(obj := lock_list s obj @ [next_entry s])
       \<and> next_entry s' = Suc (next_entry s) \<and> cookies s' = cookies s
       \<and> ent s' = (ent s)(next_entry s := (ent s c)\<lparr>sle_block_data := None, sle_ref_count := 1,
             sle_lock := l\<lparr>lock_start := lock_end k + 1, lock_length := lock_end l - lock_end k\<rparr>\<rparr>,
           c := (ent s c)\<lparr>sle_lock := l\<lparr>lock_length := lock_start k - lock_start l\<rparr>\<rparr>)"
    and "lock_start l < lock_start k \<Longrightarrow> \<not> lock_end k < lock_end l \<Longrightarrow>
     merge_step env obj a c s =
       (upd_ent c (sle_lock_update (\<lambda>l. l\<lparr>lock_length := lock_start k - lock_start l\<rparr>)) s, None)"
    and "\<not> lock_start l < lock_start k \<Longrightarrow> lock_end k < lock_end l \<Longrightarrow>
     merge_step env obj a c s =
       (upd_ent c (sle_lock_update (\<lambda>m. m\<lparr>lock_start := lock_end k + 1,
          lock_length := lock_end l - lock_end k\<rparr>)) s, None)"
proof -
  obtain ow where ow: "sle_owner (ent s c) = Some ow" using own by blast
  show "\<exists>s'. merge_step env obj a c s = (s', Some (next_entry s))
       \<and> lock_list s' = (lock_list s)(obj := lock_list s obj @ [next_entry s])
       \<and> next_entry s' = Suc (next_entry s) \<and> cookies s' = cookies s
       \<and> ent s' = (ent s)(next_entry s := (ent s c)\<lparr>sle_block_data := None, sle_ref_count := 1,
             sle_lock := l\<lparr>lock_start := lock_end k + 1, lock_length := lock_end l - lock_end k\<rparr>\<rparr>,
           c := (ent s c)\<lparr>sle_lock := l\<lparr>lock_length := lock_start k - lock_start l\<rparr>\<rparr>)"
    if "lock_start l < lock_start k" "lock_end k < lock_end l"
  proof -
    obtain r s1 where dup: "state_lock_entry_t_dup env c s = (r, s1)" by fastforce
    have "r = next_entry s" "next_entry s1 = Suc (next_entry s)" "lock_list s1 = lock_list s"
      "cookies s1 = cookies s"
      "ent s1 = (ent s)(next_entry s := (ent s c)\<lparr>sle_block_data := None, sle_ref_count := 1\<rparr>)"
      using dup_effect [of env c s] dup ow by (cases "ent s c"; simp)+
    then show ?thesis
      using assms(3,4) that lt dup
      unfolding merge_step_def Let_def merge_skips_def l_def k_def by simp (cases "ent s c"; simp)
  qed
  show "merge_step env obj a c s =
       (upd_ent c (sle_lock_update (\<lambda>l. l\<lparr>lock_length := lock_start k - lock_start l\<rparr>)) s, None)"
    if "lock_start l < lock_start k" "\<not> lock_end k < lock_end l"
    using assms(3,4) that unfolding merge_step_def Let_def merge_skips_def l_def k_def
    by (cases "ent s c") simp
  show "merge_step env obj a c s =
       (upd_ent c (sle_lock_update (\<lambda>m. m\<lparr>lock_start := lock_end k + 1,
          lock_length := lock_end l - lock_end k\<rparr>)) s, None)"
    if "\<not> lock_start l < lock_start k" "lock_end k < lock_end l"
    using assms(3,4) that unfolding merge_step_def Let_def merge_skips_def l_def k_def by simp
qed

text \<open>Shrinking an entry to pieces outside the range that is added.\<close>

lemma merged_pieces:
  assumes ready: "merge_ready obj a s" and c: "c \<in> set (lock_list s obj)"
    and "\<not> merge_skips env a c s" and type: "lock_type (sle_lock (ent s c)) \<noteq> lock_type (sle_lock (ent s a))"
    and new: "new = [] \<or> new = [next_entry s]"
    and s': "lock_list s' = (lock_list s)(obj := lock_list s obj @ new)"
      "next_entry s' = next_entry s + length new" "cookies s' = cookies s"
      "\<And>b. b \<notin> insert c (set new) \<Longrightarrow> ent s' b = ent s b"
    and pieces: "\<And>p. p \<in> insert c (set new) \<Longrightarrow> sle_owner (ent s' p) = sle_owner (ent s c)
      \<and> sle_blocked (ent s' p) = sle_blocked (ent s c) \<and> sle_obj (ent s' p) = sle_obj (ent s c)
      \<and> lock_type (sle_lock (ent s' p)) = lock_type (sle_lock (ent s c)) \<and> lock_valid (sle_lock (ent s' p))"
    and bytes: "(\<Union>p \<in> insert c (set new). lock_bytes (sle_lock (ent s' p))) =
      lock_bytes (sle_lock (ent s c)) - lock_bytes (sle_lock (ent s a))"
  shows "merged env obj a s s'"
proof -
  have ca: "c \<noteq> a" and same: "\<not> differ env (sle_owner (ent s c)) (sle_owner (ent s a))"
    and nb: "sle_blocked (ent s c) = STATE_NON_BLOCKING"
    using assms(3) by (auto simp: merge_skips_def)
  have lt: "b < next_entry s" if "b \<in> work obj a s" for b
    using ready that by (simp add: merge_ready_def good_entries_def)
  have lt_c: "c < next_entry s" and lt_a: "a < next_entry s" using lt c by (auto simp: work_def)
  have old: "ent s' b = ent s b" if "b < next_entry s" "b \<noteq> c" for b
    by (rule s'(4)) (use that new in auto)
  have same_a: "ent s' a = ent s a" by (rule old [OF lt_a]) (use ca in simp)
  let ?rest = "work obj a s - {c}"
  have split: "work obj a s' = ?rest \<union> insert c (set new)" "work obj a s = ?rest \<union> {c}"
    using c ca by (auto simp: work_def s'(1))
  have rest: "held env s' ?rest b t ow x = held env s ?rest b t ow x" for b t ow x
    by (rule held_cong) (use old lt in auto)
  have "held env s' (insert c (set new)) b t ow x \<longleftrightarrow> held env s {c} b t ow x
      \<and> x \<notin> lock_bytes (sle_lock (ent s a))" for b t ow x
  proof -
    have "held env s' (insert c (set new)) b t ow x \<longleftrightarrow> \<not> differ env (sle_owner (ent s c)) ow
        \<and> sle_blocked (ent s c) = b \<and> lock_type (sle_lock (ent s c)) = t
        \<and> x \<in> (\<Union>p \<in> insert c (set new). lock_bytes (sle_lock (ent s' p)))"
      unfolding held_def by (simp only: pieces UN_iff cong: bex_cong) auto
    then show ?thesis unfolding bytes held_single by blast
  qed
  then have held': "held env s' (work obj a s') b t ow x \<longleftrightarrow> held env s ?rest b t ow x
      \<or> held env s {c} b t ow x \<and> x \<notin> lock_bytes (sle_lock (ent s a))" for b t ow x
    unfolding split(1) held_un rest by blast
  have held: "held env s (work obj a s) b t ow x \<longleftrightarrow> held env s ?rest b t ow x \<or> held env s {c} b t ow x"
    for b t ow x
    using held_un [of env s ?rest "{c}"] split(2) by simp
  have lost: "b = STATE_NON_BLOCKING \<and> t \<noteq> lock_type (sle_lock (ent s a)) \<and> \<not> differ env (sle_owner (ent s a)) ow"
    if "held env s {c} b t ow x" for b t ow x
    using that nb type same own.cong_left [OF same, of ow] by (auto simp: held_single)
  have good: "good_entries s' (work obj a s')"
  proof -
    have "good_entries s' ?rest"
      by (rule good_entries_mono [of s]) (use ready s'(2) old in \<open>auto simp: merge_ready_def good_entries_def\<close>)
    moreover have "good_entries s' (insert c (set new))"
      unfolding good_entries_def
    proof
      fix p assume p: "p \<in> insert c (set new)"
      have "sle_owner (ent s c) \<noteq> None"
        using ready c by (simp add: merge_ready_def good_entries_def work_def)
      moreover have "p < next_entry s'" using p new lt_c s'(2) by auto
      ultimately show "p < next_entry s' \<and> sle_owner (ent s' p) \<noteq> None \<and> lock_valid (sle_lock (ent s' p))"
        using pieces [OF p] by simp
    qed
    ultimately show ?thesis unfolding split(1) by (simp only: good_entries_un)
  qed
  have obj: "sle_obj (ent s' b) = obj" if "b \<in> set (lock_list s' obj)" for b
  proof (cases "b \<in> insert c (set new)")
    case True
    then show ?thesis using pieces [OF True] ready c by (simp add: merge_ready_def)
  next
    case False
    then show ?thesis using that s'(1) s'(4) [OF False] ready by (simp add: merge_ready_def)
  qed
  have dist: "distinct (lock_list s' obj)"
    using ready lt [of "next_entry s"] new s'(1) by (auto simp: merge_ready_def work_def)
  have entries: "sle_obj (ent s' b) = sle_obj (ent s b) \<and> sle_owner (ent s' b) = sle_owner (ent s b)"
    if "b < next_entry s" for b
    using that old [OF that] pieces [of c] by (cases "b = c") simp_all
  show ?thesis
  proof (rule mergedI)
    show "merge_ready obj a s'"
      using good obj dist ready same_a by (simp add: merge_ready_def)
    show "next_entry s \<le> next_entry s'" "cookies s' = cookies s" using s'(2,3) by simp_all
    show "lock_list s' obj' = lock_list s obj'" if "obj' \<noteq> obj" for obj' using s'(1) that by simp
    show "b \<notin> work obj a s' \<and> ent s' b = ent s b" if "b < next_entry s" "b \<notin> work obj a s" for b
      using that c new by (auto simp: s'(1) work_def intro!: old)
    show "sle_obj (ent s' b) = sle_obj (ent s b) \<and> (sle_owner (ent s' b) = None
        \<or> sle_owner (ent s' b) = sle_owner (ent s b) \<and> (b \<in> set (lock_list s obj) \<longrightarrow> b \<in> set (lock_list s' obj)))"
      if "b < next_entry s" for b
      using entries [OF that] s'(1) by simp
    show "a \<in> set (lock_list s' obj) \<longleftrightarrow> a \<in> set (lock_list s obj)" using s'(1) new lt_a by auto
    show "held env s (work obj a s) b t ow x" if "held env s' (work obj a s') b t ow x" for b t ow x
      using that unfolding held held' by blast
    show "held env s' (work obj a s') b t ow x \<or> b = STATE_NON_BLOCKING \<and> t \<noteq> lock_type (sle_lock (ent s a))
         \<and> \<not> differ env (sle_owner (ent s a)) ow \<and> x \<in> lock_bytes (sle_lock (ent s' a))"
      if "held env s (work obj a s) b t ow x" for b t ow x
      using that lost [of b t ow x] unfolding held held' same_a by blast
  qed (simp_all add: same_a)
qed

text \<open>Growing the added entry by one that touches or overlaps it.\<close>

lemma absorbed_bytes:
  fixes k l :: fsal_lock_param_t
  assumes "lock_valid l" "lock_valid k" "\<not> lock_end l + 1 < lock_start k" "\<not> lock_end k + 1 < lock_start l"
  defines "m \<equiv> k\<lparr>lock_start := min (lock_start l) (lock_start k),
     lock_length := max (lock_end l) (lock_end k) - min (lock_start l) (lock_start k) + 1\<rparr>"
  shows "lock_bytes m = lock_bytes l \<union> lock_bytes k" "lock_valid m"
proof -
  have "min (lock_start l) (lock_start k) \<le> max (lock_end l) (lock_end k)"
    using assms(1) by (auto simp: lock_valid_def min_def max_def)
  from end_of_span [OF this, of k] have "lock_end m = max (lock_end l) (lock_end k)" by (simp add: m_def)
  then have "lock_bytes m = {b. min (lock_start l) (lock_start k) \<le> b \<and> b \<le> max (lock_end l) (lock_end k)}"
    by (simp add: lock_bytes_def m_def)
  then show "lock_bytes m = lock_bytes l \<union> lock_bytes k" using span_is_union [OF assms(1-4)] by simp
  then show "lock_valid m" using assms(1) by (auto simp: lock_bytes_nonempty)
qed

lemma merged_absorb:
  fixes s :: "'fs lock_sys"
  assumes ready: "merge_ready obj a s" and c: "c \<in> set (lock_list s obj)"
    and skips: "\<not> merge_skips env a c s"
    and type: "lock_type (sle_lock (ent s c)) = lock_type (sle_lock (ent s a))
      \<or> \<not> lock_end (sle_lock (ent s a)) < lock_end (sle_lock (ent s c))
        \<and> \<not> lock_start (sle_lock (ent s c)) < lock_start (sle_lock (ent s a))"
    and step: "merge_step env obj a c s = (s', added)"
  shows "merged env obj a s s'" "lock_start (sle_lock (ent s' a)) \<le> lock_start (sle_lock (ent s a))"
    and "added = None" "lock_list s' = (lock_list s)(obj := remove1 c (lock_list s obj))"
    and "\<And>b. b \<noteq> a \<Longrightarrow> b \<noteq> c \<Longrightarrow> ent s' b = ent s b"
proof -
  let ?l = "sle_lock (ent s c)" and ?k = "sle_lock (ent s a)"
  define m where "m = ?k\<lparr>lock_start := min (lock_start ?l) (lock_start ?k),
     lock_length := max (lock_end ?l) (lock_end ?k) - min (lock_start ?l) (lock_start ?k) + 1\<rparr>"
  have ca: "c \<noteq> a" and same: "\<not> differ env (sle_owner (ent s c)) (sle_owner (ent s a))"
    and nb: "sle_blocked (ent s c) = STATE_NON_BLOCKING"
    and touch: "\<not> lock_end ?l + 1 < lock_start ?k" "\<not> lock_end ?k + 1 < lock_start ?l"
    using skips by (auto simp: merge_skips_def)
  have valid: "lock_valid ?l" "lock_valid ?k" and obj: "sle_obj (ent s c) = obj"
    and lt: "a < next_entry s" "c < next_entry s"
    using ready c by (auto simp: merge_ready_def good_entries_def work_def)
  have eq: "s' = remove_from_locklist env c (upd_ent a (\<lambda>e. e\<lparr>sle_lock := m\<rparr>) s)" "added = None"
    using step merge_step_absorb [OF skips type, of obj]
    by (cases "ent s a"; simp add: m_def)+
  then have s': "lock_list s' = (lock_list s)(obj := remove1 c (lock_list s obj))"
    "next_entry s' = next_entry s" "cookies s' = cookies s"
    "ent s' a = (ent s a)\<lparr>sle_lock := m\<rparr>" "\<And>b. b \<noteq> a \<Longrightarrow> b \<noteq> c \<Longrightarrow> ent s' b = ent s b"
    "sle_owner (ent s' c) = None" "sle_obj (ent s' c) = sle_obj (ent s c)"
    using ca obj by simp_all
  note m = absorbed_bytes [OF valid touch, folded m_def]
  show "added = None" "lock_list s' = (lock_list s)(obj := remove1 c (lock_list s obj))"
    "\<And>b. b \<noteq> a \<Longrightarrow> b \<noteq> c \<Longrightarrow> ent s' b = ent s b" by (fact eq(2), fact s'(1), fact s'(5))
  show "lock_start (sle_lock (ent s' a)) \<le> lock_start ?k" by (simp add: s'(4) m_def)
  have inside: "lock_bytes ?l \<subseteq> lock_bytes ?k" if "lock_type ?l \<noteq> lock_type ?k"
    using that type by (auto simp: lock_bytes_def not_less)
  let ?rest = "work obj a s - {a, c}"
  have split: "work obj a s' = ?rest \<union> {a}" "work obj a s = ?rest \<union> {a} \<union> {c}"
    using c ca ready by (auto simp: work_def s'(1) merge_ready_def)
  have rest: "held env s' ?rest b t ow x = held env s ?rest b t ow x" for b t ow x
    by (rule held_cong) (simp add: s'(5))
  have nb_a: "sle_blocked (ent s a) = STATE_NON_BLOCKING" using ready by (simp add: merge_ready_def)
  have part_a: "held env s' {a} b t ow x \<longleftrightarrow> \<not> differ env (sle_owner (ent s a)) ow \<and> b = STATE_NON_BLOCKING
      \<and> t = lock_type ?k \<and> x \<in> lock_bytes ?l \<union> lock_bytes ?k" for b t ow x
    unfolding held_single s'(4) using nb_a m(1) by (auto simp: m_def)
  have old_a: "held env s {a} b t ow x \<longleftrightarrow> \<not> differ env (sle_owner (ent s a)) ow \<and> b = STATE_NON_BLOCKING
      \<and> t = lock_type ?k \<and> x \<in> lock_bytes ?k" for b t ow x
    unfolding held_single using nb_a by auto
  have old_c: "held env s {c} b t ow x \<longleftrightarrow> \<not> differ env (sle_owner (ent s a)) ow \<and> b = STATE_NON_BLOCKING
      \<and> t = lock_type ?l \<and> x \<in> lock_bytes ?l" for b t ow x
    unfolding held_single using nb own.cong_left [OF same, of ow] by auto
  have held': "held env s' (work obj a s') b t ow x \<longleftrightarrow> held env s ?rest b t ow x \<or> held env s' {a} b t ow x"
    and held: "held env s (work obj a s) b t ow x \<longleftrightarrow>
      held env s ?rest b t ow x \<or> held env s {a} b t ow x \<or> held env s {c} b t ow x" for b t ow x
    using held_un [of env s' ?rest "{a}"] held_un [of env s "?rest \<union> {a}" "{c}"]
      held_un [of env s ?rest "{a}"] split rest by simp_all
  show "merged env obj a s s'"
  proof (rule mergedI)
    have "good_entries s' ?rest"
      by (rule good_entries_mono [of s])
        (use ready s'(2,5) in \<open>auto simp: merge_ready_def good_entries_def\<close>)
    moreover have "good_entries s' {a}"
      using ready m(2) s'(2,4) by (auto simp: merge_ready_def good_entries_def work_def)
    ultimately have "good_entries s' (work obj a s')" unfolding split(1) by (simp only: good_entries_un)
    moreover have "sle_obj (ent s' b) = obj" if "b \<in> set (lock_list s' obj)" for b
      using that ready s'(1) s'(4) s'(5) [of b] by (cases "b = a") (auto simp: merge_ready_def)
    ultimately show "merge_ready obj a s'"
      using ready s'(1,4) by (simp add: merge_ready_def)
    show "next_entry s \<le> next_entry s'" "cookies s' = cookies s" using s'(2,3) by simp_all
    show "lock_list s' obj' = lock_list s obj'" if "obj' \<noteq> obj" for obj' using s'(1) that by simp
    show "b \<notin> work obj a s' \<and> ent s' b = ent s b" if "b < next_entry s" "b \<notin> work obj a s" for b
    proof -
      have "b \<noteq> a" "b \<notin> set (lock_list s obj)" "b \<noteq> c" using that(2) c by (auto simp: work_def)
      then show ?thesis using s'(5) [of b] set_remove1_subset [of c "lock_list s obj"]
        by (auto simp: work_def s'(1))
    qed
    show "sle_obj (ent s' b) = sle_obj (ent s b) \<and> (sle_owner (ent s' b) = None
        \<or> sle_owner (ent s' b) = sle_owner (ent s b) \<and> (b \<in> set (lock_list s obj) \<longrightarrow> b \<in> set (lock_list s' obj)))"
      if "b < next_entry s" for b
    proof (cases "b = c")
      case True
      then show ?thesis using s'(6,7) by simp
    next
      case False
      have "sle_owner (ent s' b) = sle_owner (ent s b) \<and> sle_obj (ent s' b) = sle_obj (ent s b)"
      proof (cases "b = a")
        case True
        then show ?thesis by (simp add: s'(4))
      next
        case no_a: False
        show ?thesis by (simp add: s'(5) [OF no_a False])
      qed
      then show ?thesis using False by (simp add: s'(1))
    qed
    show "lock_bytes ?k \<subseteq> lock_bytes (sle_lock (ent s' a))" using m(1) s'(4) by simp
    show "a \<in> set (lock_list s' obj) \<longleftrightarrow> a \<in> set (lock_list s obj)" using s'(1) ca by simp
    show "held env s (work obj a s) b t ow x" if "held env s' (work obj a s') b t ow x" for b t ow x
      using that inside unfolding held held' part_a old_a old_c
      by (cases "lock_type ?l = lock_type ?k") auto
    show "held env s' (work obj a s') b t ow x \<or> b = STATE_NON_BLOCKING \<and> t \<noteq> lock_type ?k
         \<and> \<not> differ env (sle_owner (ent s a)) ow \<and> x \<in> lock_bytes (sle_lock (ent s' a))"
      if "held env s (work obj a s) b t ow x" for b t ow x
      using that unfolding held held' part_a old_a old_c by (auto simp: s'(4) m(1))
  qed (simp_all add: s'(4) m_def)
qed

text \<open>
  The effect of a step with what the termination argument needs: the other entries stay as they
  are, the added entry does not start later, and when the step splits an entry that starts before
  the added one, the new part does not.
\<close>

definition step_effect ::
  "'fs lock_env \<Rightarrow> nat \<Rightarrow> nat \<Rightarrow> nat \<Rightarrow> 'fs lock_sys \<Rightarrow> 'fs lock_sys \<Rightarrow> nat option \<Rightarrow> bool" where
  "step_effect env obj a c s s' added \<longleftrightarrow>
     merged env obj a s s' \<and> set (lock_list s obj) - {c} \<subseteq> set (lock_list s' obj)
     \<and> (\<forall>b < next_entry s. b \<noteq> a \<longrightarrow> b \<noteq> c \<longrightarrow> ent s' b = ent s b)
     \<and> lock_start (sle_lock (ent s' a)) \<le> lock_start (sle_lock (ent s a))
     \<and> (added = None \<or> added = Some (next_entry s) \<and> next_entry s \<in> set (lock_list s' obj)
        \<and> lock_start (sle_lock (ent s c)) < lock_start (sle_lock (ent s a))
        \<and> \<not> lock_start (sle_lock (ent s' (next_entry s))) < lock_start (sle_lock (ent s' a)))"

lemma merge_right_piece:
  assumes "lock_end k < lock_end l"
  defines "m \<equiv> l\<lparr>lock_start := lock_end k + 1, lock_length := lock_end l - lock_end k\<rparr>"
  shows "lock_valid m" "lock_bytes m = {x. lock_end k < x \<and> x \<le> lock_end l}"
proof -
  have "lock_end m = lock_end l" unfolding m_def by (rule end_after [OF assms(1)])
  then show "lock_bytes m = {x. lock_end k < x \<and> x \<le> lock_end l}"
    using plus_one_le_iff [OF assms(1)] by (auto simp: lock_bytes_def m_def)
  then show "lock_valid m" using assms(1) by (auto simp: lock_bytes_nonempty)
qed

lemma merge_pieces_bytes:
  assumes "lock_valid l" "lock_valid k" "\<not> lock_end l + 1 < lock_start k" "\<not> lock_end k + 1 < lock_start l"
  shows "lock_bytes l - lock_bytes k =
    {x. lock_start l \<le> x \<and> x < lock_start k} \<union> {x. lock_end k < x \<and> x \<le> lock_end l}"
proof -
  have "x \<in> lock_bytes l \<union> lock_bytes k"
    if "lock_start l \<le> x \<and> x < lock_start k \<or> lock_end k < x \<and> x \<le> lock_end l" for x
    unfolding span_is_union [OF assms, symmetric] using that assms(1,2)
    by (auto simp: lock_valid_def min_def max_def)
  note inside = this
  show ?thesis
  proof (rule set_eqI)
    fix x
    show "x \<in> lock_bytes l - lock_bytes k \<longleftrightarrow>
      x \<in> {x. lock_start l \<le> x \<and> x < lock_start k} \<union> {x. lock_end k < x \<and> x \<le> lock_end l}"
      using inside [of x] assms(2) by (auto simp: lock_bytes_def lock_valid_def not_le)
  qed
qed

lemma step_effect_shrink:
  fixes s :: "'fs lock_sys" and a c :: nat
  defines "l \<equiv> sle_lock (ent s c)" and "k \<equiv> sle_lock (ent s a)"
  assumes ready: "merge_ready obj a s" and c: "c \<in> set (lock_list s obj)"
    and skips: "\<not> merge_skips env a c s" and type: "lock_type l \<noteq> lock_type k"
    and part: "lock_end k < lock_end l \<or> lock_start l < lock_start k"
    and step: "merge_step env obj a c s = (s', added)"
  shows "step_effect env obj a c s s' added"
proof -
  have valid: "lock_valid l" "lock_valid k" and own: "sle_owner (ent s c) \<noteq> None"
    and lt: "a < next_entry s" "c < next_entry s"
    using ready c by (auto simp: merge_ready_def good_entries_def work_def l_def k_def)
  have touch: "\<not> lock_end l + 1 < lock_start k" "\<not> lock_end k + 1 < lock_start l" and ca: "c \<noteq> a"
    using skips by (auto simp: merge_skips_def l_def k_def)
  note eqs = merge_step_shrink [OF skips type [unfolded l_def k_def] lt(2) own, folded l_def k_def]
  note merged = merged_pieces [OF ready c skips type [unfolded l_def k_def], folded l_def k_def]
  note bytes = merge_pieces_bytes [OF valid touch]
  consider (both) "lock_start l < lock_start k" "lock_end k < lock_end l"
    | (left) "lock_start l < lock_start k" "\<not> lock_end k < lock_end l"
    | (right) "\<not> lock_start l < lock_start k" "lock_end k < lock_end l"
    using part by blast
  then show ?thesis
  proof cases
    case both
    let ?n = "next_entry s"
    from eqs(1) [OF both, of obj] step obtain s: "added = Some ?n"
      "lock_list s' = (lock_list s)(obj := lock_list s obj @ [?n])" "next_entry s' = Suc ?n"
      "cookies s' = cookies s" and e: "ent s' = (ent s)(?n := (ent s c)\<lparr>sle_block_data := None,
           sle_ref_count := 1, sle_lock := l\<lparr>lock_start := lock_end k + 1, lock_length := lock_end l - lock_end k\<rparr>\<rparr>,
         c := (ent s c)\<lparr>sle_lock := l\<lparr>lock_length := lock_start k - lock_start l\<rparr>\<rparr>)"
      by auto
    have "merged env obj a s s'"
      by (rule merged [of "[?n]"])
        (use s(2-4) lt(2) left_piece [OF both(1)] merge_right_piece [OF both(2)] bytes in
          \<open>auto simp: e l_def k_def\<close>)
    then show ?thesis
      using s lt ca both(1) valid(2) plus_one_le_iff [OF both(2), of "lock_start k"]
      by (auto simp: step_effect_def e lock_valid_def l_def k_def not_less)
  next
    case left
    then have s: "added = None" "s' = upd_ent c (sle_lock_update (\<lambda>l. l\<lparr>lock_length := lock_start k - lock_start l\<rparr>)) s"
      using eqs(2) [OF left, of obj] step by auto
    have left_only: "lock_bytes l - lock_bytes k = {x. lock_start l \<le> x \<and> x < lock_start k}"
      unfolding bytes using left(2) by auto
    have "merged env obj a s s'"
      by (rule merged [of "[]"])
        (use left_piece [OF left(1)] left_only in \<open>simp_all add: s(2) flip: l_def k_def\<close>)
    then show ?thesis using ca by (auto simp: step_effect_def s)
  next
    case right
    then have s: "added = None" "s' = upd_ent c (sle_lock_update (\<lambda>m. m\<lparr>lock_start := lock_end k + 1,
          lock_length := lock_end l - lock_end k\<rparr>)) s"
      using eqs(3) [OF right, of obj] step by auto
    have right_only: "lock_bytes l - lock_bytes k = {x. lock_end k < x \<and> x \<le> lock_end l}"
      unfolding bytes using right(1) by auto
    have "merged env obj a s s'"
      by (rule merged [of "[]"])
        (use merge_right_piece [OF right(2)] right_only in \<open>simp_all add: s(2) flip: l_def k_def\<close>)
    then show ?thesis using ca by (auto simp: step_effect_def s)
  qed
qed

lemma merge_step_effect:
  assumes ready: "merge_ready obj a s" and c: "c \<in> set (lock_list s obj)"
    and step: "merge_step env obj a c s = (s', added)"
  shows "step_effect env obj a c s s' added"
proof -
  let ?l = "sle_lock (ent s c)" and ?k = "sle_lock (ent s a)"
  consider (skip) "merge_skips env a c s"
    | (absorb) "\<not> merge_skips env a c s" "lock_type ?l = lock_type ?k
        \<or> \<not> lock_end ?k < lock_end ?l \<and> \<not> lock_start ?l < lock_start ?k"
    | (shrink) "\<not> merge_skips env a c s" "lock_type ?l \<noteq> lock_type ?k"
        "lock_end ?k < lock_end ?l \<or> lock_start ?l < lock_start ?k"
    by blast
  then show ?thesis
  proof cases
    case skip
    then show ?thesis
      using step merge_step_skip [OF skip] merged_refl [OF ready] by (simp add: step_effect_def)
  next
    case absorb
    have "distinct (lock_list s obj)" using ready by (simp add: merge_ready_def)
    then show ?thesis
      using merged_absorb [OF ready c absorb step] by (simp add: step_effect_def set_remove1_eq)
  qed (rule step_effect_shrink [OF ready c _ _ _ step])
qed

subsection \<open>The loop\<close>

text \<open>
  How much work is left: an entry that starts before the added one can be split once more, and
  none of the others can, nor can the parts of a split.
\<close>

definition merge_weight :: "nat \<Rightarrow> 'fs lock_sys \<Rightarrow> nat \<Rightarrow> nat" where
  "merge_weight a s c =
     (if lock_start (sle_lock (ent s c)) < lock_start (sle_lock (ent s a)) then 2 else 1)"

definition merge_measure :: "nat \<Rightarrow> 'fs lock_sys \<Rightarrow> nat list \<Rightarrow> nat" where
  "merge_measure a s todo = sum_list (map (merge_weight a s) todo)"

lemma merge_measure_le:
  assumes "step_effect env obj a c s s' added" "c \<notin> set rest" 
    and "\<And>b. b \<in> set rest \<Longrightarrow> b < next_entry s"
  shows "merge_measure a s' rest \<le> merge_measure a s rest"
proof -
  have "merge_weight a s' b \<le> merge_weight a s b" if "b \<in> set rest" for b
  proof (cases "b = a")
    case False
    moreover have "b \<noteq> c" using that assms(2) by blast
    ultimately have "ent s' b = ent s b" using assms(1) assms(3) [OF that] by (simp add: step_effect_def)
    then show ?thesis using assms(1) by (auto simp: merge_weight_def step_effect_def)
  qed (simp add: merge_weight_def)
  then show ?thesis unfolding merge_measure_def by (rule sum_list_mono)
qed

lemma merge_loop_Cons:
  "merge_loop env obj a [] s = Some s"
  "merge_loop env obj a (c # rest) s =
     (case merge_step env obj a c s of
        (s', None) \<Rightarrow> merge_loop env obj a rest s'
      | (s', Some r) \<Rightarrow> merge_loop env obj a (if rest = [] then [] else rest @ [r]) s')"
  by (subst merge_loop.simps, simp)+

text \<open>The loop ends and has the effect of its steps.\<close>

lemma merge_loop_ends:
  assumes "merge_ready obj a s" "set todo \<subseteq> set (lock_list s obj)" "distinct todo"
  shows "\<exists>s'. merge_loop env obj a todo s = Some s' \<and> merged env obj a s s'"
  using assms
proof (induction "merge_measure a s todo" arbitrary: s todo rule: less_induct)
  case less
  show ?case
  proof (cases todo)
    case Nil
    then show ?thesis using less.prems by (simp add: merge_loop_Cons merged_refl)
  next
    case (Cons c rest)
    obtain s1 added where step: "merge_step env obj a c s = (s1, added)" by fastforce
    have c: "c \<in> set (lock_list s obj)" and notin: "c \<notin> set rest" and dist: "distinct rest"
      using less.prems Cons by auto
    have old: "b < next_entry s" if "b \<in> set (lock_list s obj)" for b
      using less.prems(1) that by (simp add: merge_ready_def good_entries_def work_def)
    have rest_old: "b < next_entry s" if "b \<in> set rest" for b
      using that less.prems(2) Cons old by auto
    note eff = merge_step_effect [OF less.prems(1) c step]
    then have merged: "merged env obj a s s1" and sub: "set rest \<subseteq> set (lock_list s1 obj)"
      using less.prems(2) notin Cons by (auto simp: step_effect_def)
    define todo' where "todo' = (case added of None \<Rightarrow> rest | Some r \<Rightarrow> if rest = [] then [] else rest @ [r])"
    have eq: "merge_loop env obj a todo s = merge_loop env obj a todo' s1"
      by (simp add: Cons merge_loop_Cons step todo'_def split: option.split)
    have "merge_measure a s1 rest \<le> merge_measure a s rest"
      by (rule merge_measure_le [OF eff notin rest_old])
    then have "merge_measure a s1 todo' < merge_measure a s todo"
      using eff by (auto simp: Cons todo'_def merge_measure_def merge_weight_def step_effect_def)
    moreover have "set todo' \<subseteq> set (lock_list s1 obj)" "distinct todo'"
      using sub dist eff rest_old [of "next_entry s"]
      by (auto simp: todo'_def step_effect_def split: if_splits)
    ultimately obtain s' where "merge_loop env obj a todo' s1 = Some s'" "merged env obj a s1 s'"
      using less.hyps mergedD(1) [OF merged] by blast
    then show ?thesis using eq merged_trans [OF merged] by auto
  qed
qed

lemma merge_lock_entry_ends:
  "merge_ready obj a s \<Longrightarrow> \<exists>s'. merge_lock_entry env obj a s = Some s' \<and> merged env obj a s s'"
  unfolding merge_lock_entry_def by (rule merge_loop_ends) (simp_all add: merge_ready_def)

end
