(* ===== verification/Lock_Frame.thy ===== *)
theory Lock_Frame
  imports Lock_Ops Lock_Merge
begin

text \<open>
  What the operations of \<open>Lock_Ops\<close> leave alone.  Calls into the back end, reference counting
  and the grant cookies do not change which entries are on the lists of files, nor owner, status
  and range of an entry: the entry \<^verbatim>\<open>do_unlock_no_owner\<close> works with is a new one that is on no
  list of a file.
\<close>

definition core_eq :: "state_lock_entry_t \<Rightarrow> state_lock_entry_t \<Rightarrow> bool" where
  "core_eq e e' \<longleftrightarrow> sle_obj e' = sle_obj e \<and> sle_owner e' = sle_owner e \<and> sle_blocked e' = sle_blocked e
     \<and> lock_type (sle_lock e') = lock_type (sle_lock e) \<and> lock_start (sle_lock e') = lock_start (sle_lock e)
     \<and> lock_length (sle_lock e') = lock_length (sle_lock e)"

lemma core_eq_refl [simp]: "core_eq e e"
  by (simp add: core_eq_def)

lemma core_eq_trans: "core_eq e1 e2 \<Longrightarrow> core_eq e2 e3 \<Longrightarrow> core_eq e1 e3"
  by (simp add: core_eq_def)

lemma core_eq_range: "core_eq e e' \<Longrightarrow> lock_end (sle_lock e') = lock_end (sle_lock e)"
  "core_eq e e' \<Longrightarrow> lock_bytes (sle_lock e') = lock_bytes (sle_lock e)"
  "core_eq e e' \<Longrightarrow> lock_valid (sle_lock e') = lock_valid (sle_lock e)"
  by (simp_all add: core_eq_def lock_end_def lock_bytes_def lock_valid_def)

text \<open>
  The entries below \<open>n\<close> keep their core, the lists of files stay, and a cookie that is there
  afterwards was there before or is one of \<open>G\<close>.
\<close>

definition quiet :: "(nat \<times> nat) set \<Rightarrow> nat \<Rightarrow> 'fs lock_sys \<Rightarrow> 'fs lock_sys \<Rightarrow> bool" where
  "quiet G n s s' \<longleftrightarrow> next_entry s \<le> next_entry s' \<and> lock_list s' = lock_list s
     \<and> (\<forall>a < n. core_eq (ent s a) (ent s' a))
     \<and> (\<forall>c ce. cookies s' c = Some ce \<longrightarrow>
          cookies s c = Some ce \<or> (sce_lock_entry ce, sce_obj ce) \<in> G)"

definition bounded :: "nat \<Rightarrow> 'fs lock_sys \<Rightarrow> bool" where
  "bounded n s \<longleftrightarrow> n \<le> next_entry s \<and> (\<forall>obj. \<forall>a \<in> set (lock_list s obj). a < n)"

named_theorems quiet_intro \<open>operations that are quiet\<close>

lemma quiet_refl [simp]: "quiet G n s s"
  by (simp add: quiet_def)

lemma quiet_trans [trans]: "quiet G n s s1 \<Longrightarrow> quiet G n s1 s2 \<Longrightarrow> quiet G n s s2"
  unfolding quiet_def by (intro conjI allI impI) (simp, simp, blast intro: core_eq_trans, blast)

lemma quiet_mono: "quiet G n s s' \<Longrightarrow> G \<subseteq> H \<Longrightarrow> quiet H n s s'"
  unfolding quiet_def by blast

lemma quiet_bounded: "quiet G n s s' \<Longrightarrow> bounded n s \<Longrightarrow> bounded n s'"
  by (auto simp: quiet_def bounded_def)

text \<open>An update of fields that are not looked at.\<close>

lemma quiet_same:
  "next_entry s' = next_entry s1 \<Longrightarrow> lock_list s' = lock_list s1 \<Longrightarrow> ent s' = ent s1 \<Longrightarrow>
   cookies s' = cookies s1 \<Longrightarrow> quiet G n s s' \<longleftrightarrow> quiet G n s s1"
  by (simp add: quiet_def)

lemma quiet_fields [simp]:
  "quiet G n s (s1\<lparr>fsal := f\<rparr>) \<longleftrightarrow> quiet G n s s1"
  "quiet G n s (s1\<lparr>so_refcount := r\<rparr>) \<longleftrightarrow> quiet G n s s1"
  "quiet G n s (s1\<lparr>slc_refcount := r\<rparr>) \<longleftrightarrow> quiet G n s s1"
  "quiet G n s (s1\<lparr>obj_refcount := r\<rparr>) \<longleftrightarrow> quiet G n s s1"
  "quiet G n s (s1\<lparr>exp_refcount := r\<rparr>) \<longleftrightarrow> quiet G n s s1"
  "quiet G n s (s1\<lparr>granted_cookie := g\<rparr>) \<longleftrightarrow> quiet G n s s1"
  "quiet G n s (s1\<lparr>ht_lock_cookies := h\<rparr>) \<longleftrightarrow> quiet G n s s1"
  "quiet G n s (s1\<lparr>state_blocked_locks := l\<rparr>) \<longleftrightarrow> quiet G n s s1"
  by (simp_all add: quiet_def)

lemma quiet_upd_ent:
  "quiet G n s s1 \<Longrightarrow> core_eq (ent s1 a) (f (ent s1 a)) \<Longrightarrow> quiet G n s (upd_ent a f s1)"
  by (rule quiet_trans [of G n s s1]) (auto simp: quiet_def)

lemma quiet_create [quiet_intro]:
  "n \<le> next_entry s \<Longrightarrow> quiet G n s (snd (create_state_lock_entry env obj export b owner state lock s))"
  by (simp add: quiet_def)

lemma quiet_inc_ref [quiet_intro]: "quiet G n s (lock_entry_inc_ref a s)"
  by (auto simp: quiet_def core_eq_def)

lemma quiet_dec_ref [quiet_intro]: "quiet G n s (lock_entry_dec_ref a s)"
  by (auto simp: quiet_def core_eq_def)

lemma quiet_remove:
  assumes "bounded n s" "n \<le> a"
  shows "quiet G n s (remove_from_locklist env a s)"
proof -
  have "a \<notin> set (lock_list s (sle_obj (ent s a)))" using assms by (fastforce simp: bounded_def)
  then show ?thesis using assms by (auto simp: quiet_def remove1_idem)
qed

lemma quiet_free_list:
  "bounded n s \<Longrightarrow> \<forall>a \<in> set xs. n \<le> a \<Longrightarrow> quiet G n s (free_list env xs s)"
proof (induction xs arbitrary: s)
  case (Cons a xs)
  let ?s = "remove_from_locklist env a s"
  have "quiet G n s ?s" using Cons.prems by (intro quiet_remove) auto
  moreover have "quiet G n ?s (free_list env xs ?s)"
    using Cons.prems quiet_bounded [OF \<open>quiet G n s ?s\<close>] by (intro Cons.IH) auto
  ultimately show ?case by (simp add: free_list_def quiet_trans)
qed (simp add: free_list_def)

subsection \<open>Unlocking without owners\<close>

text \<open>Subtracting creates entries and leaves the old ones alone, whatever the ranges are.\<close>

lemma quiet_piece:
  assumes "n \<le> next_entry s"
    and "(if p then (let (r, s) = state_lock_entry_t_dup env c s; s = upd_ent r f s in (xs @ [r], s))
          else (xs, s)) = (ys, s')"
  shows "quiet G n s s'" "n \<le> next_entry s'" "set ys \<subseteq> set xs \<union> {n..}"
  using assms dup_effect [of env c s] by (auto simp: quiet_def split_def Let_def split: if_splits)

lemma quiet_subtract_entry:
  assumes n: "n \<le> next_entry s"
    and step: "subtract_lock_from_entry env found lock split_list remove_list s = (removed, split', remove', s')"
  shows "quiet G n s s'" "n \<le> next_entry s'" "set split' \<subseteq> set split_list \<union> {n..}"
    and "set remove' \<subseteq> insert found (set remove_list)"
proof -
  let ?l = "sle_lock (ent s found)"
  consider "s' = s" "split' = split_list" "set remove' \<subseteq> insert found (set remove_list)"
    | sp1 s1 where "(if lock_start lock > lock_start ?l then
               (let (r, s) = state_lock_entry_t_dup env found s;
                    s = upd_ent r (sle_lock_update (\<lambda>k. k\<lparr>lock_length := lock_start lock - lock_start ?l\<rparr>)) s
                in (split_list @ [r], s)) else (split_list, s)) = (sp1, s1)"
      "(if lock_end lock < lock_end ?l then
               (let (r, s) = state_lock_entry_t_dup env found s1;
                    s = upd_ent r (sle_lock_update (\<lambda>k. k\<lparr>lock_start := lock_end lock + 1,
                          lock_length := (if lock_end ?l = UINT64_MAX then 0 else lock_end ?l - lock_end lock)\<rparr>)) s
                in (sp1 @ [r], s)) else (sp1, s1)) = (split', s')"
      "remove' = remove_list @ [found]"
    using step unfolding subtract_lock_from_entry_def Let_def
    by (auto split: if_splits prod.splits)
  then have "quiet G n s s' \<and> n \<le> next_entry s' \<and> set split' \<subseteq> set split_list \<union> {n..}
    \<and> set remove' \<subseteq> insert found (set remove_list)"
  proof cases
    case 2
    note one = quiet_piece [OF n 2(1)]
    note two = quiet_piece [OF one(2) 2(2)]
    show ?thesis using one two 2(3) quiet_trans [OF one(1) two(1)] by auto
  qed (use n in simp)
  then show "quiet G n s s'" "n \<le> next_entry s'" "set split' \<subseteq> set split_list \<union> {n..}"
    "set remove' \<subseteq> insert found (set remove_list)" by blast+
qed

lemma quiet_subtract_loop:
  assumes "n \<le> next_entry s"
    and "subtract_loop env owner state_applies state lock xs (removed, split_list, remove_list, s) =
      (removed', split', remove', s')"
  shows "quiet G n s s' \<and> n \<le> next_entry s' \<and> set split' \<subseteq> set split_list \<union> {n..}
    \<and> set remove' \<subseteq> set remove_list \<union> set xs"
  using assms
proof (induction xs arbitrary: removed split_list remove_list s)
  case (Cons a xs)
  show ?case
  proof (cases "subtract_skips env owner state_applies state (ent s a)")
    case True
    then show ?thesis using Cons.IH [OF Cons.prems(1)] Cons.prems(2) by fastforce
  next
    case False
    obtain r1 sp1 rm1 s1 where step:
      "subtract_lock_from_entry env a lock split_list remove_list s = (r1, sp1, rm1, s1)"
      by (metis prod_cases4)
    note one = quiet_subtract_entry [OF Cons.prems(1) step]
    have "subtract_loop env owner state_applies state lock xs (removed \<or> r1, sp1, rm1, s1) =
      (removed', split', remove', s')"
      using Cons.prems(2) False step by simp
    from Cons.IH [OF one(2) this] show ?thesis
      using one(3,4) quiet_trans [OF one(1) [of G]] by fastforce
  qed
qed simp

lemma quiet_subtract_list:
  assumes "bounded n s" "\<forall>a \<in> set xs. n \<le> a"
    and "subtract_lock_from_list env owner state_applies state lock xs s = (status, removed, ys, s')"
  shows "quiet G n s s' \<and> (\<forall>a \<in> set ys. n \<le> a) \<and> status = STATE_SUCCESS"
proof -
  obtain removed' new gone s1 where
    loop: "subtract_loop env owner state_applies state lock xs (False, [], [], s) = (removed', new, gone, s1)"
    by (metis prod_cases4)
  have n: "n \<le> next_entry s" using assms(1) by (simp add: bounded_def)
  note eff = quiet_subtract_loop [OF n loop, of G]
  then have "quiet G n s1 (free_list env gone s1)"
    using assms(1,2) quiet_bounded [of G n s s1] by (intro quiet_free_list) auto
  then show ?thesis
    using assms(2,3) eff loop quiet_trans [of G n s s1]
    by (auto simp: subtract_lock_from_list_def)
qed

lemma quiet_subtract_lists:
  assumes "bounded n s" "\<forall>a \<in> set target. n \<le> a"
    and "subtract_list_from_list env target source s = (status, ys, s')"
  shows "quiet G n s s' \<and> (\<forall>a \<in> set ys. n \<le> a)"
  using assms
proof (induction source arbitrary: target s)
  case (Cons found source)
  obtain st removed ys1 s1 where
    step: "subtract_lock_from_list env None False 0 (sle_lock (ent s found)) target s = (st, removed, ys1, s1)"
    by (metis prod_cases4)
  note one = quiet_subtract_list [OF Cons.prems(1,2) step, of G]
  then have "subtract_list_from_list env ys1 source s1 = (status, ys, s')"
    using Cons.prems(3) step by simp
  from Cons.IH [OF _ _ this] show ?case
    using one quiet_bounded [of G n s s1] Cons.prems(1) quiet_trans [of G n s s1] by blast
qed simp

lemma quiet_unlock_loop:
  "bounded n s \<Longrightarrow> \<forall>a \<in> set xs. n \<le> a \<Longrightarrow> unlock_loop env obj xs status s = (status', s') \<Longrightarrow>
   quiet G n s s'"
proof (induction xs arbitrary: status s)
  case (Cons a xs)
  obtain st l fs where op: "lock_op env obj None FSAL_OP_UNLOCK (sle_lock (ent s a)) (fsal s) = (st, l, fs)"
    by (metis prod_cases3)
  let ?s = "remove_from_locklist env a (s\<lparr>fsal := fs\<rparr>)"
  have one: "quiet G n s ?s"
    using Cons.prems(1,2) quiet_remove [of n "s\<lparr>fsal := fs\<rparr>" a G env]
    by (auto simp: bounded_def quiet_def)
  have "quiet G n ?s s'"
    using Cons.prems op quiet_bounded [OF one] by (auto simp: Let_def intro: Cons.IH)
  then show ?case using one by (rule quiet_trans [rotated])
qed simp

lemma quiet_unlock_no_owner:
  assumes "bounded n s" "do_unlock_no_owner env ctx obj lock s = (status, s')"
  shows "quiet G n s s'"
proof -
  obtain e s1 where create:
    "create_state_lock_entry env obj ctx STATE_NON_BLOCKING (unknown_owner env) None lock s = (e, s1)"
    by fastforce
  have one: "quiet G n s s1" and e: "n \<le> e"
    using assms(1) create quiet_create [of n s G env obj ctx STATE_NON_BLOCKING "unknown_owner env" None lock]
      create_effect(1) [of env obj ctx STATE_NON_BLOCKING "unknown_owner env" None lock s]
    by (auto simp: bounded_def)
  note b1 = quiet_bounded [OF one assms(1)]
  obtain st ys s2 where sub: "subtract_list_from_list env [e] (lock_list s1 obj) s1 = (st, ys, s2)"
    by (metis prod_cases3)
  have two: "quiet G n s1 s2" and ys: "\<forall>a \<in> set ys. n \<le> a"
    using quiet_subtract_lists [OF b1 _ sub, of G] e by auto
  have "unlock_loop env obj ys st s2 = (status, s')"
    using assms(2) create sub by (simp add: do_unlock_no_owner_def)
  from quiet_unlock_loop [OF quiet_bounded [OF two b1] ys this] show ?thesis
    using quiet_trans [OF quiet_trans [OF one two]] by blast
qed

subsection \<open>Calls into the back end\<close>

text \<open>
  What a call does: nothing, a call of the lock method of the back end, or an unlock without
  owners.  A reference to the unknown owner may be taken at the end.
\<close>

lemma call_lock_op_effect:
  assumes "call_lock_op env ctx obj state op owner lock s = (status, conflicting, s')"
  shows "\<exists>fs. s' = s\<lparr>fsal := fs\<rparr>" "status = STATE_LOCK_BLOCKED \<Longrightarrow> op = FSAL_OP_LOCKB"
  using assms by (auto simp: call_lock_op_def Let_def split: prod.splits if_splits)

lemma do_lock_op_cases:
  assumes "do_lock_op env ctx obj state op owner lock want_holder want_conflict overlap s =
      (status, holder, conflict, s')"
  obtains (none) "status = STATE_SUCCESS" "s' = s"
    | (call) cl s1 r where "call_lock_op env ctx obj state op owner (posix_lock lock) s = (status, cl, s1)"
        "s' = s1\<lparr>so_refcount := r\<rparr>"
    | (unlock) s1 r where "op = FSAL_OP_UNLOCK" "s' = s1\<lparr>so_refcount := r\<rparr>"
        "do_unlock_no_owner env ctx obj (posix_lock lock) s = (status, s1)"
proof (cases "\<not> fs_supports env ctx fso_lock_support
    \<or> (\<not> fs_supports env ctx fso_lock_support_async_block \<and> op = FSAL_OP_CANCEL)
    \<or> (\<not> fs_supports env ctx fso_lock_support_owner \<and> overlap)")
  case True
  then show thesis using assms none by (simp add: do_lock_op_def)
next
  case False
  obtain st cl s1 where mid: "(if fs_supports env ctx fso_lock_support_owner \<or> op \<noteq> FSAL_OP_UNLOCK
      then call_lock_op env ctx obj state op owner (posix_lock lock) s
      else (case do_unlock_no_owner env ctx obj (posix_lock lock) s of
              (status, s) \<Rightarrow> (status, no_lock, s))) = (st, cl, s1)"
    by (metis prod_cases3)
  have "status = st" "\<exists>r. s' = s1\<lparr>so_refcount := r\<rparr>"
    using assms unfolding do_lock_op_def if_not_P [OF False] mid prod.case
    by (auto split: if_splits intro: exI [of _ "so_refcount s1"])
  then show thesis using mid call unlock by (auto split: if_splits prod.splits)
qed

lemma quiet_do_lock_op:
  assumes "bounded n s"
    and "do_lock_op env ctx obj state op owner lock want_holder want_conflict overlap s =
      (status, holder, conflict, s')"
  shows "quiet G n s s'"
  using assms(2)
proof (cases rule: do_lock_op_cases)
  case (call cl s1 r)
  then show ?thesis using call_lock_op_effect(1) [OF call(1)] by auto
next
  case (unlock s1 r)
  then show ?thesis using quiet_unlock_no_owner [OF assms(1) unlock(3)] by simp
qed simp

text \<open>Only a blocking request is told to wait.\<close>

lemma do_lock_op_blocked:
  assumes "do_lock_op env ctx obj state op owner lock want_holder want_conflict overlap s =
      (STATE_LOCK_BLOCKED, holder, conflict, s')"
    and "op \<noteq> FSAL_OP_UNLOCK"
  shows "op = FSAL_OP_LOCKB"
  using assms(1) by (cases rule: do_lock_op_cases) (use assms(2) in \<open>auto dest: call_lock_op_effect(2)\<close>)

lemma quiet_do_entry_lock_op:
  assumes "bounded n s" "do_entry_lock_op env ctx obj a op s = (status, s')"
  shows "quiet G n s s'"
proof -
  let ?s = "upd_ent a (sle_lock_update posix_lock) s"
  have one: "quiet G n s ?s" by (rule quiet_upd_ent) (simp_all add: core_eq_def posix_lock_def)
  obtain h c where "do_lock_op env ctx obj (sle_state (ent ?s a)) op (sle_owner (ent ?s a))
      (sle_lock (ent ?s a)) False False False ?s = (status, h, c, s')"
    using assms(2) by (auto simp: do_entry_lock_op_def Let_def split: prod.splits)
  from quiet_trans [OF one quiet_do_lock_op [OF quiet_bounded [OF one assms(1)] this]]
  show ?thesis .
qed

lemma quiet_copy_conflict: "copy_conflict found wh wc s = (h, c, s') \<Longrightarrow> quiet G n s s'"
  by (auto simp: copy_conflict_def Let_def split: option.splits if_splits)

subsection \<open>Grant cookies\<close>

lemma quiet_free_cookie: "quiet G n s (free_cookie c unblock s)"
  by (auto simp: free_cookie_def Let_def quiet_def core_eq_def)

lemma quiet_find_grant: "state_find_grant cookie s = (status, c, s') \<Longrightarrow> quiet G n s s'"
  by (auto simp: state_find_grant_def split: option.splits)

lemma quiet_cancel_grant:
  assumes "bounded n s" shows "quiet G n s (snd (state_cancel_grant env ctx c s))"
proof -
  obtain st s1 where "do_entry_lock_op env ctx (sce_obj (the (cookies s c)))
      (sce_lock_entry (the (cookies s c))) FSAL_OP_UNLOCK s = (st, s1)" by fastforce
  with quiet_trans [OF quiet_do_entry_lock_op [OF assms this] quiet_free_cookie] show ?thesis
    by (simp add: state_cancel_grant_def Let_def)
qed

lemma quiet_add_grant_cookie:
  assumes "bounded n s" "state_add_grant_cookie env ctx obj cookie a s = (status, c, s')"
  shows "quiet {(a, obj)} n s s'"
proof (cases "sle_block_data (ent s a)")
  case None
  then show ?thesis using assms(2) by (simp add: state_add_grant_cookie_def)
next
  case (Some bd)
  show ?thesis
  proof (cases "ht_lock_cookies s cookie")
    case None
    let ?s1 = "upd_ent a (sle_block_data_update (map_option (sbd_blocked_cookie_update (\<lambda>_. Some (next_cookie s)))))
      (lock_entry_inc_ref a (s\<lparr>next_cookie := next_cookie s + 1,
         cookies := (cookies s)(next_cookie s := Some \<lparr>sce_obj = obj, sce_lock_entry = a, sce_cookie = cookie\<rparr>),
         ht_lock_cookies := (ht_lock_cookies s)(cookie := Some (next_cookie s))\<rparr>))"
    have one: "quiet {(a, obj)} n s ?s1" by (auto simp: quiet_def core_eq_def)
    note b1 = quiet_bounded [OF one assms(1)]
    have "quiet {(a, obj)} n ?s1 s'"
      using assms(2) Some None
        quiet_do_entry_lock_op [OF b1] quiet_trans [OF quiet_do_entry_lock_op [OF b1] quiet_free_cookie]
        quiet_free_cookie
      by (auto simp: state_add_grant_cookie_def Let_def split: state_grant_type_t.splits if_splits prod.splits)
    with one show ?thesis by (rule quiet_trans)
  qed (use assms(2) Some in \<open>simp add: state_add_grant_cookie_def\<close>)
qed

lemma quiet_granted_callback:
  assumes "bounded n s" "nlm_granted_callback env ctx obj a s = (status, s')"
  shows "quiet {(a, obj)} n s s'"
proof -
  let ?s0 = "s\<lparr>granted_cookie := granted_cookie s + 1\<rparr>"
  have b0: "bounded n ?s0" using assms(1) by (simp add: bounded_def)
  obtain st c s1 where add: "state_add_grant_cookie env ctx obj (granted_cookie ?s0) a ?s0 = (st, c, s1)"
    by (metis prod_cases3)
  have one: "quiet {(a, obj)} n s s1"
    using quiet_add_grant_cookie [OF b0 add] by (simp add: quiet_def)
  have cancel: "quiet {(a, obj)} n s (snd (state_cancel_grant env ctx c' s2))"
    if "quiet {(a, obj)} n s s2" for c' s2
    by (rule quiet_trans [OF that quiet_cancel_grant [OF quiet_bounded [OF that assms(1)]]])
  show ?thesis
    using assms(2) add one
    by (auto simp: nlm_granted_callback_def Let_def intro!: cancel split: if_splits prod.splits)
qed

end
