(* ===== verification/Lock_Exclusion.thy ===== *)
theory Lock_Exclusion
  imports Lock_Frame
begin

text \<open>
  The invariant of the lock manager: the lists of files are well formed, grant cookies refer to
  entries of their files, and no byte of a file is locked by two owners when one of the locks is
  exclusive.  Each operation of \<open>Lock_Ops\<close> keeps it, under the conditions given with the step
  relation at the end.
\<close>

subsection \<open>The invariant\<close>

definition lock_wf :: "'fs lock_sys \<Rightarrow> bool" where
  "lock_wf s \<longleftrightarrow> (\<forall>obj. distinct (lock_list s obj) \<and> good_entries s (set (lock_list s obj))
     \<and> (\<forall>a \<in> set (lock_list s obj). sle_obj (ent s a) = obj))"

text \<open>The entry a cookie names is on its file's list or has been removed from it.\<close>

definition on_file :: "'fs lock_sys \<Rightarrow> nat \<Rightarrow> nat \<Rightarrow> bool" where
  "on_file s a obj \<longleftrightarrow> a < next_entry s \<and> sle_obj (ent s a) = obj
     \<and> (sle_owner (ent s a) = None \<or> a \<in> set (lock_list s obj))"

definition cookie_wf :: "'fs lock_sys \<Rightarrow> bool" where
  "cookie_wf s \<longleftrightarrow> (\<forall>c ce. cookies s c = Some ce \<longrightarrow> on_file s (sce_lock_entry ce) (sce_obj ce))"

definition granted :: "state_blocking_t \<Rightarrow> bool" where
  "granted b \<longleftrightarrow> b = STATE_NON_BLOCKING \<or> b = STATE_GRANTING"

definition locked :: "'fs lock_env \<Rightarrow> 'fs lock_sys \<Rightarrow> nat \<Rightarrow> fsal_lock_t \<Rightarrow> nat option \<Rightarrow> uint64 \<Rightarrow> bool" where
  "locked env s obj t ow x \<longleftrightarrow> (\<exists>b. granted b \<and> held env s (set (lock_list s obj)) b t ow x)"

definition exclusive :: "'fs lock_env \<Rightarrow> 'fs lock_sys \<Rightarrow> bool" where
  "exclusive env s \<longleftrightarrow> (\<forall>obj x t t' ow ow'. locked env s obj t ow x \<longrightarrow> locked env s obj t' ow' x \<longrightarrow>
     t = FSAL_LOCK_W \<or> t' = FSAL_LOCK_W \<longrightarrow> \<not> differ env ow ow')"

definition lock_inv :: "'fs lock_env \<Rightarrow> 'fs lock_sys \<Rightarrow> bool" where
  "lock_inv env s \<longleftrightarrow> lock_wf s \<and> cookie_wf s \<and> exclusive env s"

lemma lock_wfD:
  assumes "lock_wf s"
  shows "distinct (lock_list s obj)" "good_entries s (set (lock_list s obj))"
    and "a \<in> set (lock_list s obj) \<Longrightarrow> sle_obj (ent s a) = obj"
    and "a \<in> set (lock_list s obj) \<Longrightarrow> a < next_entry s"
    and "a \<in> set (lock_list s obj) \<Longrightarrow> sle_owner (ent s a) \<noteq> None"
    and "a \<in> set (lock_list s obj) \<Longrightarrow> lock_valid (sle_lock (ent s a))"
  using assms by (auto simp: lock_wf_def good_entries_def)

lemma lock_wf_bounded: "lock_wf s \<Longrightarrow> bounded (next_entry s) s"
  by (auto simp: bounded_def lock_wfD)

text \<open>A lock that is held conflicts with no other; more is locked only where that was checked.\<close>

lemma exclusive_mono:
  "exclusive env s \<Longrightarrow> (\<And>obj t ow x. locked env s' obj t ow x \<Longrightarrow> locked env s obj t ow x) \<Longrightarrow> exclusive env s'"
  unfolding exclusive_def by blast

lemma exclusive_extend:
  assumes excl: "exclusive env s"
    and more: "\<And>obj' t ow x. locked env s' obj' t ow x \<Longrightarrow> locked env s obj' t ow x
      \<or> obj' = obj \<and> t = lock_type lock \<and> \<not> differ env owner ow \<and> x \<in> lock_bytes lock"
    and free: "\<And>t ow x. locked env s obj t ow x \<Longrightarrow> x \<in> lock_bytes lock \<Longrightarrow>
      t = FSAL_LOCK_W \<or> lock_type lock = FSAL_LOCK_W \<Longrightarrow> \<not> differ env ow owner"
  shows "exclusive env s'"
  unfolding exclusive_def
proof (intro allI impI)
  fix obj' x t t' ow ow'
  assume l: "locked env s' obj' t ow x" and l': "locked env s' obj' t' ow' x"
    and w: "t = FSAL_LOCK_W \<or> t' = FSAL_LOCK_W"
  consider "locked env s obj' t ow x" "locked env s obj' t' ow' x"
    | "locked env s obj t ow x" "obj' = obj" "t' = lock_type lock" "\<not> differ env owner ow'" "x \<in> lock_bytes lock"
    | "locked env s obj t' ow' x" "obj' = obj" "t = lock_type lock" "\<not> differ env owner ow" "x \<in> lock_bytes lock"
    | "\<not> differ env owner ow" "\<not> differ env owner ow'"
    using more [OF l] more [OF l'] by blast
  then show "\<not> differ env ow ow'"
  proof cases
    case 1
    then show ?thesis using excl w unfolding exclusive_def by blast
  next
    case 2
    then have "\<not> differ env ow owner" using free w by blast
    with 2(4) show ?thesis using own.cong_left by blast
  next
    case 3
    then have "\<not> differ env ow' owner" using free w by blast
    with 3(4) show ?thesis using own.cong_left own.sym_not by blast
  next
    case 4
    then show ?thesis using own.cong_left own.sym_not by blast
  qed
qed

text \<open>The conflict search of the code finds no entry exactly when nothing locked conflicts.\<close>

lemma locked_iff:
  "locked env s obj t ow x \<longleftrightarrow> (\<exists>a \<in> set (lock_list s obj). granted (sle_blocked (ent s a))
     \<and> \<not> differ env (sle_owner (ent s a)) ow \<and> lock_type (sle_lock (ent s a)) = t
     \<and> x \<in> lock_bytes (sle_lock (ent s a)))"
  by (auto simp: locked_def held_def)

lemma granted_iff:
  "granted b \<longleftrightarrow> \<not> (b = STATE_NLM_BLOCKING \<or> b = STATE_NFSV4_BLOCKING \<or> b = STATE_CANCELED)"
  by (cases b) (simp_all add: granted_def)

lemma entry_conflicts_iff:
  assumes "lock_valid (sle_lock e)" "lock_valid lock"
  shows "entry_conflicts env e owner lock \<longleftrightarrow>
    (\<exists>x \<in> lock_bytes (sle_lock e). x \<in> lock_bytes lock)
    \<and> (lock_type (sle_lock e) = FSAL_LOCK_W \<or> lock_type lock = FSAL_LOCK_W) \<and> differ env (sle_owner e) owner"
  using locks_overlap_iff [OF assms] by (auto simp: entry_conflicts_def)

lemma get_overlapping_none:
  assumes wf: "lock_wf s" and valid: "lock_valid lock"
  shows "get_overlapping_entry env s obj owner lock = None \<longleftrightarrow>
    (\<forall>t ow x. locked env s obj t ow x \<longrightarrow> x \<in> lock_bytes lock \<longrightarrow>
       t = FSAL_LOCK_W \<or> lock_type lock = FSAL_LOCK_W \<longrightarrow> \<not> differ env ow owner)"
proof -
  have "get_overlapping_entry env s obj owner lock = None \<longleftrightarrow>
    (\<forall>a \<in> set (lock_list s obj). granted (sle_blocked (ent s a)) \<longrightarrow> \<not> entry_conflicts env (ent s a) owner lock)"
    by (auto simp: get_overlapping_entry_def find_None_iff Let_def granted_iff)
  also have "\<dots> \<longleftrightarrow> (\<forall>t ow x. locked env s obj t ow x \<longrightarrow> x \<in> lock_bytes lock \<longrightarrow>
       t = FSAL_LOCK_W \<or> lock_type lock = FSAL_LOCK_W \<longrightarrow> \<not> differ env ow owner)" (is "?l \<longleftrightarrow> ?r")
  proof
    assume l: ?l
    show ?r
    proof (intro allI impI)
      fix t ow x
      assume "locked env s obj t ow x" and x: "x \<in> lock_bytes lock"
        and w: "t = FSAL_LOCK_W \<or> lock_type lock = FSAL_LOCK_W"
      then obtain a where a: "a \<in> set (lock_list s obj)" "granted (sle_blocked (ent s a))"
        "\<not> differ env (sle_owner (ent s a)) ow" "lock_type (sle_lock (ent s a)) = t"
        "x \<in> lock_bytes (sle_lock (ent s a))" unfolding locked_iff by blast
      then have "\<not> differ env (sle_owner (ent s a)) owner"
        using l x w entry_conflicts_iff [OF lock_wfD(6) [OF wf a(1)] valid, of env owner] by blast
      then show "\<not> differ env ow owner" using own.cong_left [OF a(3)] by blast
    qed
  next
    assume r: ?r
    show ?l
    proof (intro ballI impI notI)
      fix a
      assume a: "a \<in> set (lock_list s obj)" "granted (sle_blocked (ent s a))"
        and "entry_conflicts env (ent s a) owner lock"
      then obtain x where x: "x \<in> lock_bytes (sle_lock (ent s a))" "x \<in> lock_bytes lock"
        "lock_type (sle_lock (ent s a)) = FSAL_LOCK_W \<or> lock_type lock = FSAL_LOCK_W"
        "differ env (sle_owner (ent s a)) owner"
        unfolding entry_conflicts_iff [OF lock_wfD(6) [OF wf a(1)] valid] by blast
      have "locked env s obj (lock_type (sle_lock (ent s a))) (sle_owner (ent s a)) x"
        unfolding locked_iff using a x(1) lock_wfD(5) [OF wf a(1)] by auto
      then show False using r x by blast
    qed
  qed
  finally show ?thesis .
qed

subsection \<open>Keeping the invariant\<close>

lemma quiet_held:
  assumes "quiet G n s s'" "\<And>a. a \<in> A \<Longrightarrow> a < n"
  shows "held env s' A b t ow x \<longleftrightarrow> held env s A b t ow x"
proof -
  have core: "core_eq (ent s a) (ent s' a)" if "a \<in> A" for a
    using assms that by (auto simp: quiet_def)
  show ?thesis
    unfolding held_def
  proof (rule bex_cong [OF refl])
    fix a assume "a \<in> A"
    note c = core [OF this]
    show "(\<not> differ env (sle_owner (ent s' a)) ow \<and> sle_blocked (ent s' a) = b
        \<and> lock_type (sle_lock (ent s' a)) = t \<and> x \<in> lock_bytes (sle_lock (ent s' a))) =
      (\<not> differ env (sle_owner (ent s a)) ow \<and> sle_blocked (ent s a) = b
        \<and> lock_type (sle_lock (ent s a)) = t \<and> x \<in> lock_bytes (sle_lock (ent s a)))"
      unfolding core_eq_range(2) [OF c] using c by (simp add: core_eq_def)
  qed
qed

lemma quiet_on_file: "quiet G (next_entry s) s s' \<Longrightarrow> on_file s a obj \<Longrightarrow> on_file s' a obj"
  by (auto simp: quiet_def on_file_def core_eq_def)

lemma quiet_locked:
  assumes "quiet G (next_entry s) s s'" "lock_wf s"
  shows "locked env s' obj t ow x \<longleftrightarrow> locked env s obj t ow x"
proof -
  have "lock_list s' = lock_list s" using assms(1) by (simp add: quiet_def)
  then show ?thesis
    unfolding locked_def using quiet_held [OF assms(1)] lock_wfD(4) [OF assms(2)] by auto
qed

lemma quiet_inv:
  assumes q: "quiet G (next_entry s) s s'" and inv: "lock_inv env s"
    and G: "\<And>a obj. (a, obj) \<in> G \<Longrightarrow> on_file s a obj"
  shows "lock_inv env s'"
proof -
  have wf: "lock_wf s" using inv by (simp add: lock_inv_def)
  have lists: "lock_list s' = lock_list s" using q by (simp add: quiet_def)
  have core: "core_eq (ent s a) (ent s' a)" if "a \<in> set (lock_list s obj)" for a obj
    using q lock_wfD(4) [OF wf that] by (simp add: quiet_def)
  have lt: "a < next_entry s'" if "a \<in> set (lock_list s obj)" for a obj
    using q lock_wfD(4) [OF wf that] by (simp add: quiet_def)
  have "lock_wf s'"
    unfolding lock_wf_def good_entries_def lists
    using lock_wfD(1,3,5,6) [OF wf] core core_eq_range(3) [OF core] lt by (auto simp: core_eq_def)
  moreover have "cookie_wf s'"
    using q inv G quiet_on_file [OF q] unfolding cookie_wf_def lock_inv_def quiet_def by blast
  ultimately show ?thesis
    using inv quiet_locked [OF q wf] by (simp add: lock_inv_def exclusive_def)
qed

text \<open>Removing an entry, whether it is on its list or not.\<close>

lemma remove_lists:
  assumes "lock_wf s"
  shows "set (lock_list (remove_from_locklist env a s) obj) = set (lock_list s obj) - {a}"
    and "distinct (lock_list (remove_from_locklist env a s) obj)"
  using lock_wfD(1) [OF assms] lock_wfD(3) [OF assms] by (auto simp: set_remove1_eq)

lemma remove_inv:
  assumes inv: "lock_inv env s"
  shows "lock_inv env (remove_from_locklist env a s)"
proof -
  let ?s = "remove_from_locklist env a s"
  have wf: "lock_wf s" using inv by (simp add: lock_inv_def)
  note lists = remove_lists [OF wf, of env a]
  have same: "ent ?s b = ent s b" if "b \<noteq> a" for b using that by simp
  have "lock_wf ?s"
    unfolding lock_wf_def
  proof (intro allI conjI)
    fix obj
    show "distinct (lock_list ?s obj)" by (rule lists(2))
    show "good_entries ?s (set (lock_list ?s obj))"
      unfolding lists by (rule good_entries_mono [of s])
        (use lock_wfD(2) [OF wf, of obj] in \<open>auto simp: good_entries_def\<close>)
    show "\<forall>b \<in> set (lock_list ?s obj). sle_obj (ent ?s b) = obj"
      unfolding lists using lock_wfD(3) [OF wf] by simp
  qed
  moreover have "on_file ?s b obj" if "on_file s b obj" for b obj
    using that unfolding on_file_def lists by auto
  then have "cookie_wf ?s" using inv by (auto simp: lock_inv_def cookie_wf_def)
  moreover have "locked env s obj t ow x" if "locked env ?s obj t ow x" for obj t ow x
    using that unfolding locked_iff lists using same by auto
  then have "exclusive env ?s" using inv by (auto simp: lock_inv_def intro: exclusive_mono [of env s])
  ultimately show ?thesis by (simp add: lock_inv_def)
qed

text \<open>
  Changing the status of an entry: to a granted one only if it is granted already or nothing that
  is locked conflicts with it.
\<close>

lemma set_blocked_inv:
  assumes inv: "lock_inv env s"
    and free: "granted b \<Longrightarrow> granted (sle_blocked (ent s a)) \<or>
      get_overlapping_entry env s (sle_obj (ent s a)) (sle_owner (ent s a)) (sle_lock (ent s a)) = None"
  shows "lock_inv env (upd_ent a (sle_blocked_update (\<lambda>_. b)) s)"
proof -
  let ?s = "upd_ent a (sle_blocked_update (\<lambda>_. b)) s" and ?e = "ent s a"
  have wf: "lock_wf s" using inv by (simp add: lock_inv_def)
  have wf': "lock_wf ?s" "cookie_wf ?s"
    using inv by (auto simp: lock_inv_def lock_wf_def good_entries_def cookie_wf_def on_file_def)
  have old: "locked env s obj t ow x \<or> granted b \<and> \<not> granted (sle_blocked ?e) \<and> a \<in> set (lock_list s obj)
      \<and> t = lock_type (sle_lock ?e) \<and> \<not> differ env (sle_owner ?e) ow \<and> x \<in> lock_bytes (sle_lock ?e)"
    if l: "locked env ?s obj t ow x" for obj t ow x
  proof -
    from l obtain c where c: "c \<in> set (lock_list s obj)" "granted (sle_blocked (ent ?s c))"
      "\<not> differ env (sle_owner (ent ?s c)) ow" "lock_type (sle_lock (ent ?s c)) = t"
      "x \<in> lock_bytes (sle_lock (ent ?s c))" unfolding locked_iff by auto
    then show ?thesis unfolding locked_iff by (cases "c = a") (auto split: if_splits)
  qed
  have "exclusive env ?s"
  proof (cases "granted b \<and> \<not> granted (sle_blocked ?e) \<and> (\<exists>obj. a \<in> set (lock_list s obj))")
    case False
    then have "locked env s obj t ow x" if "locked env ?s obj t ow x" for obj t ow x
      using old [OF that] by blast
    then show ?thesis using inv by (auto simp: lock_inv_def intro: exclusive_mono [of env s])
  next
    case True
    then obtain obj where a: "a \<in> set (lock_list s obj)" by blast
    have obj: "sle_obj ?e = obj" and valid: "lock_valid (sle_lock ?e)"
      using lock_wfD(3,6) [OF wf a] by auto
    have "get_overlapping_entry env s obj (sle_owner ?e) (sle_lock ?e) = None"
      using True free obj by blast
    note none = this [unfolded get_overlapping_none [OF wf valid], rule_format]
    show ?thesis
    proof (rule exclusive_extend [of env s ?s obj "sle_lock ?e" "sle_owner ?e"])
      show "exclusive env s" using inv by (simp add: lock_inv_def)
      show "locked env s obj' t ow x \<or> obj' = obj \<and> t = lock_type (sle_lock ?e)
          \<and> \<not> differ env (sle_owner ?e) ow \<and> x \<in> lock_bytes (sle_lock ?e)"
        if "locked env ?s obj' t ow x" for obj' t ow x
        using old [OF that] lock_wfD(3) [OF wf] obj by blast
    qed (rule none)
  qed
  with wf' show ?thesis by (simp add: lock_inv_def)
qed

text \<open>Merging an entry that is on the list, and merging one that is then added to it.\<close>

lemma merged_wf:
  assumes m: "merged env obj a s s'" and wf: "lock_wf s" and lt: "a < next_entry s"
    and a: "\<And>obj'. a \<in> set (lock_list s obj') \<Longrightarrow> obj' = obj"
  shows "lock_wf s'"
  unfolding lock_wf_def
proof (intro allI)
  note D = mergedD [OF m]
  fix obj'
  show "distinct (lock_list s' obj') \<and> good_entries s' (set (lock_list s' obj'))
      \<and> (\<forall>b \<in> set (lock_list s' obj'). sle_obj (ent s' b) = obj')"
  proof (cases "obj' = obj")
    case True
    then show ?thesis using D(1) by (auto simp: merge_ready_def work_def good_entries_def)
  next
    case False
    have same: "ent s' b = ent s b" if "b \<in> set (lock_list s obj')" for b
    proof -
      have "b \<notin> work obj a s"
        using that lock_wfD(3) [OF wf, of b] a False by (auto simp: work_def)
      then show ?thesis using D(5) lock_wfD(4) [OF wf that] by blast
    qed
    have "good_entries s' (set (lock_list s obj'))"
      by (rule good_entries_mono [OF lock_wfD(2) [OF wf] D(2)]) (rule same)
    then show ?thesis
      using D(4) [OF False] lock_wfD(1,3) [OF wf] same by simp
  qed
qed

lemma merged_on_file:
  assumes m: "merged env obj a s s'" and "on_file s b obj'"
  shows "on_file s' b obj'"
proof -
  note D = mergedD [OF m]
  have b: "b < next_entry s" using assms(2) by (simp add: on_file_def)
  show ?thesis
    using D(2) D(4) [of obj'] D(6) [OF b] D(7) [OF b] assms(2)
    by (cases "obj' = obj") (auto simp: on_file_def)
qed

lemma merged_cookies: "merged env obj a s s' \<Longrightarrow> cookie_wf s \<Longrightarrow> cookie_wf s'"
  using merged_on_file [of env obj a s s'] mergedD(3) [of env obj a s s'] by (simp add: cookie_wf_def)

text \<open>Nothing new is held, and the other files are as they were.\<close>

lemma merged_locked:
  assumes m: "merged env obj a s s'" and wf: "lock_wf s"
    and a: "\<And>obj'. a \<in> set (lock_list s obj') \<Longrightarrow> obj' = obj"
  shows "obj' \<noteq> obj \<Longrightarrow> locked env s' obj' t ow x \<longleftrightarrow> locked env s obj' t ow x"
    and "held env s' (work obj a s') b t ow x \<Longrightarrow>
      held env s (set (lock_list s obj)) b t ow x \<or> held env s {a} b t ow x"
proof -
  note D = mergedD [OF m]
  show "locked env s' obj' t ow x \<longleftrightarrow> locked env s obj' t ow x" if "obj' \<noteq> obj"
  proof -
    have "ent s' b = ent s b" if b: "b \<in> set (lock_list s obj')" for b
    proof -
      have "b \<notin> work obj a s"
        using b lock_wfD(3) [OF wf, of b] a \<open>obj' \<noteq> obj\<close> by (auto simp: work_def)
      then show ?thesis using D(5) lock_wfD(4) [OF wf b] by blast
    qed
    then show ?thesis unfolding locked_def D(4) [OF that] using held_cong by metis
  qed
  show "held env s (set (lock_list s obj)) b t ow x \<or> held env s {a} b t ow x"
    if "held env s' (work obj a s') b t ow x"
  proof -
    have "work obj a s = set (lock_list s obj) \<union> {a}" by (auto simp: work_def)
    then show ?thesis using D(12) [OF that] by (simp only: held_un)
  qed
qed

lemma merged_inv:
  assumes m: "merged env obj a s s'" and a: "a \<in> set (lock_list s obj)" and inv: "lock_inv env s"
  shows "lock_inv env s'"
proof -
  have wf: "lock_wf s" using inv by (simp add: lock_inv_def)
  have only: "obj' = obj" if "a \<in> set (lock_list s obj')" for obj'
    using lock_wfD(3) [OF wf] a that by metis
  have work: "work obj a s' = set (lock_list s' obj)" "work obj a s = set (lock_list s obj)"
    using a mergedD(11) [OF m] by (auto simp: work_def)
  have "locked env s obj' t ow x" if "locked env s' obj' t ow x" for obj' t ow x
  proof (cases "obj' = obj")
    case True
    with that obtain b where "granted b" "held env s' (work obj a s') b t ow x"
      unfolding locked_def work by blast
    with mergedD(12) [OF m] show ?thesis using True unfolding locked_def work by blast
  next
    case False
    with that show ?thesis using merged_locked(1) [OF m wf only] by blast
  qed
  then have "exclusive env s'" using inv by (auto simp: lock_inv_def intro: exclusive_mono [of env s])
  then show ?thesis
    using merged_wf [OF m wf lock_wfD(4) [OF wf a] only] merged_cookies [OF m] inv
    by (simp add: lock_inv_def)
qed

lemma merged_append_inv:
  assumes m: "merged env obj a s s'" and inv: "lock_inv env s"
    and a: "a < next_entry s" "\<And>obj'. a \<notin> set (lock_list s obj')" "sle_obj (ent s a) = obj"
    and none: "\<And>t ow x. locked env s obj t ow x \<Longrightarrow> x \<in> lock_bytes (sle_lock (ent s a)) \<Longrightarrow>
      t = FSAL_LOCK_W \<or> lock_type (sle_lock (ent s a)) = FSAL_LOCK_W \<Longrightarrow>
      \<not> differ env ow (sle_owner (ent s a))"
  shows "lock_inv env (s'\<lparr>lock_list := (lock_list s')(obj := lock_list s' obj @ [a])\<rparr>)"
proof -
  let ?s = "s'\<lparr>lock_list := (lock_list s')(obj := lock_list s' obj @ [a])\<rparr>" and ?e = "ent s a"
  note D = mergedD [OF m]
  have wf: "lock_wf s" using inv by (simp add: lock_inv_def)
  have only: "obj' = obj" if "a \<in> set (lock_list s obj')" for obj' using that a(2) by blast
  have wf': "lock_wf s'" by (rule merged_wf [OF m wf a(1) only])
  have not_in: "a \<notin> set (lock_list s' obj')" for obj'
    using a(2) D(4) D(11) by (cases "obj' = obj") auto
  have work: "set (lock_list ?s obj) = work obj a s'" by (auto simp: work_def)
  have "good_entries s' (work obj a s')" using D(1) by (simp add: merge_ready_def)
  then have "lock_wf ?s"
    using wf' not_in D(6) [OF a(1)] a(3) unfolding lock_wf_def work_def good_entries_def by auto
  moreover have "on_file ?s b obj'" if "on_file s' b obj'" for b obj'
    using that by (auto simp: on_file_def)
  then have "cookie_wf ?s"
    using merged_cookies [OF m] inv by (simp add: lock_inv_def cookie_wf_def)
  moreover have "exclusive env ?s"
  proof (rule exclusive_extend [of env s ?s obj "sle_lock ?e" "sle_owner ?e"])
    show "exclusive env s" using inv by (simp add: lock_inv_def)
    fix obj' t ow x assume l: "locked env ?s obj' t ow x"
    show "locked env s obj' t ow x \<or> obj' = obj \<and> t = lock_type (sle_lock ?e)
      \<and> \<not> differ env (sle_owner ?e) ow \<and> x \<in> lock_bytes (sle_lock ?e)"
    proof (cases "obj' = obj")
      case True
      have "held env ?s A b t ow x = held env s' A b t ow x" for A b by (rule held_cong) simp
      with l True obtain b where b: "granted b" "held env s' (work obj a s') b t ow x"
        unfolding locked_def by (auto simp only: work)
      with merged_locked(2) [OF m wf only b(2)] show ?thesis
        using True unfolding locked_def held_single by blast
    next
      case False
      with l have "locked env s' obj' t ow x" by (simp add: locked_def held_def)
      then show ?thesis using merged_locked(1) [OF m wf only False] by blast
    qed
  qed (rule none)
  ultimately show ?thesis by (simp add: lock_inv_def)
qed

text \<open>Subtracting a range from the list of a file.\<close>

lemma subtract_inv:
  assumes inv: "lock_inv env s" and valid: "lock_valid lock"
    and run: "subtract_lock_from_list env owner state_applies state lock (lock_list s obj) s =
      (status, removed, ys, s')"
  shows "lock_inv env (s'\<lparr>lock_list := (lock_list s')(obj := ys)\<rparr>)"
proof -
  let ?s = "s'\<lparr>lock_list := (lock_list s')(obj := ys)\<rparr>" and ?xs = "lock_list s obj"
  have wf: "lock_wf s" using inv by (simp add: lock_inv_def)
  note eff = subtract_lock_from_list_effect [OF lock_wfD(2,1) [OF wf] valid run]
  have other: "lock_list s' obj' = lock_list s obj'" if "obj' \<noteq> obj" for obj'
    using eff(10) [of obj obj'] lock_wfD(3) [OF wf] that by blast
  have same: "ent s' a = ent s a" if "a \<in> set (lock_list s obj')" "obj' \<noteq> obj" for a obj'
    using eff(6) lock_wfD(3) [OF wf] lock_wfD(4) [OF wf that(1)] that by metis
  have "lock_wf ?s"
    unfolding lock_wf_def
  proof (intro allI)
    fix obj'
    show "distinct (lock_list ?s obj') \<and> good_entries ?s (set (lock_list ?s obj'))
        \<and> (\<forall>b \<in> set (lock_list ?s obj'). sle_obj (ent ?s b) = obj')"
    proof (cases "obj' = obj")
      case True
      have "sle_obj (ent s' b) = obj" if "b \<in> set ys" for b
        using eff(7) [OF that] lock_wfD(3) [OF wf] by auto
      then show ?thesis using eff(2,3) True by (simp add: good_entries_def)
    next
      case False
      have "good_entries ?s (set (lock_list s obj'))"
        by (rule good_entries_mono [OF lock_wfD(2) [OF wf]]) (use eff(4) same False in auto)
      then show ?thesis using lock_wfD(1,3) [OF wf] same other False by simp
    qed
  qed
  moreover have "on_file ?s b obj'" if b: "on_file s b obj'" for b obj'
  proof (cases "b \<in> set ?xs")
    case True
    then show ?thesis
      using b eff(4) eff(8) [of b] eff(9) [OF True] lock_wfD(3) [OF wf True]
      by (auto simp: on_file_def)
  next
    case False
    then show ?thesis
      using b eff(4) eff(6) [OF _ False] other [of obj'] by (auto simp: on_file_def)
  qed
  then have "cookie_wf ?s" using inv eff(5) by (simp add: lock_inv_def cookie_wf_def)
  moreover have "locked env s obj' t ow x" if l: "locked env ?s obj' t ow x" for obj' t ow x
  proof (cases "obj' = obj")
    case True
    from l obtain b ow' st where "granted b" "\<not> differ env ow' ow" "covers s' (set ys) ow' st b t x"
      unfolding locked_def held_covers by (auto simp: True covers_def)
    then show ?thesis using eff(11) True unfolding locked_def held_covers by blast
  next
    case False
    have "held env ?s (set (lock_list s obj')) b t ow x = held env s (set (lock_list s obj')) b t ow x" for b
      by (rule held_cong) (use same False in simp)
    then show ?thesis using l other [OF False] False by (simp add: locked_def)
  qed
  then have "exclusive env ?s" using inv by (auto simp: lock_inv_def intro: exclusive_mono [of env s])
  ultimately show ?thesis by (simp add: lock_inv_def)
qed

text \<open>Adding an entry that is not granted.\<close>

lemma append_blocked_inv:
  assumes inv: "lock_inv env s"
    and a: "good_entries s {a}" "\<And>obj'. a \<notin> set (lock_list s obj')" "sle_obj (ent s a) = obj"
    and "\<not> granted (sle_blocked (ent s a))"
  shows "lock_inv env (s\<lparr>lock_list := (lock_list s)(obj := lock_list s obj @ [a])\<rparr>)"
proof -
  let ?s = "s\<lparr>lock_list := (lock_list s)(obj := lock_list s obj @ [a])\<rparr>"
  have "lock_wf ?s" using inv a by (auto simp: lock_inv_def lock_wf_def good_entries_def)
  moreover have "on_file ?s b obj'" if "on_file s b obj'" for b obj'
    using that by (auto simp: on_file_def)
  then have "cookie_wf ?s" using inv by (simp add: lock_inv_def cookie_wf_def)
  moreover have "locked env s obj' t ow x" if "locked env ?s obj' t ow x" for obj' t ow x
    using that assms(5) unfolding locked_iff by (auto split: if_splits)
  then have "exclusive env ?s" using inv by (auto simp: lock_inv_def intro: exclusive_mono [of env s])
  ultimately show ?thesis by (simp add: lock_inv_def)
qed

lemma inv_fields [simp]:
  "lock_inv env (s\<lparr>fsal := f\<rparr>) \<longleftrightarrow> lock_inv env s"
  "lock_inv env (s\<lparr>obj_refcount := r\<rparr>) \<longleftrightarrow> lock_inv env s"
  "lock_inv env (s\<lparr>exp_refcount := r\<rparr>) \<longleftrightarrow> lock_inv env s"
  "lock_inv env (s\<lparr>state_blocked_locks := l\<rparr>) \<longleftrightarrow> lock_inv env s"
  by (simp_all add: lock_inv_def lock_wf_def good_entries_def cookie_wf_def on_file_def exclusive_def
      locked_def held_def)

end
