(* ===== verification/Lock_Safety.thy ===== *)
theory Lock_Safety
  imports Lock_Exclusion
begin

text \<open>
  Every operation on locks keeps the invariant of \<open>Lock_Exclusion\<close>, and what the operations do to
  the bytes of the file they work on.
\<close>

subsection \<open>Granting\<close>

lemma granted_simps [simp]:
  "granted STATE_NON_BLOCKING" "granted STATE_GRANTING" "\<not> granted STATE_NLM_BLOCKING"
  "\<not> granted STATE_NFSV4_BLOCKING" "\<not> granted STATE_CANCELED"
  by (simp_all add: granted_def)

lemma upd_block_data_quiet:
  "quiet G n s (upd_ent a (sle_block_data_update f) s)"
  by (rule quiet_upd_ent) (simp_all add: core_eq_def)

lemma quiet_inv0: "quiet {} (next_entry s) s s' \<Longrightarrow> lock_inv env s \<Longrightarrow> lock_inv env s'"
  by (rule quiet_inv [where G = "{}"]) simp_all

text \<open>The entry is the same but for its status.\<close>

definition same_lock :: "state_lock_entry_t \<Rightarrow> state_lock_entry_t \<Rightarrow> bool" where
  "same_lock e e' \<longleftrightarrow> core_eq e (e'\<lparr>sle_blocked := sle_blocked e\<rparr>)"

lemma same_lockD:
  "same_lock e e' \<Longrightarrow> sle_owner e' = sle_owner e"
  "same_lock e e' \<Longrightarrow> lock_bytes (sle_lock e') = lock_bytes (sle_lock e)"
  using core_eq_range(2) [of e "e'\<lparr>sle_blocked := sle_blocked e\<rparr>"] by (auto simp: same_lock_def core_eq_def)

lemma same_lock_core: "core_eq e e' \<Longrightarrow> same_lock e e'"
  by (simp add: same_lock_def core_eq_def)

lemma same_lock_refl [simp]: "same_lock e e"
  by (simp add: same_lock_core)

lemma same_lock_trans: "same_lock e1 e2 \<Longrightarrow> same_lock e2 e3 \<Longrightarrow> same_lock e1 e3"
  by (simp add: same_lock_def core_eq_def)

text \<open>The entry may have another status; the lists, the other entries and the invariant stay.\<close>

definition restated :: "'fs lock_env \<Rightarrow> nat \<Rightarrow> 'fs lock_sys \<Rightarrow> 'fs lock_sys \<Rightarrow> bool" where
  "restated env a s s' \<longleftrightarrow> lock_inv env s' \<and> lock_list s' = lock_list s \<and> same_lock (ent s a) (ent s' a)
     \<and> (\<forall>b < next_entry s. b \<noteq> a \<longrightarrow> core_eq (ent s b) (ent s' b))"

lemma restated_fields [simp]:
  "restated env a s (s'\<lparr>exp_refcount := r\<rparr>) \<longleftrightarrow> restated env a s s'"
  "restated env a s (s'\<lparr>state_blocked_locks := l\<rparr>) \<longleftrightarrow> restated env a s s'"
  by (simp_all add: restated_def)

lemma granting_callback:
  assumes inv: "lock_inv env s" and a: "a \<in> set (lock_list s obj)"
    and free: "get_overlapping_entry env s obj (sle_owner (ent s a)) (sle_lock (ent s a)) = None"
    and s2: "s2 = upd_ent a (sle_block_data_update f)
      (upd_ent a (sle_blocked_update (\<lambda>_. STATE_GRANTING)) (s\<lparr>exp_refcount := r\<rparr>))"
    and callback: "nlm_granted_callback env ctx obj a s2 = (status, s3)"
  shows "restated env a s s3" "sle_blocked (ent s3 a) = STATE_GRANTING"
proof -
  have wf: "lock_wf s" using inv by (simp add: lock_inv_def)
  have obj: "sle_obj (ent s a) = obj" and lt: "a < next_entry s" using lock_wfD(3,4) [OF wf a] by auto
  have lists: "lock_list s2 = lock_list s" "next_entry s2 = next_entry s" using s2 by simp_all
  have "lock_inv env (upd_ent a (sle_blocked_update (\<lambda>_. STATE_GRANTING)) (s\<lparr>exp_refcount := r\<rparr>))"
    by (rule set_blocked_inv) (use inv free obj in \<open>simp_all add: get_overlapping_entry_def\<close>)
  then have inv2: "lock_inv env s2"
    unfolding s2 by (rule quiet_inv0 [OF upd_block_data_quiet])
  have q: "quiet {(a, obj)} (next_entry s2) s2 s3"
    using quiet_granted_callback [OF lock_wf_bounded callback] inv2 by (simp add: lock_inv_def)
  have "lock_inv env s3"
    by (rule quiet_inv [OF q inv2]) (use lt a lists obj s2 in \<open>auto simp: on_file_def\<close>)
  moreover have "lock_list s3 = lock_list s" using q lists by (simp add: quiet_def)
  moreover have "same_lock (ent s a) (ent s3 a)"
    using q lt lists(2) by (simp add: quiet_def s2 same_lock_def core_eq_def)
  moreover have "core_eq (ent s b) (ent s3 b)" if "b < next_entry s" "b \<noteq> a" for b
    using q that lists(2) by (auto simp: quiet_def s2)
  ultimately show "restated env a s s3" by (simp add: restated_def)
  show "sle_blocked (ent s3 a) = STATE_GRANTING" using q lt lists(2) by (auto simp: quiet_def s2 core_eq_def)
qed

lemma restated_put:
  assumes "restated env a s s3" "sle_blocked (ent s3 a) = STATE_GRANTING"
  shows "restated env a s (upd_ent a (\<lambda>e. e\<lparr>sle_blocked := b, sle_block_data := f (sle_block_data e)\<rparr>) s3)"
proof -
  let ?s = "upd_ent a (\<lambda>e. e\<lparr>sle_blocked := b, sle_block_data := f (sle_block_data e)\<rparr>) s3"
  let ?m = "upd_ent a (sle_blocked_update (\<lambda>_. b)) s3"
  have inv: "lock_inv env ?m"
    by (rule set_blocked_inv) (use assms in \<open>simp_all add: restated_def granted_def\<close>)
  have "quiet {} (next_entry ?m) ?m ?s" by (auto simp: quiet_def core_eq_def)
  then have "lock_inv env ?s" by (rule quiet_inv0 [OF _ inv])
  then show ?thesis using assms by (simp add: restated_def same_lock_def core_eq_def)
qed

text \<open>
  The outcomes of an attempt: the entry is dropped, or it is being granted, or it waits on because
  the back end said so.
\<close>

lemma try_to_grant_cases:
  assumes inv: "lock_inv env s" and a: "a \<in> set (lock_list s obj)"
    and free: "get_overlapping_entry env s obj (sle_owner (ent s a)) (sle_lock (ent s a)) = None"
  obtains (dropped) s1 where "try_to_grant_lock env a s = remove_from_locklist env a s1" "restated env a s s1"
    | (granting) "restated env a s (try_to_grant_lock env a s)"
        "sle_blocked (ent (try_to_grant_lock env a s) a) = STATE_GRANTING"
    | (told) ctx s2 s3 where "restated env a s (try_to_grant_lock env a s)"
        "nlm_granted_callback env ctx obj a s2 = (STATE_LOCK_BLOCKED, s3)"
proof (cases "sle_blocked (ent s a) = STATE_CANCELED \<or> sle_block_data (ent s a) = None
    \<or> \<not> export_ready env (sle_export (ent s a))")
  case True
  then have "try_to_grant_lock env a s = remove_from_locklist env a s"
    by (auto simp: try_to_grant_lock_def Let_def)
  moreover have "restated env a s s" using inv by (simp add: restated_def)
  ultimately show thesis by (rule dropped)
next
  case False
  then obtain bd where bd: "sle_block_data (ent s a) = Some bd" by auto
  define x where "x = sle_export (ent s a)"
  have obj: "sle_obj (ent s a) = obj" using inv lock_wfD(3) [OF _ a] by (simp add: lock_inv_def)
  define s2 where "s2 = upd_ent a (sle_block_data_update (map_option (sbd_grant_type_update
      (\<lambda>g. if g = STATE_GRANT_NONE then STATE_GRANT_INTERNAL else g))))
    (upd_ent a (sle_blocked_update (\<lambda>_. STATE_GRANTING)) (s\<lparr>exp_refcount := (exp_refcount s)(x := exp_refcount s x + 1)\<rparr>))"
  obtain status s3 where callback: "nlm_granted_callback env x obj a s2 = (status, s3)" by fastforce
  note r = granting_callback [OF inv a free s2_def callback]
  define s4 where "s4 = s3\<lparr>exp_refcount := (exp_refcount s3)(x := exp_refcount s3 x - 1)\<rparr>"
  define s5 where "s5 = s4\<lparr>state_blocked_locks := remove1 a (state_blocked_locks s4)\<rparr>"
  have r4: "restated env a s s4" "sle_blocked (ent s4 a) = STATE_GRANTING" using r by (simp_all add: s4_def)
  have r5: "restated env a s s5" "sle_blocked (ent s5 a) = STATE_GRANTING" using r4 by (simp_all add: s5_def)
  have try_eq: "try_to_grant_lock env a s = (if status = STATE_LOCK_BLOCKED then
      upd_ent a (\<lambda>e. e\<lparr>sle_blocked := sle_blocked (ent s a), sle_block_data :=
        map_option (sbd_grant_type_update (\<lambda>_. STATE_GRANT_NONE)) (sle_block_data e)\<rparr>) s4
      else if status = STATE_SUCCESS then s5 else remove_from_locklist env a s5)"
    using False callback obj bd
    by (simp add: try_to_grant_lock_def Let_def s2_def s4_def s5_def x_def)
  show thesis
    using try_eq dropped [OF _ r5(1)] granting told [of x s2 s3] callback r5 restated_put [OF r4]
    by (simp split: if_splits)
qed

lemma try_to_grant_lock_inv:
  assumes inv: "lock_inv env s" and a: "a \<in> set (lock_list s obj)"
    and free: "get_overlapping_entry env s obj (sle_owner (ent s a)) (sle_lock (ent s a)) = None"
  shows "lock_inv env (try_to_grant_lock env a s)"
    and "set (lock_list s obj') - {a} \<subseteq> set (lock_list (try_to_grant_lock env a s) obj')"
    and "set (lock_list (try_to_grant_lock env a s) obj') \<subseteq> set (lock_list s obj')"
    and "b < next_entry s \<Longrightarrow> b \<noteq> a \<Longrightarrow> core_eq (ent s b) (ent (try_to_grant_lock env a s) b)"
    and "a \<in> set (lock_list (try_to_grant_lock env a s) obj') \<Longrightarrow>
      same_lock (ent s a) (ent (try_to_grant_lock env a s) a)"
proof -
  let ?s = "try_to_grant_lock env a s"
  consider "restated env a s ?s" | s1 where "?s = remove_from_locklist env a s1" "restated env a s s1"
    using try_to_grant_cases [OF assms] by metis
  then have "lock_inv env ?s \<and>
    (\<forall>obj'. set (lock_list s obj') - {a} \<subseteq> set (lock_list ?s obj') \<and> set (lock_list ?s obj') \<subseteq> set (lock_list s obj'))
    \<and> (\<forall>b < next_entry s. b \<noteq> a \<longrightarrow> core_eq (ent s b) (ent ?s b))
    \<and> (\<forall>obj'. a \<in> set (lock_list ?s obj') \<longrightarrow> same_lock (ent s a) (ent ?s a))"
  proof cases
    case 1
    then show ?thesis by (simp add: restated_def)
  next
    case (2 s1)
    have "set (lock_list (remove_from_locklist env a s1) obj') = set (lock_list s obj') - {a}" for obj'
      using remove_lists(1) [of s1 env a obj'] 2(2)
      by (simp add: restated_def lock_inv_def del: remove_effect(2))
    then show ?thesis
      unfolding 2(1) using remove_inv [of env s1] 2(2) by (auto simp: restated_def simp del: remove_effect(2))
  qed
  then show "lock_inv env ?s"
    "set (lock_list s obj') - {a} \<subseteq> set (lock_list ?s obj')" "set (lock_list ?s obj') \<subseteq> set (lock_list s obj')"
    "b < next_entry s \<Longrightarrow> b \<noteq> a \<Longrightarrow> core_eq (ent s b) (ent ?s b)"
    "a \<in> set (lock_list ?s obj') \<Longrightarrow> same_lock (ent s a) (ent ?s a)" by blast+
qed

text \<open>Looking at the locks that wait leaves alone the entries that do not.\<close>

lemma grant_loop_inv:
  assumes "lock_inv env s" "set xs \<subseteq> set (lock_list s obj)" "distinct xs"
  shows "lock_inv env (grant_loop env obj xs s)"
    and "a \<in> set (lock_list s obj') \<Longrightarrow> sle_blocked (ent s a) \<noteq> STATE_NLM_BLOCKING \<Longrightarrow>
      sle_blocked (ent s a) \<noteq> STATE_NFSV4_BLOCKING \<Longrightarrow>
      a \<in> set (lock_list (grant_loop env obj xs s) obj') \<and> core_eq (ent s a) (ent (grant_loop env obj xs s) a)"
    and "a \<in> set (lock_list (grant_loop env obj xs s) obj') \<Longrightarrow>
      a \<in> set (lock_list s obj') \<and> same_lock (ent s a) (ent (grant_loop env obj xs s) a)"
proof -
  have "lock_inv env (grant_loop env obj xs s) \<and>
    (\<forall>a obj'. a \<in> set (lock_list s obj') \<longrightarrow> sle_blocked (ent s a) \<noteq> STATE_NLM_BLOCKING \<longrightarrow>
      sle_blocked (ent s a) \<noteq> STATE_NFSV4_BLOCKING \<longrightarrow>
      a \<in> set (lock_list (grant_loop env obj xs s) obj') \<and> core_eq (ent s a) (ent (grant_loop env obj xs s) a))
    \<and> (\<forall>a obj'. a \<in> set (lock_list (grant_loop env obj xs s) obj') \<longrightarrow>
         a \<in> set (lock_list s obj') \<and> same_lock (ent s a) (ent (grant_loop env obj xs s) a))"
    using assms
  proof (induction xs arbitrary: s)
    case (Cons a0 xs)
    let ?e = "ent s a0"
    have wf: "lock_wf s" using Cons.prems by (simp add: lock_inv_def)
    have a0: "a0 \<in> set (lock_list s obj)" using Cons.prems by simp
    show ?case
    proof (cases "(sle_blocked ?e = STATE_NLM_BLOCKING \<or> sle_blocked ?e = STATE_NFSV4_BLOCKING)
        \<and> get_overlapping_entry env s obj (sle_owner ?e) (sle_lock ?e) = None")
      case True
      let ?s = "try_to_grant_lock env a0 s"
      note step = try_to_grant_lock_inv [OF Cons.prems(1) a0 conjunct2 [OF True]]
      have "set xs \<subseteq> set (lock_list ?s obj)" using step(2) [of obj] Cons.prems(2,3) by auto
      note IH = Cons.IH [OF step(1) this]
      have kept: "a \<in> set (lock_list ?s obj') \<and> core_eq (ent s a) (ent ?s a)"
        if "a \<in> set (lock_list s obj')" "sle_blocked (ent s a) \<noteq> STATE_NLM_BLOCKING"
          "sle_blocked (ent s a) \<noteq> STATE_NFSV4_BLOCKING" for a obj'
        using that True step(2) [of obj'] step(4) [OF lock_wfD(4) [OF wf that(1)]] by auto
      have eq: "grant_loop env obj (a0 # xs) s = grant_loop env obj xs ?s"
        using True by (auto simp: Let_def)
      have "a \<in> set (lock_list s obj') \<and> same_lock (ent s a) (ent ?s a)"
        if "a \<in> set (lock_list ?s obj')" for a obj'
      proof (cases "a = a0")
        case True
        then show ?thesis using that step(3,5) by blast
      next
        case False
        have "a \<in> set (lock_list s obj')" using that step(3) by blast
        then show ?thesis using False step(4) [OF lock_wfD(4) [OF wf]] same_lock_core by blast
      qed
      note later = this
      have "lock_inv env (grant_loop env obj xs ?s)" using IH Cons.prems(3) by simp
      moreover have "a \<in> set (lock_list (grant_loop env obj xs ?s) obj')
          \<and> core_eq (ent s a) (ent (grant_loop env obj xs ?s) a)"
        if a: "a \<in> set (lock_list s obj')" "sle_blocked (ent s a) \<noteq> STATE_NLM_BLOCKING"
          "sle_blocked (ent s a) \<noteq> STATE_NFSV4_BLOCKING" for a obj'
        using IH Cons.prems(3) kept [OF a] a(2,3) core_eq_trans [of "ent s a" "ent ?s a"]
        by (auto simp: core_eq_def)
      moreover have "a \<in> set (lock_list s obj') \<and> same_lock (ent s a) (ent (grant_loop env obj xs ?s) a)"
        if "a \<in> set (lock_list (grant_loop env obj xs ?s) obj')" for a obj'
        using that IH Cons.prems(3) later same_lock_trans by auto blast
      ultimately show ?thesis unfolding eq by blast
    next
      case False
      then have "grant_loop env obj (a0 # xs) s = grant_loop env obj xs s" by (auto simp: Let_def)
      then show ?thesis using Cons by simp
    qed
  qed simp
  then show "lock_inv env (grant_loop env obj xs s)"
    and "a \<in> set (lock_list s obj') \<Longrightarrow> sle_blocked (ent s a) \<noteq> STATE_NLM_BLOCKING \<Longrightarrow>
      sle_blocked (ent s a) \<noteq> STATE_NFSV4_BLOCKING \<Longrightarrow>
      a \<in> set (lock_list (grant_loop env obj xs s) obj') \<and> core_eq (ent s a) (ent (grant_loop env obj xs s) a)"
    and "a \<in> set (lock_list (grant_loop env obj xs s) obj') \<Longrightarrow>
      a \<in> set (lock_list s obj') \<and> same_lock (ent s a) (ent (grant_loop env obj xs s) a)" by blast+
qed

lemma grant_blocked_locks_effect:
  assumes "lock_inv env s"
  shows "lock_inv env (grant_blocked_locks env ctx obj s)"
    and "a \<in> set (lock_list s obj') \<Longrightarrow> sle_blocked (ent s a) \<noteq> STATE_NLM_BLOCKING \<Longrightarrow>
      sle_blocked (ent s a) \<noteq> STATE_NFSV4_BLOCKING \<Longrightarrow>
      a \<in> set (lock_list (grant_blocked_locks env ctx obj s) obj')
      \<and> core_eq (ent s a) (ent (grant_blocked_locks env ctx obj s) a)"
    and "a \<in> set (lock_list (grant_blocked_locks env ctx obj s) obj') \<Longrightarrow>
      a \<in> set (lock_list s obj') \<and> same_lock (ent s a) (ent (grant_blocked_locks env ctx obj s) a)"
  using grant_loop_inv [OF assms, of "lock_list s obj" obj] assms lock_wfD(1) [of s obj]
  by (auto simp: grant_blocked_locks_def lock_inv_def)

lemmas grant_blocked_locks_inv = grant_blocked_locks_effect(1)

lemma grant_blocked_locks_locked:
  assumes "lock_inv env s" "locked env s obj' t ow x"
  shows "locked env (grant_blocked_locks env ctx obj s) obj' t ow x"
proof -
  from assms(2) obtain a where a: "a \<in> set (lock_list s obj')" "granted (sle_blocked (ent s a))"
    "\<not> differ env (sle_owner (ent s a)) ow" "lock_type (sle_lock (ent s a)) = t"
    "x \<in> lock_bytes (sle_lock (ent s a))" unfolding locked_iff by blast
  then have "a \<in> set (lock_list (grant_blocked_locks env ctx obj s) obj')"
    and core: "core_eq (ent s a) (ent (grant_blocked_locks env ctx obj s) a)"
    using grant_blocked_locks_effect(2) [OF assms(1) a(1)] by (auto simp: granted_iff)
  then show ?thesis
    unfolding locked_iff using a core_eq_range(2) [OF core] by (intro bexI [of _ a]) (auto simp: core_eq_def)
qed

text \<open>
  Completing a grant: the entry becomes an ordinary lock and is merged.  An entry that was removed
  from its list meanwhile has no owner, and merging it does nothing.
\<close>

lemma merge_no_owner: "sle_owner (ent s a) = None \<Longrightarrow> merge_lock_entry env obj a s = Some s"
proof -
  assume "sle_owner (ent s a) = None"
  then have "merge_loop env obj a xs s = Some s" for xs
    by (induction xs) (simp_all add: merge_loop_Cons merge_step_skip merge_skips_def own.null_right)
  then show ?thesis by (simp add: merge_lock_entry_def)
qed

lemma complete_listed:
  assumes inv: "lock_inv env s" and a: "a \<in> set (lock_list s obj)" and gr: "sle_blocked (ent s a) = STATE_GRANTING"
  defines "s1 \<equiv> upd_ent a (sle_blocked_update (\<lambda>_. STATE_NON_BLOCKING)) s"
  shows "\<exists>s'. merge_lock_entry env obj a s1 = Some s' \<and> merged env obj a s1 s' \<and> lock_inv env s'"
    and "lock_inv env s1"
proof -
  show inv1: "lock_inv env s1" unfolding s1_def by (rule set_blocked_inv [OF inv]) (simp add: gr)
  have wf: "lock_wf s1" using inv1 by (simp add: lock_inv_def)
  have a1: "a \<in> set (lock_list s1 obj)" using a by (simp add: s1_def)
  have "work obj a s1 = set (lock_list s1 obj)" using a1 by (auto simp: work_def)
  then have "merge_ready obj a s1"
    using lock_wfD(1,2,3) [OF wf, where obj = obj] by (simp add: merge_ready_def s1_def)
  from merge_lock_entry_ends [OF this, of env] obtain s' where
    "merge_lock_entry env obj a s1 = Some s'" "merged env obj a s1 s'" by blast
  then show "\<exists>s'. merge_lock_entry env obj a s1 = Some s' \<and> merged env obj a s1 s' \<and> lock_inv env s'"
    using merged_inv [OF _ a1 inv1] by blast
qed

lemma complete_inv:
  assumes inv: "lock_inv env s" and a: "on_file s a obj" and gr: "sle_blocked (ent s a) = STATE_GRANTING"
  shows "\<exists>s'. merge_lock_entry env obj a (upd_ent a (sle_blocked_update (\<lambda>_. STATE_NON_BLOCKING)) s) = Some s'
    \<and> lock_inv env s'"
proof (cases "sle_owner (ent s a)")
  case None
  have "lock_inv env (upd_ent a (sle_blocked_update (\<lambda>_. STATE_NON_BLOCKING)) s)"
    by (rule set_blocked_inv [OF inv]) (simp add: gr)
  with None show ?thesis by (simp add: merge_no_owner)
next
  case (Some ow)
  then have "a \<in> set (lock_list s obj)" using a by (simp add: on_file_def)
  then show ?thesis using complete_listed(1) [OF inv _ gr] by blast
qed

text \<open>The bytes of the completed lock stay locked, and so do those of other owners.\<close>

lemma merged_outcome:
  assumes inv: "lock_inv env s" and m: "merged env obj a s s'" and a: "a \<in> set (lock_list s obj)"
  shows "x \<in> lock_bytes (sle_lock (ent s a)) \<Longrightarrow> \<not> differ env (sle_owner (ent s a)) ow \<Longrightarrow>
      locked env s' obj (lock_type (sle_lock (ent s a))) ow x"
    and "locked env s obj' t ow x \<Longrightarrow> differ env ow (sle_owner (ent s a)) \<Longrightarrow> locked env s' obj' t ow x"
proof -
  note D = mergedD [OF m]
  have wf: "lock_wf s" using inv by (simp add: lock_inv_def)
  have only: "obj'' = obj" if "a \<in> set (lock_list s obj'')" for obj''
    using lock_wfD(3) [OF wf] a that by metis
  have work: "work obj a s' = set (lock_list s' obj)" "work obj a s = set (lock_list s obj)"
    using a D(11) by (auto simp: work_def)
  show "locked env s' obj (lock_type (sle_lock (ent s a))) ow x"
    if "x \<in> lock_bytes (sle_lock (ent s a))" "\<not> differ env (sle_owner (ent s a)) ow"
  proof -
    have "a \<in> set (lock_list s' obj)" using a D(11) by blast
    moreover have "sle_blocked (ent s' a) = STATE_NON_BLOCKING" using D(1) by (simp add: merge_ready_def)
    ultimately show ?thesis unfolding locked_iff using that D(8,9,10) by (intro bexI [of _ a]) auto
  qed
  show "locked env s' obj' t ow x" if l: "locked env s obj' t ow x" and d: "differ env ow (sle_owner (ent s a))"
  proof (cases "obj' = obj")
    case True
    from l obtain b where b: "granted b" "held env s (work obj a s) b t ow x"
      unfolding locked_def True work by blast
    from D(13) [OF b(2)] have "held env s' (work obj a s') b t ow x" using d own.symmetric by metis
    then show ?thesis using b(1) unfolding True locked_def work by blast
  qed (use l merged_locked(1) [OF m wf only] in blast)
qed

lemma on_file_listed: "lock_wf s \<Longrightarrow> a \<in> set (lock_list s obj) \<Longrightarrow> on_file s a obj"
  by (simp add: on_file_def lock_wfD)

text \<open>
  What a lock request does to the bytes that are locked: if it succeeds, the owner has its range
  and the other owners keep theirs, before the locks that wait are looked at; if it does not,
  nothing changes.
\<close>

definition lock_outcome ::
  "'fs lock_env \<Rightarrow> nat \<Rightarrow> nat \<Rightarrow> nat \<Rightarrow> fsal_lock_param_t \<Rightarrow> 'fs lock_sys \<Rightarrow> state_status_t \<Rightarrow> 'fs lock_sys \<Rightarrow> bool" where
  "lock_outcome env ctx obj owner lock s status s' \<longleftrightarrow>
     (if status = STATE_SUCCESS then
       \<exists>s1. (s' = s1 \<or> s' = grant_blocked_locks env ctx obj s1) \<and> lock_inv env s1
         \<and> (\<forall>x \<in> lock_bytes lock. locked env s1 obj (lock_type lock) (Some owner) x)
         \<and> (\<forall>obj' t ow x. locked env s obj' t ow x \<longrightarrow> differ env ow (Some owner) \<longrightarrow> locked env s1 obj' t ow x)
      else \<forall>obj' t ow x. locked env s' obj' t ow x \<longleftrightarrow> locked env s obj' t ow x)"

lemma set_granted_locked:
  assumes "granted b" "granted (sle_blocked (ent s a))"
  shows "locked env (upd_ent a (sle_blocked_update (\<lambda>_. b)) s) obj t ow x \<longleftrightarrow> locked env s obj t ow x"
  unfolding locked_iff using assms by (auto split: if_splits)

text \<open>A request for a range the owner is just being granted completes the grant.\<close>

lemma complete_outcome:
  assumes inv: "lock_inv env s" and a: "a \<in> set (lock_list s obj)"
    and gr: "sle_blocked (ent s a) = STATE_GRANTING"
    and same: "\<not> differ env (sle_owner (ent s a)) (Some owner)" "lock_type (sle_lock (ent s a)) = lock_type lock"
      "lock_bytes lock \<subseteq> lock_bytes (sle_lock (ent s a))"
    and q: "quiet {} (next_entry s) s s1"
  shows "\<exists>s'. (do { s \<leftarrow> merge_lock_entry env obj a (upd_ent a (sle_blocked_update (\<lambda>_. STATE_NON_BLOCKING)) s1);
           Some (grant_blocked_locks env ctx obj s) }) = Some s' \<and> lock_inv env s'
         \<and> lock_outcome env ctx obj owner lock s STATE_SUCCESS s'"
proof -
  have wf: "lock_wf s" using inv by (simp add: lock_inv_def)
  have core: "core_eq (ent s a) (ent s1 a)" using q lock_wfD(4) [OF wf a] by (simp add: quiet_def)
  have a1: "a \<in> set (lock_list s1 obj)" using q a by (simp add: quiet_def)
  have gr1: "sle_blocked (ent s1 a) = STATE_GRANTING" using core gr by (simp add: core_eq_def)
  let ?s2 = "upd_ent a (sle_blocked_update (\<lambda>_. STATE_NON_BLOCKING)) s1"
  note c = complete_listed [OF quiet_inv0 [OF q inv] a1 gr1]
  then obtain s3 where m: "merge_lock_entry env obj a ?s2 = Some s3" "merged env obj a ?s2 s3" "lock_inv env s3"
    by blast
  have locked2: "locked env ?s2 obj' t ow x \<longleftrightarrow> locked env s obj' t ow x" for obj' t ow x
    using set_granted_locked [of STATE_NON_BLOCKING s1 a env] gr1 quiet_locked [OF q wf] by simp
  have "a \<in> set (lock_list ?s2 obj)" using a1 by simp
  note out = merged_outcome [OF c(2) m(2) this]
  have e: "sle_owner (ent ?s2 a) = sle_owner (ent s a)" "lock_type (sle_lock (ent ?s2 a)) = lock_type lock"
    "lock_bytes (sle_lock (ent ?s2 a)) = lock_bytes (sle_lock (ent s a))"
    using core core_eq_range(2) [OF core] same(2) by (simp_all add: core_eq_def)
  have "lock_outcome env ctx obj owner lock s STATE_SUCCESS (grant_blocked_locks env ctx obj s3)"
    unfolding lock_outcome_def if_P [OF refl]
  proof (intro exI [of _ s3] conjI ballI allI impI)
    show "locked env s3 obj (lock_type lock) (Some owner) x" if "x \<in> lock_bytes lock" for x
      using out(1) [of x "Some owner"] that same e by auto
    show "locked env s3 obj' t ow x" if "locked env s obj' t ow x" "differ env ow (Some owner)" for obj' t ow x
      using out(2) [of obj' t ow x] that locked2 own.cong_right [OF same(1)] e(1) by simp
  qed (use m(3) in simp_all)
  then show ?thesis using m(1) grant_blocked_locks_inv [OF m(3)] by simp
qed

lemma grant_blocked_lock_immediate_inv:
  assumes inv: "lock_inv env s" and a: "a \<in> set (lock_list s obj)"
    and gr: "sle_blocked (ent s a) = STATE_GRANTING"
    and same: "\<not> differ env (sle_owner (ent s a)) (Some owner)" "lock_type (sle_lock (ent s a)) = lock_type lock"
      "lock_bytes lock \<subseteq> lock_bytes (sle_lock (ent s a))"
  shows "\<exists>s'. grant_blocked_lock_immediate env ctx obj a s = Some s' \<and> lock_inv env s'
    \<and> lock_outcome env ctx obj owner lock s STATE_SUCCESS s'"
proof -
  have wf: "lock_wf s" using inv by (simp add: lock_inv_def)
  note granted = complete_outcome [OF inv a gr same]
  show ?thesis
  proof (cases "sle_block_data (ent s a)")
    case None
    then show ?thesis using granted [of s ctx] by (simp add: grant_blocked_lock_immediate_def)
  next
    case (Some bd)
    show ?thesis
    proof (cases "sbd_blocked_cookie bd")
      case None
      then show ?thesis
        using Some granted [OF upd_block_data_quiet [of _ _ s a "\<lambda>_. None"], of ctx]
        by (simp add: grant_blocked_lock_immediate_def)
    next
      case cookie: (Some c)
      obtain st f s1 where find: "state_find_grant (sce_cookie (the (cookies s c))) s = (st, f, s1)"
        by (metis prod_cases3)
      note q = quiet_find_grant [OF find]
      have "lock_outcome env ctx obj owner lock s STATE_SUCCESS s1"
      proof -
        have "locked env s obj (lock_type lock) (Some owner) x" if "x \<in> lock_bytes lock" for x
          unfolding locked_iff using that a gr same by (intro bexI [of _ a]) auto
        then show ?thesis
          unfolding lock_outcome_def if_P [OF refl]
          using quiet_inv0 [OF q inv] quiet_locked [OF q wf] by (intro exI [of _ s1]) auto
      qed
      then show ?thesis
        using cookie Some find granted [OF quiet_trans [OF q quiet_free_cookie [of _ _ s1 "the f" True]], of ctx]
          quiet_inv0 [OF q inv]
        by (simp add: grant_blocked_lock_immediate_def)
    qed
  qed
qed

lemma state_complete_grant_inv:
  assumes inv: "lock_inv env s" and c: "cookies s c = Some ce"
  shows "\<exists>s'. state_complete_grant env ctx c s = Some s' \<and> lock_inv env s'"
proof -
  let ?a = "sce_lock_entry ce" and ?obj = "sce_obj ce"
  have free: "lock_inv env (free_cookie c True s')" if "lock_inv env s'" for s'
    by (rule quiet_inv0 [OF quiet_free_cookie that])
  have on: "on_file s ?a ?obj" using inv c by (simp add: lock_inv_def cookie_wf_def)
  show ?thesis
  proof (cases "sle_blocked (ent s ?a) = STATE_GRANTING")
    case True
    from complete_inv [OF inv on True] obtain s' where
      "merge_lock_entry env ?obj ?a (upd_ent ?a (sle_blocked_update (\<lambda>_. STATE_NON_BLOCKING)) s) = Some s'"
      "lock_inv env s'" by blast
    then show ?thesis
      using True c free [OF grant_blocked_locks_inv] by (simp add: state_complete_grant_def Let_def)
  next
    case False
    then show ?thesis using c free [OF inv] by (simp add: state_complete_grant_def Let_def)
  qed
qed

subsection \<open>Cancelling and unlocking\<close>

lemma inv_bounded: "lock_inv env s \<Longrightarrow> bounded (next_entry s) s"
  by (simp add: lock_inv_def lock_wf_bounded)

lemma do_entry_lock_op_inv:
  "lock_inv env s \<Longrightarrow> do_entry_lock_op env ctx obj a op s = (status, s') \<Longrightarrow> lock_inv env s'"
  by (rule quiet_inv0 [OF quiet_do_entry_lock_op [OF inv_bounded]])

lemma do_lock_op_inv:
  "lock_inv env s \<Longrightarrow> do_lock_op env ctx obj state op owner lock wh wc overlap s = (status, h, c, s') \<Longrightarrow>
   lock_inv env s'"
  by (rule quiet_inv0 [OF quiet_do_lock_op [OF inv_bounded]])

lemma cancel_blocked_lock_inv:
  assumes inv: "lock_inv env s"
  shows "lock_inv env (cancel_blocked_lock env ctx obj a s)"
proof -
  let ?s = "upd_ent a (sle_blocked_update (\<lambda>_. STATE_CANCELED)) s"
  have inv1: "lock_inv env ?s" by (rule set_blocked_inv [OF inv]) simp
  have found: "lock_inv env s2" if "state_find_grant cookie ?s = (st, f, s2)" for cookie st f s2
    by (rule quiet_inv0 [OF quiet_find_grant [OF that] inv1])
  show ?thesis
    unfolding cancel_blocked_lock_def Let_def
    by (auto split: option.split prod.split
        intro!: remove_inv intro: quiet_inv0 [OF quiet_free_cookie] found do_entry_lock_op_inv [OF inv1])
qed

lemma cancel_loop_inv:
  "lock_inv env s \<Longrightarrow> lock_inv env (cancel_loop env ctx obj owner state_applies state lock xs s)"
proof (induction xs arbitrary: s)
  case (Cons a xs)
  let ?loop = "cancel_loop env ctx obj owner state_applies state lock"
  have "?loop (a # xs) s = ?loop xs s \<or> ?loop (a # xs) s = ?loop xs (cancel_blocked_lock env ctx obj a s)"
    by (simp add: Let_def)
  then show ?case
    using Cons.IH [OF Cons.prems] Cons.IH [OF cancel_blocked_lock_inv [OF Cons.prems]] by auto
qed simp

lemma cancel_blocked_locks_range_inv:
  "lock_inv env s \<Longrightarrow> lock_inv env (cancel_blocked_locks_range env ctx obj owner state_applies state lock s)"
  by (simp add: cancel_blocked_locks_range_def cancel_loop_inv)

text \<open>The phases of an unlock: cancel, subtract, tell the back end, look at the locks that wait.\<close>

lemma state_unlock_phases:
  assumes inv: "lock_inv env s" and valid: "lock_valid lock" and reg: "obj_type env obj = REGULAR_FILE"
    and locks: "lock_list s obj \<noteq> []"
  obtains s1 removed xs s2 r s3 st4 h c s4 where
    "s1 = cancel_blocked_locks_range env ctx obj owner state_applies nsm lock s" "lock_inv env s1"
    "subtract_lock_from_list env owner state_applies nsm lock (lock_list s1 obj) s1 = (STATE_SUCCESS, removed, xs, s2)"
    "s3 = s2\<lparr>lock_list := (lock_list s2)(obj := xs), obj_refcount := r\<rparr>" "lock_inv env s3"
    "do_lock_op env ctx obj state FSAL_OP_UNLOCK owner lock False False False s3 = (st4, h, c, s4)" "lock_inv env s4"
    "state_unlock env ctx obj state owner state_applies nsm lock s = (st4, grant_blocked_locks env ctx obj s4)"
proof -
  define s1 where "s1 = cancel_blocked_locks_range env ctx obj owner state_applies nsm lock s"
  have inv1: "lock_inv env s1" unfolding s1_def by (rule cancel_blocked_locks_range_inv [OF inv])
  obtain removed xs s2 where sub:
    "subtract_lock_from_list env owner state_applies nsm lock (lock_list s1 obj) s1 = (STATE_SUCCESS, removed, xs, s2)"
    by (cases "subtract_loop env owner state_applies nsm lock (lock_list s1 obj) (False, [], [], s1)")
      (simp add: subtract_lock_from_list_def that)
  define r where "r = (if xs = [] then (obj_refcount s2)(obj := obj_refcount s2 obj - 1) else obj_refcount s2)"
  define s3 where "s3 = s2\<lparr>lock_list := (lock_list s2)(obj := xs), obj_refcount := r\<rparr>"
  have inv3: "lock_inv env s3" using subtract_inv [OF inv1 valid sub] by (simp add: s3_def)
  obtain st4 h c s4 where op:
    "do_lock_op env ctx obj state FSAL_OP_UNLOCK owner lock False False False s3 = (st4, h, c, s4)"
    by (metis prod_cases4)
  have "state_unlock env ctx obj state owner state_applies nsm lock s = (st4, grant_blocked_locks env ctx obj s4)"
    using reg locks sub op unfolding state_unlock_def Let_def s1_def [symmetric] s3_def r_def
    by (cases "xs = []") simp_all
  with that [OF s1_def inv1 sub s3_def inv3 op do_lock_op_inv [OF inv3 op]] show thesis by blast
qed

lemma state_unlock_inv:
  assumes inv: "lock_inv env s" and valid: "lock_valid lock"
  shows "lock_inv env (snd (state_unlock env ctx obj state owner state_applies nsm_state lock s))"
proof (cases "obj_type env obj \<noteq> REGULAR_FILE \<or> lock_list s obj = []")
  case True
  then show ?thesis using inv by (auto simp: state_unlock_def)
next
  case False
  then have "obj_type env obj = REGULAR_FILE" "lock_list s obj \<noteq> []" by auto
  from state_unlock_phases [OF inv valid this, of ctx owner state_applies nsm_state state]
  show ?thesis using grant_blocked_locks_inv by (metis snd_conv)
qed

lemma state_cancel_inv: "lock_inv env s \<Longrightarrow> lock_inv env (snd (state_cancel env ctx obj owner lock s))"
  by (auto simp: state_cancel_def intro: grant_blocked_locks_inv cancel_blocked_lock_inv split: option.split)

lemma state_release_grant_inv:
  assumes inv: "lock_inv env s"
  shows "lock_inv env (snd (state_release_grant env ctx c s))"
proof -
  let ?a = "sce_lock_entry (the (cookies s c))" and ?obj = "sce_obj (the (cookies s c))"
  define r where "r = (if sle_blocked (ent s ?a) = STATE_GRANTING then
      (case do_entry_lock_op env ctx ?obj ?a FSAL_OP_UNLOCK
              (upd_ent ?a (sle_blocked_update (\<lambda>_. STATE_CANCELED)) s) of
         (status, s) \<Rightarrow> (status, if status \<noteq> STATE_SUCCESS then s else remove_from_locklist env ?a s))
      else (STATE_SUCCESS, s))"
  have "lock_inv env (upd_ent ?a (sle_blocked_update (\<lambda>_. STATE_CANCELED)) s)"
    by (rule set_blocked_inv [OF inv]) simp
  then have "lock_inv env (snd r)"
    using inv by (auto simp: r_def split: prod.split intro: remove_inv dest: do_entry_lock_op_inv)
  then have "lock_inv env (grant_blocked_locks env ctx ?obj (free_cookie c True (snd r)))"
    by (intro grant_blocked_locks_inv quiet_inv0 [OF quiet_free_cookie])
  moreover have "snd (state_release_grant env ctx c s) =
     (let s = grant_blocked_locks env ctx ?obj (free_cookie c True (snd r)) in
      if lock_list s ?obj = []
      then s\<lparr>obj_refcount := (obj_refcount s)(?obj := obj_refcount s ?obj - 1)\<rparr> else s)"
    by (simp add: state_release_grant_def r_def Let_def split_def)
  ultimately show ?thesis by (simp add: Let_def)
qed

subsection \<open>Locking\<close>

text \<open>What the scan of the list shows.\<close>

lemma lock_scan_end:
  "lock_scan_loop env ctx s owner lock overlap xs = Scan_end overlap' \<Longrightarrow> \<not> lock_reclaim lock \<Longrightarrow>
   a \<in> set xs \<Longrightarrow> \<not> entry_conflicts env (ent s a) (Some owner) lock"
  by (induction xs arbitrary: overlap) (auto simp: Let_def split: if_splits)

lemma lock_scan_conflict:
  "lock_scan_loop env ctx s owner lock overlap xs = Scan_conflict a \<Longrightarrow>
   a \<in> set xs \<and> entry_conflicts env (ent s a) (Some owner) lock"
  by (induction xs arbitrary: overlap) (auto simp: Let_def split: if_splits)

lemma lock_scan_existing:
  "lock_scan_loop env ctx s owner lock overlap xs = Scan_existing a \<Longrightarrow>
   a \<in> set xs \<and> lock_end (sle_lock (ent s a)) \<ge> lock_end lock
   \<and> lock_start (sle_lock (ent s a)) \<le> lock_start lock \<and> lock_type (sle_lock (ent s a)) = lock_type lock
   \<and> granted (sle_blocked (ent s a)) \<and> \<not> differ env (sle_owner (ent s a)) (Some owner)"
  by (induction xs arbitrary: overlap) (auto simp: Let_def granted_def split: if_splits)

text \<open>The new entry, up to the call into the back end.\<close>

lemma new_entry_effect:
  assumes inv: "lock_inv env s"
    and create: "create_state_lock_entry env obj ctx STATE_NON_BLOCKING owner state lock s = (a, s1)"
    and call: "do_lock_op env ctx obj state op (Some owner) lock wh wc overlap s1 = (status, h, c, s2)
      \<or> s2 = s1"
  shows "quiet {} (next_entry s) s s2" "lock_inv env s2" "a = next_entry s" "a < next_entry s2"
    and "\<And>obj'. a \<notin> set (lock_list s2 obj')"
    and "sle_obj (ent s2 a) = obj" "sle_owner (ent s2 a) = Some owner"
    and "sle_blocked (ent s2 a) = STATE_NON_BLOCKING"
    and "lock_type (sle_lock (ent s2 a)) = lock_type lock"
    and "lock_bytes (sle_lock (ent s2 a)) = lock_bytes lock"
    and "lock_valid (sle_lock (ent s2 a)) = lock_valid lock"
proof -
  have b: "bounded (next_entry s) s" by (rule inv_bounded [OF inv])
  note eff = create_effect [of env obj ctx STATE_NON_BLOCKING owner state lock s, unfolded create fst_conv snd_conv]
  show a: "a = next_entry s" by (rule eff(1))
  have b1: "bounded (Suc (next_entry s)) s1"
    using b eff by (auto simp: bounded_def less_Suc_eq)
  have q: "quiet {} (Suc (next_entry s)) s1 s2"
    using call quiet_do_lock_op [OF b1] by auto
  have "quiet {} (next_entry s) s s1"
    using quiet_create [of "next_entry s" s "{}" env obj ctx STATE_NON_BLOCKING owner state lock] create by simp
  moreover have "quiet {} (next_entry s) s1 s2" using q by (simp add: quiet_def)
  ultimately show q2: "quiet {} (next_entry s) s s2" by (rule quiet_trans)
  show "lock_inv env s2" by (rule quiet_inv0 [OF q2 inv])
  show "a < next_entry s2" using q a eff(3) by (simp add: quiet_def)
  show "a \<notin> set (lock_list s2 obj')" for obj'
    using q2 b a by (auto simp: quiet_def bounded_def)
  have core: "core_eq (ent s1 a) (ent s2 a)" using q a by (simp add: quiet_def)
  then show "sle_obj (ent s2 a) = obj" "sle_owner (ent s2 a) = Some owner"
    "sle_blocked (ent s2 a) = STATE_NON_BLOCKING" "lock_type (sle_lock (ent s2 a)) = lock_type lock"
    using eff(2) a by (simp_all add: core_eq_def)
  show "lock_bytes (sle_lock (ent s2 a)) = lock_bytes lock" "lock_valid (sle_lock (ent s2 a)) = lock_valid lock"
    using core_eq_range(2,3) [OF core] eff(2) a by simp_all
qed

text \<open>
  Adding the entry after the back end agreed: it is merged, and no byte it covers is locked by
  another owner in conflict.
\<close>

lemma insert_granted:
  assumes inv: "lock_inv env s" and a: "a < next_entry s" "\<And>obj'. a \<notin> set (lock_list s obj')"
    "sle_obj (ent s a) = obj" "sle_owner (ent s a) = Some owner" "sle_blocked (ent s a) = STATE_NON_BLOCKING"
    "lock_valid (sle_lock (ent s a))"
    and free: "\<And>t ow x. locked env s obj t ow x \<Longrightarrow> x \<in> lock_bytes (sle_lock (ent s a)) \<Longrightarrow>
      t = FSAL_LOCK_W \<or> lock_type (sle_lock (ent s a)) = FSAL_LOCK_W \<Longrightarrow>
      \<not> differ env ow (sle_owner (ent s a))"
  shows "\<exists>s'. merge_lock_entry env obj a s = Some s' \<and> merged env obj a s s'
    \<and> lock_inv env (s'\<lparr>lock_list := (lock_list s')(obj := lock_list s' obj @ [a])\<rparr>)"
proof -
  have wf: "lock_wf s" using inv by (simp add: lock_inv_def)
  have "good_entries s (work obj a s)"
    using lock_wfD(2) [OF wf, of obj] a by (auto simp: good_entries_def work_def)
  then have "merge_ready obj a s"
    using lock_wfD(1,3) [OF wf, where obj = obj] a(5) by (simp add: merge_ready_def)
  from merge_lock_entry_ends [OF this, of env] obtain s' where
    m: "merge_lock_entry env obj a s = Some s'" "merged env obj a s s'" by blast
  have "lock_inv env (s'\<lparr>lock_list := (lock_list s')(obj := lock_list s' obj @ [a])\<rparr>)"
    by (rule merged_append_inv [OF m(2) inv a(1,2,3) free])
  with m show ?thesis by blast
qed

lemma state_lock_insert_eq:
  assumes "\<not> (blocking \<noteq> STATE_NLM_BLOCKING \<and> \<not> allow)"
    and no_async: "\<not> fs_supports env ctx fso_lock_support_async_block"
    and op: "op = (if blocking = STATE_NLM_BLOCKING then FSAL_OP_LOCKB else FSAL_OP_LOCK)"
    and create: "create_state_lock_entry env obj ctx STATE_NON_BLOCKING owner state lock s = (a, s1)"
    and call: "(if allow then do_lock_op env ctx obj state op (Some owner) lock allow allow overlap s1
      else (STATE_LOCK_BLOCKED, None, None, s1)) = (status, h, c, s2)"
    and s3: "s3 = (if lock_list s2 obj = []
      then s2\<lparr>obj_refcount := (obj_refcount s2)(obj := obj_refcount s2 obj + 1)\<rparr> else s2)"
    and s4: "s4 = upd_ent a (\<lambda>e. e\<lparr>sle_block_data := map_option (sbd_block_type_update (\<lambda>_.
      if allow then STATE_BLOCK_POLL else STATE_BLOCK_INTERNAL)) block_data, sle_blocked := blocking\<rparr>) s2"
  shows "state_lock_insert env ctx obj owner state blocking block_data lock allow overlap holder conflict s =
    (let h = (if h \<noteq> None then h else holder); c = (if c \<noteq> None then c else conflict) in
     if status = STATE_SUCCESS then
       do { s \<leftarrow> merge_lock_entry env obj a s3;
            Some (status, h, c, grant_blocked_locks env ctx obj
              (s\<lparr>lock_list := (lock_list s)(obj := lock_list s obj @ [a])\<rparr>)) }
     else if status = STATE_LOCK_BLOCKED then
       Some (status, h, c, s4\<lparr>lock_list := (lock_list s4)(obj := lock_list s4 obj @ [a]),
         state_blocked_locks := state_blocked_locks s4 @ [a]\<rparr>)
     else Some (status, h, c, remove_from_locklist env a s2))"
  using create call no_async
  unfolding state_lock_insert_def if_not_P [OF assms(1)] op [symmetric] s3 s4
  by (simp add: Let_def)

lemma insert_granted_outcome:
  assumes inv: "lock_inv env s" and m: "merged env obj a s s'"
    and a: "\<And>obj'. a \<notin> set (lock_list s obj')" "sle_owner (ent s a) = Some owner"
  defines "s4 \<equiv> s'\<lparr>lock_list := (lock_list s')(obj := lock_list s' obj @ [a])\<rparr>"
  shows "x \<in> lock_bytes (sle_lock (ent s a)) \<Longrightarrow>
      locked env s4 obj (lock_type (sle_lock (ent s a))) (Some owner) x"
    and "locked env s obj' t ow x \<Longrightarrow> differ env ow (Some owner) \<Longrightarrow> locked env s4 obj' t ow x"
proof -
  note D = mergedD [OF m]
  have wf: "lock_wf s" using inv by (simp add: lock_inv_def)
  have work: "set (lock_list s4 obj) = work obj a s'" by (auto simp: work_def s4_def)
  have held4: "held env s4 A b t ow x = held env s' A b t ow x" for A b t ow x
    by (rule held_cong) (simp add: s4_def)
  show "locked env s4 obj (lock_type (sle_lock (ent s a))) (Some owner) x"
    if "x \<in> lock_bytes (sle_lock (ent s a))"
  proof -
    have "held env s' {a} STATE_NON_BLOCKING (lock_type (sle_lock (ent s a))) (Some owner) x"
      using that D(1,8,9,10) a(2) by (auto simp: held_single merge_ready_def)
    then have "held env s' (work obj a s') STATE_NON_BLOCKING (lock_type (sle_lock (ent s a))) (Some owner) x"
      by (rule held_mono [rotated]) (simp add: work_def)
    then show ?thesis unfolding locked_def work held4 using granted_simps(1) by blast
  qed
  show "locked env s4 obj' t ow x" if l: "locked env s obj' t ow x" and d: "differ env ow (Some owner)"
  proof (cases "obj' = obj")
    case True
    from l obtain b where b: "granted b" "held env s (set (lock_list s obj)) b t ow x"
      unfolding locked_def True by blast
    then have "held env s (work obj a s) b t ow x" by (intro held_mono [OF _ b(2)]) (auto simp: work_def)
    from D(13) [OF this] have "held env s' (work obj a s') b t ow x"
      using d a(2) own.symmetric by metis
    then show ?thesis using b(1) unfolding True locked_def work held4 by blast
  next
    case False
    then have "locked env s' obj' t ow x" using merged_locked(1) [OF m wf] a(1) l by blast
    then show ?thesis using False by (simp add: locked_def held_def s4_def)
  qed
qed

lemma state_lock_insert_inv:
  assumes inv: "lock_inv env s" and valid: "lock_valid lock"
    and no_async: "\<not> fs_supports env ctx fso_lock_support_async_block"
    and free: "allow \<Longrightarrow> get_overlapping_entry env s obj (Some owner) lock = None"
  shows "\<exists>st h c s'. state_lock_insert env ctx obj owner state blocking block_data lock allow overlap
      holder conflict s = Some (st, h, c, s') \<and> lock_inv env s' \<and> lock_outcome env ctx obj owner lock s st s'"
proof (cases "blocking \<noteq> STATE_NLM_BLOCKING \<and> \<not> allow")
  case True
  then show ?thesis using inv by (simp add: state_lock_insert_def lock_outcome_def)
next
  case False
  define op where "op = (if blocking = STATE_NLM_BLOCKING then FSAL_OP_LOCKB else FSAL_OP_LOCK)"
  obtain a s1 where create:
    "create_state_lock_entry env obj ctx STATE_NON_BLOCKING owner state lock s = (a, s1)" by fastforce
  obtain status h c s2 where call:
    "(if allow then do_lock_op env ctx obj state op (Some owner) lock allow allow overlap s1
      else (STATE_LOCK_BLOCKED, None, None, s1)) = (status, h, c, s2)" by (metis prod_cases4)
  have "do_lock_op env ctx obj state op (Some owner) lock allow allow overlap s1 = (status, h, c, s2) \<or> s2 = s1"
    using call by (auto split: if_splits)
  note new = new_entry_effect [OF inv create this]
  note eq = state_lock_insert_eq [OF False no_async op_def create call refl refl,
      of block_data holder conflict]
  have wf: "lock_wf s" using inv by (simp add: lock_inv_def)
  have same: "locked env s2 obj' t ow x \<longleftrightarrow> locked env s obj' t ow x" for obj' t ow x
    by (rule quiet_locked [OF new(1) wf])
  consider (granted) "status = STATE_SUCCESS" | (blocked) "status = STATE_LOCK_BLOCKED"
    | (failed) "status \<noteq> STATE_SUCCESS" "status \<noteq> STATE_LOCK_BLOCKED" by blast
  then show ?thesis
  proof cases
    case granted
    define s3 where "s3 = (if lock_list s2 obj = []
      then s2\<lparr>obj_refcount := (obj_refcount s2)(obj := obj_refcount s2 obj + 1)\<rparr> else s2)"
    have s3: "ent s3 = ent s2" "lock_list s3 = lock_list s2" "next_entry s3 = next_entry s2" "lock_inv env s3"
      using new(2) by (simp_all add: s3_def)
    have same3: "locked env s3 obj' t ow x \<longleftrightarrow> locked env s obj' t ow x" for obj' t ow x
      using same [of obj' t ow x] by (simp add: locked_def held_def s3)
    have allow: "allow" using call granted by (auto split: if_splits)
    note none = free [OF allow, unfolded get_overlapping_none [OF wf valid], rule_format]
    obtain s' where m: "merge_lock_entry env obj a s3 = Some s'" "merged env obj a s3 s'"
      "lock_inv env (s'\<lparr>lock_list := (lock_list s')(obj := lock_list s' obj @ [a])\<rparr>)"
      using insert_granted [of env s3 a obj owner] new valid none s3 same3 by auto
    let ?s4 = "s'\<lparr>lock_list := (lock_list s')(obj := lock_list s' obj @ [a])\<rparr>"
    note out = insert_granted_outcome [OF s3(4) m(2)]
    have "lock_outcome env ctx obj owner lock s STATE_SUCCESS (grant_blocked_locks env ctx obj ?s4)"
      unfolding lock_outcome_def
      using m(3) out(1) [of owner] out(2) [of owner] new(5,7,9,10) same3 by (auto simp: s3 intro!: exI [of _ ?s4])
    then show ?thesis
      using eq granted m(1) grant_blocked_locks_inv [OF m(3)] by (simp add: Let_def flip: s3_def)
  next
    case blocked
    have nlm: "blocking = STATE_NLM_BLOCKING"
    proof (cases allow)
      case True
      then show ?thesis
        using do_lock_op_blocked [of env ctx obj state op "Some owner" lock allow allow overlap s1 h c s2]
          call blocked by (auto simp: op_def split: if_splits)
    qed (use False in blast)
    let ?s4 = "upd_ent a (\<lambda>e. e\<lparr>sle_block_data := map_option (sbd_block_type_update (\<lambda>_.
      if allow then STATE_BLOCK_POLL else STATE_BLOCK_INTERNAL)) block_data, sle_blocked := blocking\<rparr>) s2"
    let ?s5 = "?s4\<lparr>lock_list := (lock_list ?s4)(obj := lock_list ?s4 obj @ [a])\<rparr>"
    have "quiet {} (next_entry s) s ?s4"
      using new(1,3) by (auto simp: quiet_def)
    then have inv4: "lock_inv env ?s4" and same4: "\<And>obj' t ow x. locked env ?s4 obj' t ow x = locked env s obj' t ow x"
      using quiet_inv0 [OF _ inv] quiet_locked [OF _ wf] by blast+
    have "lock_inv env ?s5"
      by (rule append_blocked_inv [OF inv4]) (use new valid nlm in \<open>auto simp: good_entries_def\<close>)
    moreover have "locked env ?s5 obj' t ow x \<longleftrightarrow> locked env ?s4 obj' t ow x" for obj' t ow x
      unfolding locked_iff using nlm by auto
    ultimately show ?thesis
      using eq blocked same4 by (simp add: Let_def lock_outcome_def locked_def held_def)
  next
    case failed
    have "locked env (remove_from_locklist env a s2) obj' t ow x \<longleftrightarrow> locked env s2 obj' t ow x" for obj' t ow x
    proof -
      have "set (lock_list (remove_from_locklist env a s2) obj') = set (lock_list s2 obj')"
        using new(2,5) remove_lists(1) [of s2 env a obj'] by (simp add: lock_inv_def)
      moreover have "held env (remove_from_locklist env a s2) (set (lock_list s2 obj')) b t ow x
          = held env s2 (set (lock_list s2 obj')) b t ow x" for b
        by (rule held_cong) (use new(5) in auto)
      ultimately show ?thesis by (simp only: locked_def)
    qed
    then show ?thesis
      using eq failed remove_inv [OF new(2)] same by (simp add: lock_outcome_def Let_def)
  qed
qed

text \<open>The whole request.\<close>

lemma blocked_request_status:
  "blocked_request_loop env ctx s owner blocking lock xs = Some st \<Longrightarrow> st \<noteq> STATE_SUCCESS"
  by (induction xs) (auto simp: Let_def split: if_splits)

lemma covering_bytes:
  "lock_end lock \<le> lock_end l \<Longrightarrow> lock_start l \<le> lock_start lock \<Longrightarrow> lock_bytes lock \<subseteq> lock_bytes l"
  by (auto simp: lock_bytes_def)

lemma outcome_same:
  "(\<And>obj' t ow x. locked env s1 obj' t ow x \<longleftrightarrow> locked env s obj' t ow x) \<Longrightarrow>
   lock_outcome env ctx obj owner lock s1 st s' \<Longrightarrow> lock_outcome env ctx obj owner lock s st s'"
  unfolding lock_outcome_def by (cases "st = STATE_SUCCESS") simp_all

lemma state_lock_search_inv:
  assumes inv: "lock_inv env s" and valid: "lock_valid lock" and reclaim: "\<not> lock_reclaim lock"
    and no_async: "\<not> fs_supports env ctx fso_lock_support_async_block"
  shows "\<exists>st h c s'. state_lock_search env ctx obj owner state blocking block_data lock s = Some (st, h, c, s')
    \<and> lock_inv env s' \<and> lock_outcome env ctx obj owner lock s st s'"
proof -
  define quick where "quick = (if blocking \<noteq> STATE_NON_BLOCKING
    then blocked_request_loop env ctx s owner blocking lock (lock_list s obj) else None)"
  note search = state_lock_search_def [of env ctx obj owner state blocking block_data lock s,
      folded quick_def]
  have wf: "lock_wf s" using inv by (simp add: lock_inv_def)
  show ?thesis
  proof (cases quick)
    case (Some st)
    then have "st \<noteq> STATE_SUCCESS" by (auto simp: quick_def split: if_splits dest: blocked_request_status)
    then show ?thesis using Some inv by (simp add: search lock_outcome_def)
  next
    case None
    show ?thesis
    proof (cases "lock_scan_loop env ctx s owner lock False (lock_list s obj)")
      case Scan_export
      then show ?thesis using None inv by (simp add: search lock_outcome_def)
    next
      case (Scan_conflict a)
      obtain h c s1 where copy: "copy_conflict (Some a) True True s = (h, c, s1)" by (metis prod_cases3)
      note q = quiet_copy_conflict [OF copy]
      from state_lock_insert_inv [OF quiet_inv0 [OF q inv] valid no_async, of False obj owner state blocking
          block_data True h c]
      show ?thesis
        using None Scan_conflict copy outcome_same [OF quiet_locked [OF q wf]] by (simp add: search) metis
    next
      case (Scan_existing a)
      note found = lock_scan_existing [OF Scan_existing]
      then have sub: "lock_bytes lock \<subseteq> lock_bytes (sle_lock (ent s a))" by (intro covering_bytes) auto
      show ?thesis
      proof (cases "sle_blocked (ent s a) = STATE_GRANTING")
        case True
        with found grant_blocked_lock_immediate_inv [OF inv _ True _ _ sub, of obj owner ctx]
        show ?thesis using None Scan_existing by (auto simp: search)
      next
        case False
        have "locked env s obj (lock_type lock) (Some owner) x" if "x \<in> lock_bytes lock" for x
          unfolding locked_iff using that found sub by (intro bexI [of _ a]) auto
        then show ?thesis
          using None Scan_existing False inv by (simp add: search lock_outcome_def) blast
      qed
    next
      case (Scan_end overlap)
      have "get_overlapping_entry env s obj (Some owner) lock = None"
        using lock_scan_end [OF Scan_end reclaim] by (auto simp: get_overlapping_entry_def find_None_iff Let_def)
      with state_lock_insert_inv [OF inv valid no_async] show ?thesis
        using None Scan_end by (simp add: search)
    qed
  qed
qed

lemma state_lock_inv:
  assumes inv: "lock_inv env s" and valid: "lock_valid lock" and reclaim: "\<not> lock_reclaim lock"
    and no_async: "\<not> fs_supports env ctx fso_lock_support_async_block"
  shows "\<exists>st h c s'. state_lock env ctx obj owner state blocking block_data lock s = Some (st, h, c, s')
    \<and> lock_inv env s' \<and> lock_outcome env ctx obj owner lock s st s'"
proof -
  obtain opened s1 where op: "state_lock_open env ctx obj lock s = (opened, s1)" by fastforce
  then obtain fs where s1: "s1 = s\<lparr>fsal := fs\<rparr>"
    unfolding state_lock_open_def by (auto split: if_splits prod.splits intro: that [of "fsal s"])
  have inv1: "lock_inv env s1" using inv by (simp add: s1)
  have same: "locked env s1 obj' t ow x \<longleftrightarrow> locked env s obj' t ow x" for obj' t ow x
    by (simp add: s1 locked_def held_def)
  show ?thesis
  proof (cases "FSAL_IS_ERROR opened")
    case True
    then have "state_error_convert opened \<noteq> STATE_SUCCESS" by (simp add: state_error_convert_ok)
    with True show ?thesis using op inv1 same by (simp add: state_lock_def lock_outcome_def)
  next
    case False
    from state_lock_search_inv [OF inv1 valid reclaim no_async]
    show ?thesis using False op outcome_same [OF same] by (simp add: state_lock_def) metis
  qed
qed

end
