(* ===== verification/Lock_Unlock.thy ===== *)
theory Lock_Unlock
  imports Lock_Safety
begin

text \<open>
  What an unlock does to the locks that are held: the owner holds no byte of the range any more,
  the waiting requests of the owner there are cancelled, and the locks of the other owners stay.
\<close>

subsection \<open>Cancelling\<close>

text \<open>An entry is cancelled: it is gone from its list, or it stays there marked as cancelled.\<close>

definition canceled :: "nat \<Rightarrow> 'fs lock_sys \<Rightarrow> 'fs lock_sys \<Rightarrow> bool" where
  "canceled a s s' \<longleftrightarrow> next_entry s \<le> next_entry s'
     \<and> (\<forall>b < next_entry s. b \<noteq> a \<longrightarrow> core_eq (ent s b) (ent s' b))
     \<and> (\<forall>obj. set (lock_list s' obj) \<subseteq> set (lock_list s obj) \<and> set (lock_list s obj) - {a} \<subseteq> set (lock_list s' obj)
          \<and> (a \<in> set (lock_list s' obj) \<longrightarrow>
               sle_blocked (ent s' a) = STATE_CANCELED \<and> same_lock (ent s a) (ent s' a)))"

lemma canceledI:
  assumes q: "quiet G (next_entry s) (upd_ent a (sle_blocked_update (\<lambda>_. STATE_CANCELED)) s) s1"
    and inv: "lock_inv env s1" and a: "a < next_entry s"
    and s': "s' = s1 \<or> s' = remove_from_locklist env a s1"
  shows "canceled a s s'"
proof -
  have wf: "lock_wf s1" using inv by (simp add: lock_inv_def)
  have one: "next_entry s \<le> next_entry s1" "lock_list s1 = lock_list s"
    "\<And>b. b < next_entry s \<Longrightarrow> b \<noteq> a \<Longrightarrow> core_eq (ent s b) (ent s1 b)"
    "sle_blocked (ent s1 a) = STATE_CANCELED" "same_lock (ent s a) (ent s1 a)"
    using q a by (auto simp: quiet_def same_lock_def core_eq_def)
  show ?thesis
    using s'
  proof
    assume "s' = s1"
    then show ?thesis using one by (simp add: canceled_def)
  next
    assume s': "s' = remove_from_locklist env a s1"
    then show ?thesis using one remove_lists(1) [OF wf, of env a] by (simp add: canceled_def)
  qed
qed

lemma cancel_blocked_lock_canceled:
  assumes inv: "lock_inv env s" and a: "a < next_entry s"
  shows "canceled a s (cancel_blocked_lock env ctx obj a s)"
proof -
  let ?s = "upd_ent a (sle_blocked_update (\<lambda>_. STATE_CANCELED)) s"
  have inv1: "lock_inv env ?s" by (rule set_blocked_inv [OF inv]) simp
  have b: "bounded (next_entry s) ?s" using lock_wf_bounded [of ?s] inv1 by (simp add: lock_inv_def)
  show ?thesis
  proof (cases "case sle_block_data (ent ?s a) of None \<Rightarrow> None | Some bd \<Rightarrow> sbd_blocked_cookie bd")
    case None
    obtain st s1 where op: "do_entry_lock_op env ctx obj a FSAL_OP_CANCEL ?s = (st, s1)" by fastforce
    show ?thesis
      by (rule canceledI [OF quiet_do_entry_lock_op [OF b op, of "{}"] do_entry_lock_op_inv [OF inv1 op] a])
        (use None op in \<open>auto simp: cancel_blocked_lock_def Let_def\<close>)
  next
    case (Some c)
    obtain st f s1 where find: "state_find_grant (sce_cookie (the (cookies ?s c))) ?s = (st, f, s1)"
      by (metis prod_cases3)
    define s2 where "s2 = (if st = STATE_SUCCESS then free_cookie (the f) True s1 else s1)"
    have q: "quiet {} n s1 s2" for n by (simp add: s2_def quiet_free_cookie)
    have q1: "quiet {} (next_entry s) ?s s2" by (rule quiet_trans [OF quiet_find_grant [OF find] q])
    moreover have "lock_inv env s2" by (rule quiet_inv0 [OF q]) (rule quiet_inv0 [OF quiet_find_grant [OF find] inv1])
    ultimately show ?thesis
      by (rule canceledI [OF _ _ a]) (use Some find in \<open>auto simp: cancel_blocked_lock_def Let_def s2_def\<close>)
  qed
qed

text \<open>A waiting request of the owner in the range.\<close>

definition waits :: "'fs lock_env \<Rightarrow> nat \<Rightarrow> fsal_lock_param_t \<Rightarrow> state_lock_entry_t \<Rightarrow> bool" where
  "waits env owner lock e \<longleftrightarrow> \<not> differ env (sle_owner e) (Some owner)
     \<and> sle_blocked e \<noteq> STATE_NON_BLOCKING \<and> locks_overlap (sle_lock e) lock"

lemma waits_core: "core_eq e e' \<Longrightarrow> waits env owner lock e' = waits env owner lock e"
  by (simp add: waits_def core_eq_def locks_overlap_def lock_end_def)

lemma cancel_loop_step:
  "cancel_loop env ctx obj (Some owner) False st lock (a # xs) s =
     cancel_loop env ctx obj (Some owner) False st lock xs
       (if waits env owner lock (ent s a) then cancel_blocked_lock env ctx obj a s else s)"
  by (simp add: waits_def Let_def)

lemma cancel_loop_effect:
  assumes "lock_inv env s" "distinct xs" "set xs \<subseteq> set (lock_list s obj)"
  shows "(\<forall>b obj'. b \<in> set (lock_list (cancel_loop env ctx obj (Some owner) False st lock xs s) obj') \<longrightarrow>
      b \<in> set (lock_list s obj')
      \<and> same_lock (ent s b) (ent (cancel_loop env ctx obj (Some owner) False st lock xs s) b)
      \<and> (core_eq (ent s b) (ent (cancel_loop env ctx obj (Some owner) False st lock xs s) b)
           \<and> \<not> (b \<in> set xs \<and> waits env owner lock (ent s b))
         \<or> sle_blocked (ent (cancel_loop env ctx obj (Some owner) False st lock xs s) b) = STATE_CANCELED))
    \<and> (\<forall>b obj'. b \<in> set (lock_list s obj') \<longrightarrow> \<not> (b \<in> set xs \<and> waits env owner lock (ent s b)) \<longrightarrow>
      b \<in> set (lock_list (cancel_loop env ctx obj (Some owner) False st lock xs s) obj')
      \<and> core_eq (ent s b) (ent (cancel_loop env ctx obj (Some owner) False st lock xs s) b))"
  using assms
proof (induction xs arbitrary: s)
  case (Cons a xs)
  show ?case
  proof (cases "waits env owner lock (ent s a)")
    case False
    then show ?thesis using Cons.IH [OF Cons.prems(1)] Cons.prems(2,3) unfolding cancel_loop_step by auto
  next
    case True
    let ?s = "cancel_blocked_lock env ctx obj a s"
    let ?r = "cancel_loop env ctx obj (Some owner) False st lock xs ?s"
    have wf: "lock_wf s" using Cons.prems(1) by (simp add: lock_inv_def)
    have a: "a < next_entry s" using Cons.prems(3) by (intro lock_wfD(4) [OF wf, of a obj]) simp
    note c = cancel_blocked_lock_canceled [OF Cons.prems(1) a, of ctx obj, unfolded canceled_def]
    have core: "core_eq (ent s b) (ent ?s b)" if "b \<in> set (lock_list s obj')" "b \<noteq> a" for b obj'
      using c lock_wfD(4) [OF wf that(1)] that(2) by blast
    have xs: "set xs \<subseteq> set (lock_list ?s obj)" "distinct xs" "a \<notin> set xs"
      using Cons.prems(2,3) c by auto
    note IH = Cons.IH [OF cancel_blocked_lock_inv [OF Cons.prems(1)] xs(2,1)]
    have "b \<in> set (lock_list s obj') \<and> same_lock (ent s b) (ent ?r b)
      \<and> (core_eq (ent s b) (ent ?r b) \<and> \<not> (b \<in> set (a # xs) \<and> waits env owner lock (ent s b))
         \<or> sle_blocked (ent ?r b) = STATE_CANCELED)"
      if b: "b \<in> set (lock_list ?r obj')" for b obj'
    proof (cases "b = a")
      case eq: True
      have here: "a \<in> set (lock_list ?s obj')" using IH b eq by blast
      then have now: "a \<in> set (lock_list s obj')" "sle_blocked (ent ?s a) = STATE_CANCELED"
        "same_lock (ent s a) (ent ?s a)" using c by blast+
      have "same_lock (ent ?s a) (ent ?r a)" "core_eq (ent ?s a) (ent ?r a) \<or> sle_blocked (ent ?r a) = STATE_CANCELED"
        using IH b eq by blast+
      moreover from this now(2) have "sle_blocked (ent ?r a) = STATE_CANCELED" by (auto simp: core_eq_def)
      ultimately show ?thesis using now(1) same_lock_trans [OF now(3)] eq by simp
    next
      case neq: False
      have here: "b \<in> set (lock_list ?s obj')" using IH b by blast
      then have old: "b \<in> set (lock_list s obj')" using c by blast
      note co = core [OF old neq]
      have "same_lock (ent ?s b) (ent ?r b)"
        "core_eq (ent ?s b) (ent ?r b) \<and> \<not> (b \<in> set xs \<and> waits env owner lock (ent ?s b))
         \<or> sle_blocked (ent ?r b) = STATE_CANCELED" using IH b by blast+
      then show ?thesis
        using neq old waits_core [OF co] core_eq_trans [OF co] same_lock_trans [OF same_lock_core [OF co]] by auto
    qed
    moreover have "b \<in> set (lock_list ?r obj') \<and> core_eq (ent s b) (ent ?r b)"
      if b: "b \<in> set (lock_list s obj')" "\<not> (b \<in> set (a # xs) \<and> waits env owner lock (ent s b))" for b obj'
    proof -
      have neq: "b \<noteq> a" using b(2) True by auto
      have here: "b \<in> set (lock_list ?s obj')" using neq b(1) c by blast
      note co = core [OF b(1) neq]
      have "\<not> (b \<in> set xs \<and> waits env owner lock (ent ?s b))" using b(2) waits_core [OF co] by auto
      then show ?thesis using IH here core_eq_trans [OF co] by blast
    qed
    ultimately show ?thesis using True unfolding cancel_loop_step by simp
  qed
qed simp

text \<open>The requests that wait are cancelled; what is held by others is not touched.\<close>

lemma cancel_range_effect:
  assumes inv: "lock_inv env s"
    and s'_def: "s' = cancel_blocked_locks_range env ctx obj (Some owner) False st lock s"
  shows "b \<in> set (lock_list s' obj) \<Longrightarrow> waits env owner lock (ent s' b) \<Longrightarrow> sle_blocked (ent s' b) = STATE_CANCELED"
    and "locked env s obj' t ow x \<Longrightarrow> differ env ow (Some owner) \<Longrightarrow> locked env s' obj' t ow x"
proof -
  have wf: "lock_wf s" using inv by (simp add: lock_inv_def)
  note E = cancel_loop_effect [OF inv lock_wfD(1) [OF wf, of obj] order.refl, of ctx owner st lock]
  have s': "s' = cancel_loop env ctx obj (Some owner) False st lock (lock_list s obj) s"
    by (simp add: s'_def cancel_blocked_locks_range_def)
  show "sle_blocked (ent s' b) = STATE_CANCELED"
    if b: "b \<in> set (lock_list s' obj)" "waits env owner lock (ent s' b)"
    using E b waits_core [of "ent s b" "ent s' b" env owner lock] unfolding s' by blast
  show "locked env s' obj' t ow x" if l: "locked env s obj' t ow x" and d: "differ env ow (Some owner)"
  proof -
    from l obtain a where a: "a \<in> set (lock_list s obj')" "granted (sle_blocked (ent s a))"
      "\<not> differ env (sle_owner (ent s a)) ow" "lock_type (sle_lock (ent s a)) = t"
      "x \<in> lock_bytes (sle_lock (ent s a))" unfolding locked_iff by blast
    have "\<not> waits env owner lock (ent s a)" using own.cong_left [OF a(3)] d by (simp add: waits_def)
    then have "a \<in> set (lock_list s' obj')" and core: "core_eq (ent s a) (ent s' a)" using E a(1) unfolding s' by blast+
    then show ?thesis
      unfolding locked_iff using a core_eq_range(2) [OF core] by (intro bexI [of _ a]) (auto simp: core_eq_def)
  qed
qed

subsection \<open>The unlock\<close>

text \<open>No entry of the owner that is not cancelled meets the range.\<close>

definition unlocked :: "'fs lock_env \<Rightarrow> 'fs lock_sys \<Rightarrow> nat \<Rightarrow> nat \<Rightarrow> fsal_lock_param_t \<Rightarrow> bool" where
  "unlocked env s obj owner lock \<longleftrightarrow> (\<forall>a \<in> set (lock_list s obj). \<forall>x \<in> lock_bytes lock.
     \<not> differ env (sle_owner (ent s a)) (Some owner) \<longrightarrow> x \<in> lock_bytes (sle_lock (ent s a)) \<longrightarrow>
     sle_blocked (ent s a) = STATE_CANCELED)"

lemma unlocked_locked:
  "unlocked env s obj owner lock \<Longrightarrow> x \<in> lock_bytes lock \<Longrightarrow> \<not> locked env s obj t (Some owner) x"
  by (auto simp: unlocked_def locked_iff granted_iff)

lemma unlocked_quiet:
  assumes "quiet G (next_entry s) s s'" "lock_wf s" "unlocked env s obj owner lock"
  shows "unlocked env s' obj owner lock"
proof -
  have core: "core_eq (ent s a) (ent s' a)" if "a \<in> set (lock_list s obj)" for a
    using assms(1) lock_wfD(4) [OF assms(2) that] by (simp add: quiet_def)
  have "lock_list s' = lock_list s" using assms(1) by (simp add: quiet_def)
  then show ?thesis
    using assms(3) core_eq_range(2) [OF core] core by (simp add: unlocked_def core_eq_def)
qed

lemma unlocked_grant:
  assumes "lock_inv env s" "unlocked env s obj owner lock"
  shows "unlocked env (grant_blocked_locks env ctx obj s) obj owner lock"
  unfolding unlocked_def
proof (intro ballI impI)
  fix a x
  let ?s = "grant_blocked_locks env ctx obj s"
  assume a: "a \<in> set (lock_list ?s obj)" and x: "x \<in> lock_bytes lock"
    and own: "\<not> differ env (sle_owner (ent ?s a)) (Some owner)" and in_a: "x \<in> lock_bytes (sle_lock (ent ?s a))"
  from grant_blocked_locks_effect(3) [OF assms(1) a]
  have old: "a \<in> set (lock_list s obj)" and same: "same_lock (ent s a) (ent ?s a)" by simp_all
  have "sle_blocked (ent s a) = STATE_CANCELED"
    using assms(2) old x own in_a same_lockD [OF same] by (auto simp: unlocked_def)
  then show "sle_blocked (ent ?s a) = STATE_CANCELED"
    using grant_blocked_locks_effect(2) [OF assms(1) old, of ctx obj] by (simp add: core_eq_def)
qed

lemma subtract_unlocked:
  assumes inv: "lock_inv env s" and valid: "lock_valid lock"
    and cancelled: "\<And>b. b \<in> set (lock_list s obj) \<Longrightarrow> waits env owner lock (ent s b) \<Longrightarrow>
      sle_blocked (ent s b) = STATE_CANCELED"
    and run: "subtract_lock_from_list env (Some owner) False st lock (lock_list s obj) s = (status, removed, ys, s')"
  shows "unlocked env (s'\<lparr>lock_list := (lock_list s')(obj := ys)\<rparr>) obj owner lock"
proof -
  have wf: "lock_wf s" using inv by (simp add: lock_inv_def)
  note eff = subtract_lock_from_list_effect [OF lock_wfD(2,1) [OF wf] valid run]
  have "sle_blocked (ent s' a) = STATE_CANCELED"
    if a: "a \<in> set ys" and x: "x \<in> lock_bytes lock" "x \<in> lock_bytes (sle_lock (ent s' a))"
      and same: "\<not> differ env (sle_owner (ent s' a)) (Some owner)" for a x
  proof -
    let ?e = "ent s' a"
    have "covers s' (set ys) (sle_owner ?e) (sle_state ?e) (sle_blocked ?e) (lock_type (sle_lock ?e)) x"
      using a x(2) by (auto simp: covers_def)
    then have old: "covers s (set (lock_list s obj)) (sle_owner ?e) (sle_state ?e) (sle_blocked ?e)
        (lock_type (sle_lock ?e)) x"
      and "\<not> subtract_hits env (Some owner) False st (sle_owner ?e) (sle_state ?e) (sle_blocked ?e)"
      using x(1) unfolding eff(11) by auto
    then have blocked: "sle_blocked ?e \<noteq> STATE_NON_BLOCKING" using same by (auto simp: subtract_hits_def)
    from old obtain b where b: "b \<in> set (lock_list s obj)" "sle_owner (ent s b) = sle_owner ?e"
      "sle_blocked (ent s b) = sle_blocked ?e" "x \<in> lock_bytes (sle_lock (ent s b))"
      unfolding covers_def by blast
    have "locks_overlap (sle_lock (ent s b)) lock"
      using locks_overlap_iff [OF lock_wfD(6) [OF wf b(1)] valid] b(4) x(1) by blast
    then have "waits env owner lock (ent s b)" using b same blocked by (simp add: waits_def)
    then show ?thesis using cancelled [OF b(1)] b(3) by simp
  qed
  then show ?thesis by (auto simp: unlocked_def)
qed

lemma subtract_others:
  assumes inv: "lock_inv env s" and valid: "lock_valid lock"
    and run: "subtract_lock_from_list env (Some owner) False st lock (lock_list s obj) s = (status, removed, ys, s')"
    and held: "locked env s obj' t ow x" and d: "differ env ow (Some owner)"
  shows "locked env (s'\<lparr>lock_list := (lock_list s')(obj := ys)\<rparr>) obj' t ow x"
proof -
  have wf: "lock_wf s" using inv by (simp add: lock_inv_def)
  note eff = subtract_lock_from_list_effect [OF lock_wfD(2,1) [OF wf] valid run]
  from held obtain a where a: "a \<in> set (lock_list s obj')" "granted (sle_blocked (ent s a))"
    "\<not> differ env (sle_owner (ent s a)) ow" "lock_type (sle_lock (ent s a)) = t"
    "x \<in> lock_bytes (sle_lock (ent s a))" unfolding locked_iff by blast
  show ?thesis
  proof (cases "obj' = obj")
    case True
    have "covers s (set (lock_list s obj)) (sle_owner (ent s a)) (sle_state (ent s a)) (sle_blocked (ent s a)) t x"
      using a True by (auto simp: covers_def)
    moreover have "\<not> subtract_hits env (Some owner) False st (sle_owner (ent s a)) (sle_state (ent s a))
        (sle_blocked (ent s a))"
      using own.cong_left [OF a(3)] d by (auto simp: subtract_hits_def)
    ultimately have "covers s' (set ys) (sle_owner (ent s a)) (sle_state (ent s a)) (sle_blocked (ent s a)) t x"
      unfolding eff(11) by blast
    then obtain b where b: "b \<in> set ys" "sle_owner (ent s' b) = sle_owner (ent s a)"
      "sle_blocked (ent s' b) = sle_blocked (ent s a)" "lock_type (sle_lock (ent s' b)) = t"
      "x \<in> lock_bytes (sle_lock (ent s' b))" unfolding covers_def by blast
    then show ?thesis unfolding locked_iff using True a by (intro bexI [of _ b]) simp_all
  next
    case False
    have "lock_list s' obj' = lock_list s obj'" by (rule eff(10) [OF lock_wfD(3) [OF wf] False])
    moreover have "a \<notin> set (lock_list s obj)" using lock_wfD(3) [OF wf] a(1) False by blast
    ultimately show ?thesis
      unfolding locked_iff using False a eff(6) [OF lock_wfD(4) [OF wf a(1)]] by (intro bexI [of _ a]) simp_all
  qed
qed

lemma state_unlock_effect:
  assumes inv: "lock_inv env s" and valid: "lock_valid lock" and reg: "obj_type env obj = REGULAR_FILE"
    and run: "state_unlock env ctx obj state (Some owner) False nsm lock s = (status, s')"
  shows "unlocked env s' obj owner lock"
    and "locked env s obj' t ow x \<Longrightarrow> differ env ow (Some owner) \<Longrightarrow> locked env s' obj' t ow x"
proof -
  have "unlocked env s' obj owner lock \<and>
    (locked env s obj' t ow x \<longrightarrow> differ env ow (Some owner) \<longrightarrow> locked env s' obj' t ow x)"
  proof (cases "lock_list s obj = []")
    case True
    then show ?thesis using run reg by (auto simp: state_unlock_def unlocked_def)
  next
    case False
    obtain s1 removed xs s2 r s3 st4 h c s4 where
      s1: "s1 = cancel_blocked_locks_range env ctx obj (Some owner) False nsm lock s" and inv1: "lock_inv env s1"
      and sub: "subtract_lock_from_list env (Some owner) False nsm lock (lock_list s1 obj) s1 =
        (STATE_SUCCESS, removed, xs, s2)"
      and s3: "s3 = s2\<lparr>lock_list := (lock_list s2)(obj := xs), obj_refcount := r\<rparr>" and inv3: "lock_inv env s3"
      and op: "do_lock_op env ctx obj state FSAL_OP_UNLOCK (Some owner) lock False False False s3 = (st4, h, c, s4)"
      and inv4: "lock_inv env s4"
      and s': "state_unlock env ctx obj state (Some owner) False nsm lock s = (st4, grant_blocked_locks env ctx obj s4)"
      by (rule state_unlock_phases [OF inv valid reg False])
    have wf3: "lock_wf s3" using inv3 by (simp add: lock_inv_def)
    have u3: "unlocked env s3 obj owner lock"
      using subtract_unlocked [OF inv1 valid cancel_range_effect(1) [OF inv s1] sub] by (simp add: s3 unlocked_def)
    have l3: "locked env s3 obj' t ow x" if "locked env s obj' t ow x" "differ env ow (Some owner)"
      using subtract_others [OF inv1 valid sub cancel_range_effect(2) [OF inv s1 that] that(2)]
      by (simp add: s3 locked_iff)
    have q: "quiet {} (next_entry s3) s3 s4" by (rule quiet_do_lock_op [OF lock_wf_bounded [OF wf3] op])
    have "s' = grant_blocked_locks env ctx obj s4" using run s' by simp
    then show ?thesis
      using unlocked_grant [OF inv4 unlocked_quiet [OF q wf3 u3]] l3 quiet_locked [OF q wf3]
        grant_blocked_locks_locked [OF inv4] by blast
  qed
  then show "unlocked env s' obj owner lock"
    and "locked env s obj' t ow x \<Longrightarrow> differ env ow (Some owner) \<Longrightarrow> locked env s' obj' t ow x" by blast+
qed

end
