(* ===== verification/Lock_Reach.thy ===== *)
theory Lock_Reach
  imports Lock_Unlock
begin

text \<open>
  The lock manager as a state machine: the requests of clients, the answers to granted callbacks,
  the polling of blocked locks and the upcalls of a back end, in any order.  Every state that is
  reached has the invariant, so no byte is locked for two owners when one of them writes; and no
  request that could be granted is left waiting.
\<close>

subsection \<open>No waiter is left behind\<close>

text \<open>
  Exports whose locks only Ganesha keeps, and a thread pool that takes or refuses a task.
\<close>

definition local_locks :: "'fs lock_env \<Rightarrow> bool" where
  "local_locks env \<longleftrightarrow> (\<forall>ctx. \<not> fs_supports env ctx fso_lock_support \<and> \<not> fs_supports env ctx fso_lock_support_async_block)
     \<and> (\<forall>fs. fst (state_async_schedule env fs) \<noteq> STATE_LOCK_BLOCKED)"

definition waiting :: "state_lock_entry_t \<Rightarrow> bool" where
  "waiting e \<longleftrightarrow> sle_blocked e = STATE_NLM_BLOCKING \<or> sle_blocked e = STATE_NFSV4_BLOCKING"

lemma local_callback:
  assumes "local_locks env" "nlm_granted_callback env ctx obj a s = (status, s')"
  shows "status \<noteq> STATE_LOCK_BLOCKED"
proof -
  have "do_entry_lock_op env ctx obj a op s = (st, s1) \<Longrightarrow> st = STATE_SUCCESS" for op s st s1
    using assms(1) by (simp add: local_locks_def do_entry_lock_op_def do_lock_op_def Let_def)
  then have "state_add_grant_cookie env ctx obj cookie a s = (st, c, s1) \<Longrightarrow> st \<noteq> STATE_LOCK_BLOCKED" for cookie s st c s1
    by (auto simp: state_add_grant_cookie_def Let_def split: option.splits if_splits prod.splits
        state_grant_type_t.splits)
  moreover have "state_async_schedule env fs = (st, fs') \<Longrightarrow> st \<noteq> STATE_LOCK_BLOCKED" for fs fs' st
    using assms(1) unfolding local_locks_def by (metis fst_conv)
  ultimately show ?thesis
    using assms(2) by (auto simp: nlm_granted_callback_def Let_def split: prod.splits if_splits)
qed

lemma local_grant:
  assumes loc: "local_locks env" and "lock_inv env s" "a \<in> set (lock_list s obj)"
    "get_overlapping_entry env s obj (sle_owner (ent s a)) (sle_lock (ent s a)) = None"
    and kept: "a \<in> set (lock_list (try_to_grant_lock env a s) obj')"
  shows "sle_blocked (ent (try_to_grant_lock env a s) a) = STATE_GRANTING"
  using assms(2-4)
proof (cases rule: try_to_grant_cases)
  case (dropped s1)
  then show ?thesis
    using kept remove_lists(1) [of s1 env a obj'] by (simp add: restated_def lock_inv_def del: remove_effect(2))
next
  case (told ctx s2 s3)
  then show ?thesis using local_callback [OF loc told(2)] by simp
qed

lemma grant_loop_locked:
  assumes "lock_inv env s" "set xs \<subseteq> set (lock_list s obj)" "distinct xs" "locked env s obj' t ow x"
  shows "locked env (grant_loop env obj xs s) obj' t ow x"
proof -
  from assms(4) obtain a where a: "a \<in> set (lock_list s obj')" "granted (sle_blocked (ent s a))"
    "\<not> differ env (sle_owner (ent s a)) ow" "lock_type (sle_lock (ent s a)) = t"
    "x \<in> lock_bytes (sle_lock (ent s a))" unfolding locked_iff by blast
  then have "a \<in> set (lock_list (grant_loop env obj xs s) obj')"
    and core: "core_eq (ent s a) (ent (grant_loop env obj xs s) a)"
    using grant_loop_inv(2) [OF assms(1-3) a(1)] by (auto simp: granted_iff)
  then show ?thesis
    unfolding locked_iff using a core_eq_range(2) [OF core] by (intro bexI [of _ a]) (auto simp: core_eq_def)
qed

text \<open>A request that waits because of a lock waits on while that lock is held.\<close>

lemma overlapping_kept:
  assumes "lock_wf s" "lock_wf s'" "lock_valid (sle_lock e)" "same_lock e e'"
    and more: "\<And>t ow x. locked env s obj t ow x \<Longrightarrow> locked env s' obj t ow x"
    and "get_overlapping_entry env s obj (sle_owner e) (sle_lock e) \<noteq> None"
  shows "get_overlapping_entry env s' obj (sle_owner e') (sle_lock e') \<noteq> None"
proof -
  have "lock_valid (sle_lock e')" "lock_type (sle_lock e') = lock_type (sle_lock e)"
    using assms(3,4) by (auto simp: same_lock_def core_eq_def lock_valid_def lock_end_def split: if_splits)
  then show ?thesis
    using assms(6) more same_lockD [OF assms(4)] get_overlapping_none [OF assms(1,3)]
      get_overlapping_none [OF assms(2), of "sle_lock e'"]
    by metis
qed

lemma grant_loop_served:
  assumes "local_locks env" "lock_inv env s" "set xs \<subseteq> set (lock_list s obj)" "distinct xs" "a \<in> set xs"
    and "a \<in> set (lock_list (grant_loop env obj xs s) obj)" "waiting (ent (grant_loop env obj xs s) a)"
  shows "get_overlapping_entry env (grant_loop env obj xs s) obj (sle_owner (ent (grant_loop env obj xs s) a))
    (sle_lock (ent (grant_loop env obj xs s) a)) \<noteq> None"
  using assms
proof (induction xs arbitrary: s)
  case (Cons a0 xs)
  have wf: "lock_wf s" using Cons.prems by (simp add: lock_inv_def)
  have a0: "a0 \<in> set (lock_list s obj)" using Cons.prems by simp
  let ?e = "ent s a0" and ?fin = "grant_loop env obj (a0 # xs) s"
  note whole = grant_loop_inv [OF Cons.prems(2-4)]
  consider (tried) "waiting ?e" "get_overlapping_entry env s obj (sle_owner ?e) (sle_lock ?e) = None"
    | (idle) "\<not> waiting ?e" | (conflict) "get_overlapping_entry env s obj (sle_owner ?e) (sle_lock ?e) \<noteq> None"
    by blast
  then show ?case
  proof cases
    case tried
    let ?s = "try_to_grant_lock env a0 s"
    note step = try_to_grant_lock_inv [OF Cons.prems(2) a0 tried(2)]
    have eq: "?fin = grant_loop env obj xs ?s" using tried by (auto simp: Let_def waiting_def)
    have xs: "set xs \<subseteq> set (lock_list ?s obj)" "distinct xs" using step(2) [of obj] Cons.prems(3,4) by auto
    show ?thesis
    proof (cases "a = a0")
      case True
      have "a0 \<in> set (lock_list ?s obj)" using grant_loop_inv(3) [OF step(1) xs] Cons.prems(6) True eq by auto
      then have "sle_blocked (ent ?fin a0) = STATE_GRANTING"
        using local_grant [OF Cons.prems(1,2) a0 tried(2)] grant_loop_inv(2) [OF step(1) xs, of a0 obj] eq
        by (simp add: core_eq_def)
      then show ?thesis using Cons.prems(7) True by (simp add: waiting_def)
    next
      case False
      then show ?thesis
        using Cons.IH [OF Cons.prems(1) step(1) xs] Cons.prems(5-7) unfolding eq by simp
    qed
  next
    case idle
    have eq: "?fin = grant_loop env obj xs s" using idle by (auto simp: Let_def waiting_def)
    have "\<not> waiting (ent ?fin a0)" using whole(2) [OF a0] idle by (auto simp: waiting_def core_eq_def)
    then have "a \<noteq> a0" using Cons.prems(7) by blast
    then show ?thesis
      using Cons.IH [OF Cons.prems(1,2)] Cons.prems(3-7) unfolding eq by simp
  next
    case conflict
    have eq: "?fin = grant_loop env obj xs s" using conflict by (auto simp: Let_def)
    show ?thesis
    proof (cases "a = a0")
      case True
      have "get_overlapping_entry env ?fin obj (sle_owner (ent ?fin a0)) (sle_lock (ent ?fin a0)) \<noteq> None"
      proof (rule overlapping_kept [OF wf _ lock_wfD(6) [OF wf a0] _ _ conflict])
        show "lock_wf ?fin" using whole(1) by (simp add: lock_inv_def)
        show "same_lock ?e (ent ?fin a0)" using whole(3) Cons.prems(6) True by blast
      qed (rule grant_loop_locked [OF Cons.prems(2-4)])
      then show ?thesis unfolding True .
    next
      case False
      then show ?thesis
        using Cons.IH [OF Cons.prems(1,2)] Cons.prems(3-7) unfolding eq by simp
    qed
  qed
qed simp

lemma grant_blocked_locks_served:
  assumes "local_locks env" "lock_inv env s" "a \<in> set (lock_list (grant_blocked_locks env ctx obj s) obj)"
    and "waiting (ent (grant_blocked_locks env ctx obj s) a)"
  shows "get_overlapping_entry env (grant_blocked_locks env ctx obj s) obj
    (sle_owner (ent (grant_blocked_locks env ctx obj s) a)) (sle_lock (ent (grant_blocked_locks env ctx obj s) a)) \<noteq> None"
proof -
  have wf: "lock_wf s" using assms(2) by (simp add: lock_inv_def)
  have "grant_blocked_locks env ctx obj s = grant_loop env obj (lock_list s obj) s"
    using assms(1) by (simp add: grant_blocked_locks_def local_locks_def)
  then show ?thesis
    using grant_loop_served [OF assms(1,2) order.refl lock_wfD(1) [OF wf], of a obj] assms(3,4)
      grant_blocked_locks_effect(3) [OF assms(2,3)] by simp
qed

text \<open>The same after an unlock of a file that has locks.\<close>

lemma state_unlock_served:
  assumes loc: "local_locks env" and inv: "lock_inv env s" and valid: "lock_valid lock"
    and reg: "obj_type env obj = REGULAR_FILE" and locks: "lock_list s obj \<noteq> []"
    and run: "state_unlock env ctx obj state owner state_applies nsm lock s = (status, s')"
    and a: "a \<in> set (lock_list s' obj)" "waiting (ent s' a)"
  shows "get_overlapping_entry env s' obj (sle_owner (ent s' a)) (sle_lock (ent s' a)) \<noteq> None"
proof -
  obtain s1 where "s' = grant_blocked_locks env ctx obj s1" "lock_inv env s1"
    using state_unlock_phases [OF inv valid reg locks, of ctx owner state_applies nsm state] run
    by (metis prod.inject)
  then show ?thesis using grant_blocked_locks_served [OF loc] a by blast
qed

subsection \<open>The other operations\<close>

lemma state_test_inv:
  assumes inv: "lock_inv env s" and run: "state_test env ctx obj state owner lock s = (status, h, c, s')"
  shows "lock_inv env s'"
proof -
  obtain opened s1 where op: "(if state = None \<and> \<not> support_ex env obj then
      (case fsal_open env obj FSAL_O_READ (fsal s) of (st, fs) \<Rightarrow> (st, s\<lparr>fsal := fs\<rparr>))
     else (fsalstat ERR_FSAL_NO_ERROR 0, s)) = (opened, s1)" by (metis prod.exhaust)
  then have inv1: "lock_inv env s1" using inv by (auto split: if_splits prod.splits)
  show ?thesis
    using run inv1 quiet_inv0 [OF quiet_copy_conflict inv1] do_lock_op_inv [OF inv1]
    unfolding state_test_def op Let_def prod.case
    by (auto split: if_splits option.splits prod.splits)
qed

lemma process_blocked_lock_upcall_inv:
  assumes inv: "lock_inv env s" and a: "a \<in> set (lock_list s obj)"
    and free: "get_overlapping_entry env s obj (sle_owner (ent s a)) (sle_lock (ent s a)) = None"
  shows "lock_inv env (process_blocked_lock_upcall env a s)"
proof -
  let ?s = "lock_entry_inc_ref a s"
  have inv1: "lock_inv env ?s" by (rule quiet_inv0 [OF quiet_inc_ref inv])
  have "get_overlapping_entry env ?s obj (sle_owner (ent ?s a)) (sle_lock (ent ?s a)) =
      get_overlapping_entry env s obj (sle_owner (ent s a)) (sle_lock (ent s a))"
    by (auto simp: get_overlapping_entry_def Let_def lock_entry_inc_ref_def entry_conflicts_def intro!: find_cong)
  then have "lock_inv env (try_to_grant_lock env a ?s)"
    using try_to_grant_lock_inv(1) [OF inv1, of a obj] a free by simp
  then show ?thesis unfolding process_blocked_lock_upcall_def by (rule quiet_inv0 [OF quiet_dec_ref])
qed

lemma free_list_inv: "lock_inv env s \<Longrightarrow> lock_inv env (free_list env xs s)"
  by (induction xs arbitrary: s) (simp_all add: free_list_def remove_inv)

lemma state_lock_wipe_inv: "lock_inv env s \<Longrightarrow> lock_inv env (snd (state_lock_wipe env obj s))"
  by (simp add: state_lock_wipe_def free_list_inv)

lemma blocked_lock_polling_inv:
  assumes "lock_inv env s" shows "lock_inv env (snd (blocked_lock_polling s))"
proof -
  have "quiet {} n s (fold (\<lambda>a. upd_ent a (sle_block_data_update f)) xs s)" for n f xs and s :: "'a lock_sys"
  proof (induction xs arbitrary: s)
    case (Cons a xs)
    show ?case unfolding fold_simps by (rule quiet_trans [OF upd_block_data_quiet Cons.IH])
  qed simp
  then show ?thesis unfolding blocked_lock_polling_def Let_def snd_conv by (rule quiet_inv0 [OF _ assms])
qed

lemma find_blocked_lock_upcall_inv:
  "find_blocked_lock_upcall obj owner lock g s = Some (a, s') \<Longrightarrow> lock_inv env s \<Longrightarrow> lock_inv env s'"
  by (auto simp: find_blocked_lock_upcall_def split: option.splits intro: quiet_inv0 [OF upd_block_data_quiet])

subsection \<open>The state machine\<close>

text \<open>
  A lock request is valid and is not a reclaim, and goes to an export without asynchronous
  blocking locks.  An answer to a granted callback finds its cookie, which has not been freed.  An
  upcall or a poll is processed for a lock whose range is free: the back end has arbitrated between
  the owners.  The back end may change at any time.
\<close>

inductive lock_step :: "'fs lock_env \<Rightarrow> 'fs lock_sys \<Rightarrow> 'fs lock_sys \<Rightarrow> bool" for env where
  step_lock: "lock_valid lock \<Longrightarrow> \<not> lock_reclaim lock \<Longrightarrow> \<not> fs_supports env ctx fso_lock_support_async_block \<Longrightarrow>
    state_lock env ctx obj owner state blocking block_data lock s = Some (status, holder, conflict, s') \<Longrightarrow>
    lock_step env s s'"
| step_unlock: "lock_valid lock \<Longrightarrow>
    state_unlock env ctx obj state owner state_applies nsm_state lock s = (status, s') \<Longrightarrow> lock_step env s s'"
| step_test: "state_test env ctx obj state owner lock s = (status, holder, conflict, s') \<Longrightarrow> lock_step env s s'"
| step_cancel: "state_cancel env ctx obj owner lock s = (status, s') \<Longrightarrow> lock_step env s s'"
| step_complete: "state_find_grant cookie s = (STATE_SUCCESS, Some c, s1) \<Longrightarrow> cookies s1 c = Some ce \<Longrightarrow>
    state_complete_grant env ctx c s1 = Some s' \<Longrightarrow> lock_step env s s'"
| step_release: "state_find_grant cookie s = (STATE_SUCCESS, Some c, s1) \<Longrightarrow>
    state_release_grant env ctx c s1 = (status, s') \<Longrightarrow> lock_step env s s'"
| step_poll: "blocked_lock_polling s = (polled, s') \<Longrightarrow> lock_step env s s'"
| step_granted: "grant_blocked_lock_upcall obj owner lock s = Some (a, s') \<Longrightarrow> lock_step env s s'"
| step_available: "available_blocked_lock_upcall obj owner lock s = Some (a, s') \<Longrightarrow> lock_step env s s'"
| step_process: "a \<in> set (lock_list s obj) \<Longrightarrow>
    get_overlapping_entry env s obj (sle_owner (ent s a)) (sle_lock (ent s a)) = None \<Longrightarrow>
    lock_step env s (process_blocked_lock_upcall env a s)"
| step_wipe: "state_lock_wipe env obj s = (wiped, s') \<Longrightarrow> lock_step env s s'"
| step_back_end: "lock_step env s (s\<lparr>fsal := fs\<rparr>)"

definition lock_init :: "'fs lock_sys \<Rightarrow> bool" where
  "lock_init s \<longleftrightarrow> (\<forall>obj. lock_list s obj = []) \<and> (\<forall>c. cookies s c = None)"

inductive reachable :: "'fs lock_env \<Rightarrow> 'fs lock_sys \<Rightarrow> bool" for env where
  reach_init: "lock_init s \<Longrightarrow> reachable env s"
| reach_step: "reachable env s \<Longrightarrow> lock_step env s s' \<Longrightarrow> reachable env s'"

lemma lock_step_inv: "lock_step env s s' \<Longrightarrow> lock_inv env s \<Longrightarrow> lock_inv env s'"
proof (induction rule: lock_step.induct)
  case (step_lock lock ctx obj owner state blocking block_data s status holder conflict s')
  then show ?case using state_lock_inv [OF step_lock(5,1,2,3), of obj owner state blocking block_data] by auto
next
  case (step_unlock lock ctx obj state owner state_applies nsm_state s status s')
  then show ?case using state_unlock_inv by (metis snd_conv)
next
  case (step_cancel ctx obj owner lock s status s')
  then show ?case using state_cancel_inv by (metis snd_conv)
next
  case (step_complete cookie s c s1 ce ctx s')
  then show ?case
    using state_complete_grant_inv [OF quiet_inv0 [OF quiet_find_grant [OF step_complete(1)]], of env c ce ctx] by auto
next
  case (step_release cookie s c s1 ctx status s')
  then show ?case
    using state_release_grant_inv [OF quiet_inv0 [OF quiet_find_grant [OF step_release(1)]], of env ctx c] by auto
next
  case (step_poll s polled s')
  then show ?case using blocked_lock_polling_inv by (metis snd_conv)
next
  case (step_wipe obj s wiped s')
  then show ?case using state_lock_wipe_inv by (metis snd_conv)
qed (auto simp: grant_blocked_lock_upcall_def available_blocked_lock_upcall_def
    intro: state_test_inv find_blocked_lock_upcall_inv process_blocked_lock_upcall_inv)

lemma reachable_inv: "reachable env s \<Longrightarrow> lock_inv env s"
proof (induction rule: reachable.induct)
  case (reach_init s)
  then show ?case
    by (simp add: lock_init_def lock_inv_def lock_wf_def good_entries_def cookie_wf_def exclusive_def locked_def held_def)
qed (rule lock_step_inv)

end
