(* ===== verification/Lock_Theorems.thy ===== *)
theory Lock_Theorems
  imports Lock_Reach
begin

text \<open>
  The properties of the lock manager, over the states of the state machine, each with an instance
  on a small system: one regular file, two NFSv4 lock owners and an export that leaves locking to
  Ganesha.
\<close>

subsection \<open>A small system\<close>

definition two_owners :: "unit lock_env" where
  "two_owners = \<lparr>own_env = \<lparr>owners = (\<lambda>i. \<lparr>so_type = STATE_LOCK_OWNER_NFSV4, so_owner_val = [],
       so_owner = So_nfs4 (of_nat i)\<rparr>), nlm_clients = undefined, nsm_clients = undefined,
       nsm_use_caller_name = False\<rparr>,
     unknown_owner = 9, fs_supports = (\<lambda>_ _. False), export_ready = (\<lambda>_. True), support_ex = (\<lambda>_. True),
     obj_type = (\<lambda>_. REGULAR_FILE), state_seqid = (\<lambda>_. 0),
     fsal_open = (\<lambda>_ _ fs. (fsalstat ERR_FSAL_NO_ERROR 0, fs)),
     lock_op = (\<lambda>_ _ _ l fs. (fsalstat ERR_FSAL_NO_ERROR 0, l, fs)),
     lock_op2 = (\<lambda>_ _ _ _ l fs. (fsalstat ERR_FSAL_NO_ERROR 0, l, fs)),
     state_async_schedule = (\<lambda>fs. (STATE_SUCCESS, fs))\<rparr>"

definition no_locks :: "unit lock_sys" where
  "no_locks = \<lparr>ent = undefined, alive = (\<lambda>_. False), next_entry = 0, lock_list = (\<lambda>_. []),
     so_lock_list = (\<lambda>_. []), ssc_lock_list = (\<lambda>_. []), exp_lock_list = (\<lambda>_. []), state_locklist = (\<lambda>_. []),
     state_blocked_locks = [], so_refcount = (\<lambda>_. 1), ssc_refcount = (\<lambda>_. 1), slc_refcount = (\<lambda>_. 1),
     exp_refcount = (\<lambda>_. 1), obj_refcount = (\<lambda>_. 1), state_refcount = (\<lambda>_. 1), cookies = (\<lambda>_. None),
     next_cookie = 0, granted_cookie = 0, ht_lock_cookies = (\<lambda>_. None), fsal = ()\<rparr>"

definition write_ten :: fsal_lock_param_t where
  "write_ten = \<lparr>lock_sle_type = FSAL_POSIX_LOCK, lock_type = FSAL_LOCK_W, lock_start = 0, lock_length = 10,
     lock_reclaim = False\<rparr>"

text \<open>Owner 0 has locked the first ten bytes of file 0 for writing.\<close>

definition one_lock :: "unit lock_sys" where
  "one_lock = (case state_lock two_owners 0 0 0 None STATE_NON_BLOCKING None write_ten no_locks of
     Some (status, holder, conflict, s) \<Rightarrow> s | None \<Rightarrow> no_locks)"

named_theorems small_system \<open>the small system, for evaluation\<close>

lemmas [small_system] = two_owners_def no_locks_def write_ten_def different_owners_def compare_nfs4_owner_def
  so_clientid_def lock_valid_def lock_bytes_def lock_end_def

lemma one_lock_eq:
  "state_lock two_owners 0 0 0 None STATE_NON_BLOCKING None write_ten no_locks =
     Some (STATE_SUCCESS, None, None, one_lock)"
  "lock_list one_lock = (\<lambda>_. [])(0 := [0])"
  "ent one_lock 0 = \<lparr>sle_export = 0, sle_obj = 0, sle_block_data = None, sle_owner = Some 0, sle_state = None,
     sle_blocked = STATE_NON_BLOCKING, sle_ref_count = 1, sle_lock = write_ten\<rparr>"
  "cookies one_lock = (\<lambda>_. None)" "next_entry one_lock = 1"
  by (simp_all add: one_lock_def state_lock_def state_lock_open_def state_lock_search_def state_lock_insert_def
      create_state_lock_entry_def do_lock_op_def merge_lock_entry_def merge_loop_Cons grant_blocked_locks_def
      owner_is_nlm_def Let_def small_system FSAL_IS_ERROR_def fsalstat_def)

lemma one_lock_reachable: "reachable two_owners one_lock"
proof (rule reach_step [OF reach_init step_lock [OF _ _ _ one_lock_eq(1)]])
  show "lock_init no_locks" by (simp add: lock_init_def no_locks_def)
qed (simp_all add: small_system)

text \<open>Owner 1 waits for the same bytes.\<close>

definition one_waiter :: "unit lock_sys" where
  "one_waiter = (case state_lock two_owners 0 0 1 None STATE_NLM_BLOCKING
       (Some \<lparr>sbd_grant_type = STATE_GRANT_NONE, sbd_block_type = STATE_BLOCK_NONE, sbd_blocked_cookie = None\<rparr>)
       write_ten one_lock of
     Some (status, holder, conflict, s) \<Rightarrow> s | None \<Rightarrow> no_locks)"

lemma two_owners_differ: "different_owners (own_env two_owners) (Some 0) (Some 1)"
  "different_owners (own_env two_owners) (Some 1) (Some 0)"
  by (simp_all add: small_system)

lemma one_waiter_eq:
  "state_lock two_owners 0 0 1 None STATE_NLM_BLOCKING
      (Some \<lparr>sbd_grant_type = STATE_GRANT_NONE, sbd_block_type = STATE_BLOCK_NONE, sbd_blocked_cookie = None\<rparr>)
      write_ten one_lock = Some (STATE_LOCK_BLOCKED, Some 0, Some write_ten, one_waiter)"
  "lock_list one_waiter = (\<lambda>_. [])(0 := [0, 1])"
  "ent one_waiter 0 = ent one_lock 0"
  "ent one_waiter 1 = \<lparr>sle_export = 0, sle_obj = 0, sle_block_data = Some \<lparr>sbd_grant_type = STATE_GRANT_NONE,
       sbd_block_type = STATE_BLOCK_INTERNAL, sbd_blocked_cookie = None\<rparr>, sle_owner = Some 1, sle_state = None,
     sle_blocked = STATE_NLM_BLOCKING, sle_ref_count = 1, sle_lock = write_ten\<rparr>"
  "cookies one_waiter = (\<lambda>_. None)"
  by (simp_all add: one_waiter_def state_lock_def state_lock_open_def state_lock_search_def state_lock_insert_def
      create_state_lock_entry_def copy_conflict_def one_lock_eq entry_conflicts_def locks_overlap_def
      owner_is_nlm_def Let_def FSAL_IS_ERROR_def fsalstat_def small_system)

lemma one_waiter_reachable: "reachable two_owners one_waiter"
  by (rule reach_step [OF one_lock_reachable step_lock [OF _ _ _ one_waiter_eq(1)]]) (simp_all add: small_system)

lemma one_lock_locked:
  "locked two_owners one_lock 0 FSAL_LOCK_W (Some 0) 5" "locked two_owners one_waiter 0 FSAL_LOCK_W (Some 0) 5"
  by (simp_all add: locked_iff one_lock_eq one_waiter_eq granted_def small_system)

subsection \<open>Exclusion\<close>



subsection \<open>Lock requests\<close>

text \<open>C4: a lock request for a range that does not wrap returns, in every reachable state (the merging
  of lock entries ends).  If it succeeds the owner has every byte of the range locked with the
  requested type, and the locks of the other owners are all still there; if it does not, exactly
  the same bytes are locked as before.
\<close>

theorem state_lock_correct:
  assumes "reachable env s" "lock_valid lock" "\<not> lock_reclaim lock"
    and "\<not> fs_supports env ctx fso_lock_support_async_block"
  shows "\<exists>status holder conflict s'.
    state_lock env ctx obj owner state blocking block_data lock s = Some (status, holder, conflict, s')
    \<and> (if status = STATE_SUCCESS
       then (\<forall>x \<in> lock_bytes lock. locked env s' obj (lock_type lock) (Some owner) x)
         \<and> (\<forall>obj' t ow x. locked env s obj' t ow x \<longrightarrow> differ env ow (Some owner) \<longrightarrow> locked env s' obj' t ow x)
       else (\<forall>obj' t ow x. locked env s' obj' t ow x \<longleftrightarrow> locked env s obj' t ow x))"
proof -
  obtain status holder conflict s' where
    run: "state_lock env ctx obj owner state blocking block_data lock s = Some (status, holder, conflict, s')"
    and out: "lock_outcome env ctx obj owner lock s status s'"
    using state_lock_inv [OF reachable_inv [OF assms(1)] assms(2-4)] by metis
  show ?thesis
    using run out grant_blocked_locks_locked unfolding lock_outcome_def
    by (cases "status = STATE_SUCCESS") (simp_all, blast)
qed

theorem state_lock_correct_witness:
  "lock_valid write_ten \<and> \<not> lock_reclaim write_ten \<and> reachable two_owners one_lock
   \<and> (\<exists>status holder conflict s'.
     state_lock two_owners 0 1 1 None STATE_NON_BLOCKING None write_ten one_lock = Some (status, holder, conflict, s'))"
  using state_lock_correct [OF one_lock_reachable, of write_ten 0 1 1 None STATE_NON_BLOCKING None] one_lock_reachable
  by (auto simp: two_owners_def write_ten_def lock_valid_def lock_end_def)

subsection \<open>Unlock requests\<close>

text \<open>C5: after an unlock for an owner no byte of the range is locked for that owner, neither by a lock
  it held nor by a request of it that was just being granted, and every byte that another owner
  had locked, on any file, is still locked for that owner.
\<close>

theorem state_unlock_correct:
  assumes "reachable env s" "lock_valid lock" "obj_type env obj = REGULAR_FILE"
    and "state_unlock env ctx obj state (Some owner) False nsm_state lock s = (status, s')"
  shows "(\<forall>x \<in> lock_bytes lock. \<forall>t. \<not> locked env s' obj t (Some owner) x)
    \<and> (\<forall>obj' t ow x. locked env s obj' t ow x \<longrightarrow> differ env ow (Some owner) \<longrightarrow> locked env s' obj' t ow x)"
  using state_unlock_effect [OF reachable_inv [OF assms(1)] assms(2-4)] unlocked_locked by blast

theorem state_unlock_correct_witness:
  "reachable two_owners one_lock \<and> locked two_owners one_lock 0 FSAL_LOCK_W (Some 0) 5
   \<and> \<not> locked two_owners (snd (state_unlock two_owners 0 0 None (Some 0) False 0 write_ten one_lock)) 0 FSAL_LOCK_W (Some 0) 5"
  using state_unlock_correct [OF one_lock_reachable, of write_ten 0 0 None 0 0
      "fst (state_unlock two_owners 0 0 None (Some 0) False 0 write_ten one_lock)"
      "snd (state_unlock two_owners 0 0 None (Some 0) False 0 write_ten one_lock)"]
    one_lock_reachable one_lock_locked(1)
  by (auto simp: two_owners_def write_ten_def lock_valid_def lock_bytes_def lock_end_def)

text \<open>C12: when Ganesha alone keeps the locks, no request is left waiting that could be granted: after
  an unlock every request that still waits on the file conflicts with a lock that is held.
\<close>

theorem no_waiter_left:
  assumes "reachable env s" "local_locks env" "lock_valid lock" "obj_type env obj = REGULAR_FILE"
    and "lock_list s obj \<noteq> []"
    and "state_unlock env ctx obj state owner state_applies nsm_state lock s = (status, s')"
    and "a \<in> set (lock_list s' obj)" "sle_blocked (ent s' a) = STATE_NLM_BLOCKING"
  shows "\<exists>t ow x. locked env s' obj t ow x \<and> x \<in> lock_bytes (sle_lock (ent s' a))
    \<and> (t = FSAL_LOCK_W \<or> lock_type (sle_lock (ent s' a)) = FSAL_LOCK_W) \<and> differ env ow (sle_owner (ent s' a))"
proof -
  note inv = reachable_inv [OF assms(1)]
  have "lock_inv env s'" using state_unlock_inv [OF inv assms(3), of ctx obj state owner state_applies nsm_state] assms(6) by simp
  then have wf: "lock_wf s'" by (simp add: lock_inv_def)
  show ?thesis
    using state_unlock_served [OF assms(2) inv assms(3-7)] assms(8) get_overlapping_none [OF wf lock_wfD(6) [OF wf assms(7)]]
    by (auto simp: waiting_def)
qed

definition other_bytes :: fsal_lock_param_t where
  "other_bytes = write_ten\<lparr>lock_start := 20\<rparr>"

lemma two_owners_local: "local_locks two_owners" "obj_type two_owners 0 = REGULAR_FILE"
  "lock_valid other_bytes" "lock_valid write_ten" "support_ex two_owners 0"
  by (simp_all add: local_locks_def other_bytes_def small_system)

lemma other_bytes_unlock:
  "state_unlock two_owners 0 0 None (Some 0) False 0 other_bytes one_waiter = (STATE_SUCCESS, one_waiter)"
proof -
  have own: "\<not> differ two_owners (Some 0) (Some 0)" "differ two_owners (Some 1) (Some 0)" "differ two_owners (Some 0) (Some 1)"
    and far: "\<not> locks_overlap write_ten other_bytes" and meets: "locks_overlap write_ten write_ten"
    and w: "lock_type write_ten = FSAL_LOCK_W"
    by (simp_all add: locks_overlap_def other_bytes_def small_system)
  have e: "lock_list one_waiter 0 = [0, 1]" "sle_blocked (ent one_waiter 0) = STATE_NON_BLOCKING"
    "sle_owner (ent one_waiter 0) = Some 0" "sle_owner (ent one_waiter 1) = Some 1"
    "sle_lock (ent one_waiter 0) = write_ten" "sle_lock (ent one_waiter 1) = write_ten"
    "sle_blocked (ent one_waiter 1) = STATE_NLM_BLOCKING"
    by (simp_all add: one_waiter_eq one_lock_eq del: One_nat_def)
  note [simp del] = One_nat_def
  have "cancel_blocked_locks_range two_owners 0 0 (Some 0) False 0 other_bytes one_waiter = one_waiter"
    using own e by (simp add: cancel_blocked_locks_range_def)
  moreover have "subtract_lock_from_list two_owners (Some 0) False 0 other_bytes [0, 1] one_waiter =
      (STATE_SUCCESS, False, [0, 1], one_waiter)"
    using own e
    by (simp add: subtract_lock_from_list_def subtract_skips_def subtract_lock_from_entry_def free_list_def
        other_bytes_def write_ten_def lock_end_def Let_def)
  moreover have "grant_blocked_locks two_owners 0 0 one_waiter = one_waiter"
    using own e meets w
    by (simp add: grant_blocked_locks_def get_overlapping_entry_def entry_conflicts_def)
  moreover have "one_waiter\<lparr>lock_list := (lock_list one_waiter)(0 := [0, 1])\<rparr> = one_waiter"
    using e(1) fun_upd_triv [of "lock_list one_waiter" 0] by simp
  moreover have "\<not> fs_supports two_owners 0 x" for x by (simp add: two_owners_def)
  ultimately show ?thesis
    using e(1) by (simp add: state_unlock_def two_owners_local do_lock_op_def)
qed

theorem no_waiter_left_witness:
  "reachable two_owners one_waiter \<and> local_locks two_owners
   \<and> state_unlock two_owners 0 0 None (Some 0) False 0 other_bytes one_waiter = (STATE_SUCCESS, one_waiter)
   \<and> sle_blocked (ent one_waiter 1) = STATE_NLM_BLOCKING
   \<and> (\<exists>t ow x. locked two_owners one_waiter 0 t ow x \<and> x \<in> lock_bytes (sle_lock (ent one_waiter 1))
        \<and> (t = FSAL_LOCK_W \<or> lock_type (sle_lock (ent one_waiter 1)) = FSAL_LOCK_W)
        \<and> differ two_owners ow (sle_owner (ent one_waiter 1)))"
  using no_waiter_left [OF one_waiter_reachable two_owners_local(1,3,2) _ other_bytes_unlock, of 1]
    one_waiter_reachable other_bytes_unlock two_owners_local(1)
  by (simp add: one_waiter_eq del: One_nat_def)

subsection \<open>Tests\<close>

text \<open>C18: a test of a range reports a conflict of Ganesha's own locks if and only if some byte of it is
  locked for a different owner, one of the two for writing; the holder it names has the reported
  range locked and the reported range meets the tested one.  Otherwise the answer is that of the
  back end.
\<close>

theorem state_test_correct:
  assumes "reachable env s" "lock_valid lock" "state \<noteq> None \<or> support_ex env obj"
  shows "if \<exists>t ow x. locked env s obj t ow x \<and> x \<in> lock_bytes lock
           \<and> (t = FSAL_LOCK_W \<or> lock_type lock = FSAL_LOCK_W) \<and> differ env ow (Some owner)
    then \<exists>h l s'. state_test env ctx obj state owner lock s = (STATE_LOCK_CONFLICT, Some h, Some l, s')
      \<and> differ env (Some h) (Some owner) \<and> (lock_type l = FSAL_LOCK_W \<or> lock_type lock = FSAL_LOCK_W)
      \<and> (\<exists>x \<in> lock_bytes l. x \<in> lock_bytes lock) \<and> (\<forall>x \<in> lock_bytes l. locked env s obj (lock_type l) (Some h) x)
    else state_test env ctx obj state owner lock s =
      do_lock_op env ctx obj state FSAL_OP_LOCKT (Some owner) lock True True False s"
proof -
  have wf: "lock_wf s" using reachable_inv [OF assms(1)] by (simp add: lock_inv_def)
  have iff: "(\<exists>t ow x. locked env s obj t ow x \<and> x \<in> lock_bytes lock \<and> (t = FSAL_LOCK_W \<or> lock_type lock = FSAL_LOCK_W)
      \<and> differ env ow (Some owner)) \<longleftrightarrow> get_overlapping_entry env s obj (Some owner) lock \<noteq> None"
    unfolding get_overlapping_none [OF wf assms(2), of env obj "Some owner"] by blast
  have test: "state_test env ctx obj state owner lock s = (case get_overlapping_entry env s obj (Some owner) lock of
       Some found \<Rightarrow> (case copy_conflict (Some found) True True s of
           (holder, conflict, s) \<Rightarrow> (STATE_LOCK_CONFLICT, holder, conflict, s))
     | None \<Rightarrow> do_lock_op env ctx obj state FSAL_OP_LOCKT (Some owner) lock True True False s)"
    using assms(3) by (auto simp: state_test_def FSAL_IS_ERROR_def fsalstat_def)
  show ?thesis
  proof (cases "get_overlapping_entry env s obj (Some owner) lock")
    case None
    then show ?thesis unfolding iff using test by simp
  next
    case (Some a)
    have a: "a \<in> set (lock_list s obj)" "granted (sle_blocked (ent s a))" "entry_conflicts env (ent s a) (Some owner) lock"
      using Some by (auto simp: get_overlapping_entry_def find_Some_iff Let_def granted_iff)
    obtain h where h: "sle_owner (ent s a) = Some h" using lock_wfD(5) [OF wf a(1)] by auto
    note conflict = a(3) [unfolded entry_conflicts_iff [OF lock_wfD(6) [OF wf a(1)] assms(2)] h]
    have "locked env s obj (lock_type (sle_lock (ent s a))) (Some h) x" if "x \<in> lock_bytes (sle_lock (ent s a))" for x
      unfolding locked_iff using a(1,2) that h own.same by (intro bexI [of _ a]) simp_all
    then show ?thesis
      unfolding iff test using Some h conflict by (simp add: copy_conflict_def Let_def)
  qed
qed

theorem state_test_correct_witness:
  "reachable two_owners one_lock \<and> (\<exists>h l s'. state_test two_owners 0 0 None 1 write_ten one_lock =
     (STATE_LOCK_CONFLICT, Some h, Some l, s') \<and> locked two_owners one_lock 0 (lock_type l) (Some h) (lock_start l))"
proof -
  have "\<exists>t ow x. locked two_owners one_lock 0 t ow x \<and> x \<in> lock_bytes write_ten
      \<and> (t = FSAL_LOCK_W \<or> lock_type write_ten = FSAL_LOCK_W) \<and> differ two_owners ow (Some 1)"
    using one_lock_locked(1) two_owners_differ
    by (intro exI [of _ FSAL_LOCK_W] exI [of _ "Some 0"] exI [of _ 5]) (simp add: write_ten_def lock_bytes_def lock_end_def)
  from state_test_correct [OF one_lock_reachable two_owners_local(4), of None 0 1 0, simplified if_P [OF this]]
  obtain h l s' where t: "state_test two_owners 0 0 None 1 write_ten one_lock = (STATE_LOCK_CONFLICT, Some h, Some l, s')"
    and held: "\<exists>x \<in> lock_bytes l. x \<in> lock_bytes write_ten" "\<forall>x \<in> lock_bytes l. locked two_owners one_lock 0 (lock_type l) (Some h) x"
    using two_owners_local(5) by blast
  have "lock_start l \<in> lock_bytes l" using held(1) by (intro start_in_bytes) (auto simp: lock_bytes_nonempty)
  then show ?thesis using t held(2) one_lock_reachable by blast
qed

subsection \<open>Adding and subtracting ranges\<close>

text \<open>C17: subtracting a range from the lock list of a file removes exactly the bytes of the range from
  the granted locks of the owner (of every owner if none is given) that the state sequence number
  does not spare; every other byte stays covered by an entry of the same owner, state, status and
  type, and no byte becomes covered.
\<close>

theorem subtract_exact:
  assumes "reachable env s" "lock_valid lock"
    and "subtract_lock_from_list env owner state_applies state lock (lock_list s obj) s = (status, removed, ys, s')"
  shows "status = STATE_SUCCESS \<and> (\<forall>ow st b t x. covers s' (set ys) ow st b t x \<longleftrightarrow>
    covers s (set (lock_list s obj)) ow st b t x
    \<and> \<not> (subtract_hits env owner state_applies state ow st b \<and> x \<in> lock_bytes lock))"
proof -
  have wf: "lock_wf s" using reachable_inv [OF assms(1)] by (simp add: lock_inv_def)
  show ?thesis using subtract_lock_from_list_effect(1,11) [OF lock_wfD(2,1) [OF wf] assms(2,3)] by simp
qed

theorem subtract_exact_witness:
  "reachable two_owners one_lock \<and> lock_valid (write_ten\<lparr>lock_start := 4, lock_length := 2\<rparr>)
   \<and> (case subtract_lock_from_list two_owners (Some 0) False 0 (write_ten\<lparr>lock_start := 4, lock_length := 2\<rparr>)
         (lock_list one_lock 0) one_lock of
       (status, removed, ys, s') \<Rightarrow> \<not> covers s' (set ys) (Some 0) None STATE_NON_BLOCKING FSAL_LOCK_W 5
         \<and> covers s' (set ys) (Some 0) None STATE_NON_BLOCKING FSAL_LOCK_W 6)"
proof -
  let ?l = "write_ten\<lparr>lock_start := 4, lock_length := 2\<rparr>"
  obtain status removed ys s' where
    run: "subtract_lock_from_list two_owners (Some 0) False 0 ?l (lock_list one_lock 0) one_lock = (status, removed, ys, s')"
    by (metis prod_cases4)
  have valid: "lock_valid ?l" by (simp add: small_system)
  have "5 \<in> lock_bytes ?l" "6 \<notin> lock_bytes ?l"
    "covers one_lock (set (lock_list one_lock 0)) (Some 0) None STATE_NON_BLOCKING FSAL_LOCK_W 6"
    "subtract_hits two_owners (Some 0) False 0 (Some 0) None STATE_NON_BLOCKING"
    by (simp_all add: covers_def subtract_hits_def one_lock_eq small_system)
  with subtract_exact [OF one_lock_reachable valid run] one_lock_reachable valid run show ?thesis by simp
qed

text \<open>C13: adding an entry to the lock list of a file ends, for every list of valid ranges, although
  splitting an old entry appends to the list that is being walked.  The entry keeps its bytes and may gain
  neighbouring ones of its owner and type; no byte becomes held that was not, and no byte is lost
  but those the owner held there with the other type.
\<close>

theorem merge_lock_entry_returns:
  assumes "reachable env s" "a < next_entry s" "sle_owner (ent s a) \<noteq> None" "lock_valid (sle_lock (ent s a))"
    and "sle_blocked (ent s a) = STATE_NON_BLOCKING"
  shows "\<exists>s'. merge_lock_entry env obj a s = Some s'
    \<and> lock_bytes (sle_lock (ent s a)) \<subseteq> lock_bytes (sle_lock (ent s' a))
    \<and> (\<forall>b t ow x. held env s' (insert a (set (lock_list s' obj))) b t ow x \<longrightarrow>
          held env s (insert a (set (lock_list s obj))) b t ow x)
    \<and> (\<forall>b t ow x. held env s (insert a (set (lock_list s obj))) b t ow x \<longrightarrow>
          held env s' (insert a (set (lock_list s' obj))) b t ow x
          \<or> b = STATE_NON_BLOCKING \<and> t \<noteq> lock_type (sle_lock (ent s a))
             \<and> \<not> differ env (sle_owner (ent s a)) ow \<and> x \<in> lock_bytes (sle_lock (ent s' a)))"
proof -
  have wf: "lock_wf s" using reachable_inv [OF assms(1)] by (simp add: lock_inv_def)
  have "merge_ready obj a s"
    using assms(2-5) lock_wfD(1,2,3) [OF wf] by (auto simp: merge_ready_def work_def good_entries_def)
  from merge_lock_entry_ends [OF this, of env] show ?thesis
    unfolding merged_def work_def by blast
qed

theorem merge_lock_entry_returns_witness:
  "reachable two_owners one_lock \<and> sle_blocked (ent one_lock 0) = STATE_NON_BLOCKING
   \<and> (\<exists>s'. merge_lock_entry two_owners 0 0 one_lock = Some s')"
  using merge_lock_entry_returns [OF one_lock_reachable, of 0 0] one_lock_reachable
  by (auto simp: one_lock_eq small_system)



end
