(* ===== verification/Glist.thy ===== *)
theory Glist
  imports Ganesha_Prelude
begin

text \<open>
  The doubly linked lists of \<^verbatim>\<open>include/gsh_list.h\<close>.  A list is a ring of nodes through its
  head; a node that is on no list has null pointers.  The heap of nodes is explicit: an address is
  a natural number, \<open>0\<close> is the null pointer, and the two pointers of a node are two functions on
  addresses.  Each operation is its sequence of assignments.  The predicate \<open>glist\<close> says which
  list of addresses a head has, and every operation is shown to be the corresponding operation
  on lists, which is how the other theories see these lists.
\<close>

subsection \<open>Operations\<close>

record gheap =
  gnext :: "nat \<Rightarrow> nat"
  gprev :: "nat \<Rightarrow> nat"

abbreviation (input) NULL :: nat where "NULL \<equiv> 0"

definition set_next :: "nat \<Rightarrow> nat \<Rightarrow> gheap \<Rightarrow> gheap" where
  "set_next node v h = h\<lparr>gnext := (gnext h)(node := v)\<rparr>"

definition set_prev :: "nat \<Rightarrow> nat \<Rightarrow> gheap \<Rightarrow> gheap" where
  "set_prev node v h = h\<lparr>gprev := (gprev h)(node := v)\<rparr>"

definition glist_init :: "nat \<Rightarrow> gheap \<Rightarrow> gheap" where
  "glist_init head h = set_prev head head (set_next head head h)"

definition glist_add_between :: "nat \<Rightarrow> nat \<Rightarrow> nat \<Rightarrow> gheap \<Rightarrow> gheap" where
  "glist_add_between left right elt h =
    (let h = set_prev elt left h;
         h = set_next elt right h;
         h = set_next left elt h
     in set_prev right elt h)"

definition glist_add_tail :: "nat \<Rightarrow> nat \<Rightarrow> gheap \<Rightarrow> gheap" where
  "glist_add_tail head elt h = glist_add_between (gprev h head) head elt h"

definition glist_add :: "nat \<Rightarrow> nat \<Rightarrow> gheap \<Rightarrow> gheap" where
  "glist_add head elt h = glist_add_between head (gnext h head) elt h"

definition glist_del :: "nat \<Rightarrow> gheap \<Rightarrow> gheap" where
  "glist_del node h =
    (let left = gprev h node;
         right = gnext h node;
         h = (if left \<noteq> NULL then set_next left right h else h);
         h = (if right \<noteq> NULL then set_prev right left h else h);
         h = set_next node NULL h
     in set_prev node NULL h)"

definition glist_empty :: "nat \<Rightarrow> gheap \<Rightarrow> bool" where
  "glist_empty head h \<longleftrightarrow> gnext h head = head"

definition glist_null :: "nat \<Rightarrow> gheap \<Rightarrow> bool" where
  "glist_null head h \<longleftrightarrow> gnext h head = NULL \<and> gprev h head = NULL"

definition glist_add_list_tail :: "nat \<Rightarrow> nat \<Rightarrow> gheap \<Rightarrow> gheap" where
  "glist_add_list_tail list elt h =
    (let first = gnext h elt; last = gprev h elt in
     if glist_empty elt h then h
     else
       (let h = set_prev first (gprev h list) h;
            h = set_next (gprev h list) first h;
            h = set_next last list h
        in set_prev list last h))"

definition glist_splice_tail :: "nat \<Rightarrow> nat \<Rightarrow> gheap \<Rightarrow> gheap" where
  "glist_splice_tail tgt src h =
    (if glist_empty src h then h
     else
       (let h = set_prev (gnext h src) (gprev h tgt) h;
            h = set_next (gprev h tgt) (gnext h src) h;
            h = set_next (gprev h src) tgt h;
            h = set_prev tgt (gprev h src) h
        in glist_init src h))"

definition glist_swap_lists :: "nat \<Rightarrow> nat \<Rightarrow> gheap \<Rightarrow> gheap" where
  "glist_swap_lists l1 l2 h =
    (if glist_empty l1 h then glist_splice_tail l1 l2 h
     else if glist_empty l2 h then glist_splice_tail l2 l1 h
     else
       (let tn = gnext h l1; tp = gprev h l1;
            h = set_prev l1 (gprev h l2) (set_next l1 (gnext h l2) h);
            h = set_prev l2 tp (set_next l2 tn h);
            h = set_prev (gnext h l1) l1 h;
            h = set_prev (gnext h l2) l2 h;
            h = set_next (gprev h l1) l1 h
        in set_next (gprev h l2) l2 h))"

text \<open>The loops follow pointers, so they need not end: \<open>None\<close> is that they do not.\<close>

partial_function (option) glist_length_loop :: "nat \<Rightarrow> nat \<Rightarrow> uint64 \<Rightarrow> gheap \<Rightarrow> uint64 option" where
  "glist_length_loop head node len h =
    (if node = head then Some len else glist_length_loop head (gnext h node) (len + 1) h)"

definition glist_length :: "nat \<Rightarrow> gheap \<Rightarrow> uint64 option" where
  "glist_length head h = glist_length_loop head (gnext h head) 0 h"

partial_function (option) glist_search :: "(nat \<Rightarrow> nat \<Rightarrow> int) \<Rightarrow> nat \<Rightarrow> nat \<Rightarrow> nat \<Rightarrow> gheap \<Rightarrow> nat option" where
  "glist_search compare elt head node h =
    (if node = head then Some node
     else if compare node elt \<ge> 0 then Some node
     else glist_search compare elt head (gnext h node) h)"

definition glist_insert_sorted :: "nat \<Rightarrow> nat \<Rightarrow> (nat \<Rightarrow> nat \<Rightarrow> int) \<Rightarrow> gheap \<Rightarrow> gheap option" where
  "glist_insert_sorted head elt compare h =
    (if glist_empty head h then Some (glist_add_tail head elt h)
     else map_option (\<lambda>node. glist_add_between (gprev h node) node elt h)
            (glist_search compare elt head (gnext h head) h))"

text \<open>
  The loop of \<^verbatim>\<open>glist_for_each_safe\<close> with its body, which may change the heap and a state of
  its own; the next node is read before the body runs.
\<close>

partial_function (option) glist_for_each_safe ::
  "(nat \<Rightarrow> gheap \<times> 's \<Rightarrow> gheap \<times> 's) \<Rightarrow> nat \<Rightarrow> nat \<Rightarrow> nat \<Rightarrow> gheap \<times> 's \<Rightarrow> (gheap \<times> 's) option" where
  "glist_for_each_safe body head node noden hs =
    (if node = head then Some hs
     else
       (let hs = body node hs
        in glist_for_each_safe body head noden (gnext (fst hs) noden) hs))"

subsection \<open>Which list a head has\<close>

text \<open>The nodes \<open>xs\<close> lead from \<open>p\<close> to \<open>q\<close>, with both pointers.\<close>

primrec gseg :: "gheap \<Rightarrow> nat \<Rightarrow> nat list \<Rightarrow> nat \<Rightarrow> bool" where
  "gseg h p [] q \<longleftrightarrow> gnext h p = q \<and> gprev h q = p"
| "gseg h p (x # xs) q \<longleftrightarrow> gnext h p = x \<and> gprev h x = p \<and> gseg h x xs q"

definition glist :: "gheap \<Rightarrow> nat \<Rightarrow> nat list \<Rightarrow> bool" where
  "glist h head xs \<longleftrightarrow> gseg h head xs head \<and> distinct (head # xs) \<and> NULL \<notin> set (head # xs)"

text \<open>Two nodes made neighbours; every operation is a sequence of these.\<close>

definition glink :: "nat \<Rightarrow> nat \<Rightarrow> gheap \<Rightarrow> gheap" where
  "glink a b h = set_prev b a (set_next a b h)"

lemma set_next_simps [simp]:
  "gnext (set_next a v h) = (gnext h)(a := v)" "gprev (set_next a v h) = gprev h"
  "gprev (set_prev a v h) = (gprev h)(a := v)" "gnext (set_prev a v h) = gnext h"
  by (simp_all add: set_next_def set_prev_def)

lemma glink_simps [simp]: "gnext (glink a b h) = (gnext h)(a := b)" "gprev (glink a b h) = (gprev h)(b := a)"
  by (simp_all add: glink_def)

lemma gheap_eqI: "gnext h = gnext h' \<Longrightarrow> gprev h = gprev h' \<Longrightarrow> h = (h' :: gheap)"
  by simp

lemma gseg_cong:
  "(\<And>a. a \<in> set (p # xs) \<Longrightarrow> gnext h' a = gnext h a) \<Longrightarrow>
   (\<And>a. a \<in> set (q # xs) \<Longrightarrow> gprev h' a = gprev h a) \<Longrightarrow> gseg h' p xs q \<longleftrightarrow> gseg h p xs q"
  by (induction xs arbitrary: p) auto

lemma gseg_link [simp]: "a \<notin> set (p # xs) \<Longrightarrow> b \<notin> set (q # xs) \<Longrightarrow> gseg (glink a b h) p xs q \<longleftrightarrow> gseg h p xs q"
  by (rule gseg_cong) auto

lemma gseg_link_end:
  "gseg h p xs q \<Longrightarrow> distinct (p # xs) \<Longrightarrow> r \<notin> set xs \<Longrightarrow> gseg (glink (last (p # xs)) r h) p xs r"
proof (induction xs arbitrary: p)
  case (Cons x xs)
  then show ?case using Cons.IH [of x] by auto
qed simp

lemma gseg_link_start:
  "gseg h p xs q \<Longrightarrow> distinct xs \<Longrightarrow> r \<notin> set xs \<Longrightarrow> q \<notin> set xs \<Longrightarrow> gseg (glink r (hd (xs @ [q])) h) r xs q"
  by (cases xs) auto

lemma gseg_append:
  "gseg h p (xs @ ys) q \<longleftrightarrow> gseg h p xs (hd (ys @ [q])) \<and> gseg h (last (p # xs)) ys q"
proof (induction xs arbitrary: p)
  case Nil
  then show ?case by (cases ys) auto
qed auto

lemma gseg_Cons_append: "gseg h p (xs @ x # ys) q \<longleftrightarrow> gseg h p xs x \<and> gseg h x ys q"
  by (induction xs arbitrary: p) auto

lemma gseg_first: "gseg h p xs q \<Longrightarrow> gnext h p = hd (xs @ [q])"
  by (cases xs) auto

lemma gseg_last: "gseg h p xs q \<Longrightarrow> gprev h q = last (p # xs)"
  by (induction xs arbitrary: p) auto

lemma glistD:
  assumes "glist h head xs"
  shows "gseg h head xs head" "distinct xs" "head \<notin> set xs" "NULL \<notin> set xs" "head \<noteq> NULL"
    and "gnext h head = hd (xs @ [head])" "gprev h head = last (head # xs)"
  using assms gseg_first [of h head xs head] gseg_last [of h head xs head] by (auto simp: glist_def)

text \<open>Changing nodes that are not on a list leaves the list alone.\<close>

lemma glist_frame:
  assumes "glist h head xs" "\<And>a. a \<in> set (head # xs) \<Longrightarrow> gnext h' a = gnext h a \<and> gprev h' a = gprev h a"
  shows "glist h' head xs"
  using assms gseg_cong [of head xs h' h head] by (auto simp: glist_def)

text \<open>A list is determined by its head.\<close>

lemma gseg_unique:
  "gseg h p xs q \<Longrightarrow> gseg h p ys q \<Longrightarrow> q \<notin> set xs \<Longrightarrow> q \<notin> set ys \<Longrightarrow> xs = ys"
proof (induction xs arbitrary: p ys)
  case Nil
  then show ?case by (cases ys) auto
next
  case (Cons x xs)
  then show ?case by (cases ys) auto
qed

lemma glist_unique: "glist h head xs \<Longrightarrow> glist h head ys \<Longrightarrow> xs = ys"
  by (rule gseg_unique [of h head _ head]) (auto simp: glist_def)

lemma glist_node:
  assumes "glist h head (xs @ x # ys)"
  shows "gprev h x = last (head # xs)" "gnext h x = hd (ys @ [head])"
  using glistD(1) [OF assms] gseg_last [of h head xs x] gseg_first [of h x ys head]
  by (simp_all add: gseg_Cons_append)

subsection \<open>Each operation on the list it has\<close>

lemma glist_init_list: "head \<noteq> NULL \<Longrightarrow> glist (glist_init head h) head []"
  by (simp add: glist_init_def glist_def)

lemma glist_empty_iff: "glist h head xs \<Longrightarrow> glist_empty head h \<longleftrightarrow> xs = []"
  using glistD(3,6) [of h head xs] by (cases xs) (auto simp: glist_empty_def)

lemma glist_add_between_link:
  "l \<noteq> elt \<Longrightarrow> r \<noteq> elt \<Longrightarrow> glist_add_between l r elt h = glink l elt (glink elt r h)"
  "l \<noteq> elt \<Longrightarrow> r \<noteq> elt \<Longrightarrow> glist_add_between l r elt h = glink elt r (glink l elt h)"
  by (auto intro!: gheap_eqI simp: glist_add_between_def Let_def fun_eq_iff)

text \<open>A new node between two neighbours.\<close>

lemma glist_add_between_list:
  assumes "glist h head (xs @ ys)" "elt \<notin> set (head # xs @ ys)" "elt \<noteq> NULL"
  shows "glist (glist_add_between (last (head # xs)) (hd (ys @ [head])) elt h) head (xs @ elt # ys)"
proof -
  let ?l = "last (head # xs)" and ?r = "hd (ys @ [head])"
  have old: "gseg h head xs ?r" "gseg h ?l ys head" using glistD(1) [OF assms(1)] gseg_append by simp_all
  have d: "distinct (head # xs @ ys)" "NULL \<notin> set (head # xs @ ys)" using assms(1) by (auto simp: glist_def)
  have l: "?l \<in> set (head # xs)" by simp
  have r: "?r = head \<or> ?r \<in> set ys" by (cases ys) auto
  have neq: "?l \<noteq> elt" "?r \<noteq> elt" using l r assms(2) by auto
  have "gseg (glink ?l elt h) head xs elt" using gseg_link_end [OF old(1), of elt] d assms(2) by simp
  then have one: "gseg (glink elt ?r (glink ?l elt h)) head xs elt"
    using assms(2) d r by (subst gseg_link) auto
  have "gseg (glink elt ?r h) elt ys head" using gseg_link_start [OF old(2), of elt] d assms(2) by simp
  then have two: "gseg (glink ?l elt (glink elt ?r h)) elt ys head"
    using assms(2) d l by (subst gseg_link) auto
  show ?thesis
    using one two glist_add_between_link [OF neq, of h] d assms(2,3) by (simp add: glist_def gseg_Cons_append)
qed

lemma glist_add_tail_list:
  assumes "glist h head xs" "elt \<notin> set (head # xs)" "elt \<noteq> NULL"
  shows "glist (glist_add_tail head elt h) head (xs @ [elt])"
  using glist_add_between_list [of h head xs "[]" elt] assms glistD(7) [OF assms(1)]
  by (simp add: glist_add_tail_def)

lemma glist_add_list:
  assumes "glist h head xs" "elt \<notin> set (head # xs)" "elt \<noteq> NULL"
  shows "glist (glist_add head elt h) head (elt # xs)"
  using glist_add_between_list [of h head "[]" xs elt] assms glistD(6) [OF assms(1)]
  by (simp add: glist_add_def)

text \<open>Taking a node off its list; of a node on no list nothing is done.\<close>

lemma glist_del_link:
  assumes "glist h head (xs @ x # ys)"
  shows "glist_del x h = set_prev x NULL (set_next x NULL (glink (last (head # xs)) (hd (ys @ [head])) h))"
proof -
  have "last (head # xs) \<in> set (head # xs)" "hd (ys @ [head]) \<in> set (ys @ [head])" by (simp, intro hd_in_set) simp
  then have "last (head # xs) \<noteq> NULL" "hd (ys @ [head]) \<noteq> NULL"
    using assms unfolding glist_def by (metis Un_iff list.set_intros set_ConsD set_append empty_iff list.set(1))+
  then show ?thesis
    using glist_node [OF assms] by (simp add: glist_del_def Let_def glink_def)
qed

lemma glist_del_list:
  assumes "glist h head (xs @ x # ys)"
  shows "glist (glist_del x h) head (xs @ ys)" "glist_null x (glist_del x h)"
proof -
  let ?l = "last (head # xs)" and ?r = "hd (ys @ [head])"
  have old: "gseg h head xs x" "gseg h x ys head" using glistD(1) [OF assms] gseg_Cons_append by simp_all
  have d: "distinct (head # xs @ x # ys)" "NULL \<notin> set (head # xs @ x # ys)" using assms by (auto simp: glist_def)
  have l: "?l \<in> set (head # xs)" by simp
  have r: "?r = head \<or> ?r \<in> set ys" by (cases ys) auto
  have out: "?r \<notin> set xs" "?l \<notin> set ys" using d l r by auto
  have "gseg (glink ?l ?r h) head xs ?r" by (rule gseg_link_end [OF old(1) _ out(1)]) (use d in simp)
  moreover have "gseg (glink ?l ?r h) ?l ys head" by (rule gseg_link_start [OF old(2) _ out(2)]) (use d in simp_all)
  ultimately have "gseg (glink ?l ?r h) head (xs @ ys) head" by (simp only: gseg_append)
  moreover have "x \<notin> set (head # xs @ ys)" using d by auto
  ultimately have "gseg (set_prev x NULL (set_next x NULL (glink ?l ?r h))) head (xs @ ys) head"
    by (subst gseg_cong [where h = "glink ?l ?r h"]) auto
  then show "glist (glist_del x h) head (xs @ ys)"
    using d by (simp add: glist_del_link [OF assms] glist_def)
  show "glist_null x (glist_del x h)" by (simp add: glist_del_link [OF assms] glist_null_def)
qed

lemma glist_del_null: "glist_null x h \<Longrightarrow> glist_del x h = h"
  by (auto intro!: gheap_eqI simp: glist_del_def glist_null_def Let_def fun_eq_iff)

text \<open>Appending a list to another.  The head of the appended list still points into it.\<close>

lemma glist_append_link:
  assumes "glist h tgt xs" "glist h src ys" "ys \<noteq> []" "set (tgt # xs) \<inter> set (src # ys) = {}"
  shows "gseg (glink (last ys) tgt (glink (last (tgt # xs)) (hd ys) h)) tgt (xs @ ys) tgt"
proof -
  let ?l = "last (tgt # xs)"
  have d: "distinct (tgt # xs)" "distinct (src # ys)" using assms(1,2) by (auto simp: glist_def)
  have mem: "hd ys \<in> set ys" "last ys \<in> set ys" "?l \<in> set (tgt # xs)" using assms(3) by simp_all
  have out: "hd ys \<notin> set (tgt # xs)" "?l \<notin> set (src # ys)" "last ys \<notin> set (tgt # xs)" "tgt \<notin> set ys"
    using mem assms(4) by (metis disjoint_iff list.set_intros)+
  have one: "gseg (glink ?l (hd ys) h) tgt xs (hd ys)"
    by (rule gseg_link_end [OF glistD(1) [OF assms(1)]]) (use d out in auto)
  then have "gseg (glink (last ys) tgt (glink ?l (hd ys) h)) tgt xs (hd (ys @ [tgt]))"
    using d out assms(3) by (subst gseg_link) (auto simp: hd_append)
  moreover have "gseg (glink ?l (hd ys) h) ?l ys src"
    using gseg_link_start [OF glistD(1) [OF assms(2)], of ?l] d out assms(3) by (simp add: hd_append)
  then have "gseg (glink (last (?l # ys)) tgt (glink ?l (hd ys) h)) ?l ys tgt"
    by (rule gseg_link_end) (use d out in auto)
  ultimately show ?thesis using assms(3) by (simp add: gseg_append)
qed

lemma glist_add_list_tail_list:
  assumes "glist h list xs" "glist h elt ys" "set (list # xs) \<inter> set (elt # ys) = {}"
  shows "glist (glist_add_list_tail list elt h) list (xs @ ys)"
proof (cases "ys = []")
  case True
  then show ?thesis using assms(1) glist_empty_iff [OF assms(2)] by (simp add: glist_add_list_tail_def)
next
  case False
  have mem: "hd ys \<in> set ys" "last ys \<in> set ys" "last (list # xs) \<in> set (list # xs)" using False by simp_all
  have p: "gnext h elt = hd ys" "gprev h elt = last ys" "gprev h list = last (list # xs)"
    using glistD(6,7) [OF assms(2)] glistD(7) [OF assms(1)] False by (simp_all add: hd_append)
  have "list \<noteq> hd ys" using mem assms(3) by auto
  then have "glist_add_list_tail list elt h = glink (last ys) list (glink (last (list # xs)) (hd ys) h)"
    using False glist_empty_iff [OF assms(2)] p
    by (auto intro!: gheap_eqI simp: glist_add_list_tail_def Let_def fun_eq_iff)
  then show ?thesis
    using glist_append_link [OF assms(1,2) False assms(3)] assms by (auto simp: glist_def)
qed

lemma glist_splice_tail_list:
  assumes "glist h tgt xs" "glist h src ys" "set (tgt # xs) \<inter> set (src # ys) = {}"
  shows "glist (glist_splice_tail tgt src h) tgt (xs @ ys)" "glist (glist_splice_tail tgt src h) src []"
proof -
  have "glist (glist_splice_tail tgt src h) tgt (xs @ ys) \<and> glist (glist_splice_tail tgt src h) src []"
  proof (cases "ys = []")
    case True
    then show ?thesis using assms(1,2) glist_empty_iff [OF assms(2)] by (simp add: glist_splice_tail_def)
  next
    case False
    have mem: "hd ys \<in> set ys" "last ys \<in> set ys" "last (tgt # xs) \<in> set (tgt # xs)" using False by simp_all
    have p: "gnext h src = hd ys" "gprev h src = last ys" "gprev h tgt = last (tgt # xs)"
      using glistD(6,7) [OF assms(2)] glistD(7) [OF assms(1)] False by (simp_all add: hd_append)
    have neq: "tgt \<noteq> hd ys" "src \<noteq> hd ys" "src \<noteq> last ys" "tgt \<noteq> src" "last (tgt # xs) \<noteq> src"
      using mem assms(3) glistD(3) [OF assms(2)] by (metis disjoint_iff list.set_intros)+
    let ?h = "glink (last ys) tgt (glink (last (tgt # xs)) (hd ys) h)"
    have eq: "glist_splice_tail tgt src h = glist_init src ?h"
      using False glist_empty_iff [OF assms(2)] p neq
      by (auto intro!: gheap_eqI simp: glist_splice_tail_def glist_init_def Let_def fun_eq_iff)
    have "gseg (glist_init src ?h) tgt (xs @ ys) tgt"
      using glist_append_link [OF assms(1,2) False assms(3)] assms(3) glistD(3) [OF assms(2)]
      by (subst gseg_cong [where h = ?h]) (auto simp: glist_init_def)
    then show ?thesis
      unfolding eq using assms glistD(2,4,5) [OF assms(2)] glist_init_list by (auto simp: glist_def [of _ tgt])
  qed
  then show "glist (glist_splice_tail tgt src h) tgt (xs @ ys)" "glist (glist_splice_tail tgt src h) src []"
    by simp_all
qed

lemma gseg_reroot:
  assumes "glist h l1 xs" "xs \<noteq> []" "l2 \<notin> set xs"
  shows "gseg (glink (last xs) l2 (glink l2 (hd xs) h)) l2 xs l2"
proof -
  have d: "distinct xs" "l1 \<notin> set xs" using glistD(2,3) [OF assms(1)] by simp_all
  have "gseg (glink l2 (hd xs) h) l2 xs l1"
    using gseg_link_start [OF glistD(1) [OF assms(1)] d(1) assms(3) d(2)] assms(2) by (simp add: hd_append)
  from gseg_link_end [OF this, of l2] show ?thesis using d(1) assms(2,3) by simp
qed

lemma glist_swap_lists_list:
  assumes "glist h l1 xs" "glist h l2 ys" "set (l1 # xs) \<inter> set (l2 # ys) = {}"
  shows "glist (glist_swap_lists l1 l2 h) l1 ys" "glist (glist_swap_lists l1 l2 h) l2 xs"
proof -
  have sym: "set (l2 # ys) \<inter> set (l1 # xs) = {}" using assms(3) by blast
  consider "xs = []" | "xs \<noteq> []" "ys = []" | "xs \<noteq> []" "ys \<noteq> []" by blast
  then have "glist (glist_swap_lists l1 l2 h) l1 ys \<and> glist (glist_swap_lists l1 l2 h) l2 xs"
  proof cases
    case 1
    then show ?thesis
      using glist_splice_tail_list [OF assms] glist_empty_iff [OF assms(1)] by (simp add: glist_swap_lists_def)
  next
    case 2
    then show ?thesis
      using glist_splice_tail_list [OF assms(2,1) sym] glist_empty_iff [OF assms(1)] glist_empty_iff [OF assms(2)]
      by (simp add: glist_swap_lists_def)
  next
    case 3
    have mem: "hd xs \<in> set xs" "last xs \<in> set xs" "hd ys \<in> set ys" "last ys \<in> set ys" using 3 by simp_all
    have out: "l1 \<notin> set ys" "l2 \<notin> set xs" "l1 \<notin> set xs" "l2 \<notin> set ys" "l1 \<noteq> l2" "set xs \<inter> set ys = {}"
      using assms(3) glistD(3) [OF assms(1)] glistD(3) [OF assms(2)] by auto
    have p: "gnext h l1 = hd xs" "gprev h l1 = last xs" "gnext h l2 = hd ys" "gprev h l2 = last ys"
      using glistD(6,7) [OF assms(1)] glistD(6,7) [OF assms(2)] 3 by (simp_all add: hd_append)
    have neq: "hd xs \<noteq> hd ys" "last xs \<noteq> last ys" "hd xs \<noteq> l1" "hd xs \<noteq> l2" "hd ys \<noteq> l1" "hd ys \<noteq> l2"
      "last xs \<noteq> l1" "last xs \<noteq> l2" "last ys \<noteq> l1" "last ys \<noteq> l2"
      using mem out by (metis disjoint_iff)+
    let ?ys = "\<lambda>h. glink (last ys) l1 (glink l1 (hd ys) h)" and ?xs = "\<lambda>h. glink (last xs) l2 (glink l2 (hd xs) h)"
    have eq: "glist_swap_lists l1 l2 h = ?xs (?ys h)" and comm: "?xs (?ys h) = ?ys (?xs h)"
      using 3 glist_empty_iff [OF assms(1)] glist_empty_iff [OF assms(2)] p neq out(5)
      by (auto intro!: gheap_eqI simp: glist_swap_lists_def Let_def fun_eq_iff)
    have far: "hd xs \<notin> set (l1 # ys)" "last xs \<notin> set (l1 # ys)" "hd ys \<notin> set (l2 # xs)" "last ys \<notin> set (l2 # xs)"
      using mem neq out by (auto simp: disjoint_iff)
    have "gseg (?xs (?ys h)) l1 ys l1"
      using gseg_reroot [OF assms(2) 3(2) out(1)] out far by simp
    moreover have "gseg (?ys (?xs h)) l2 xs l2"
      using gseg_reroot [OF assms(1) 3(1) out(2)] out far by simp
    ultimately show ?thesis
      using assms(1,2) out unfolding eq by (simp add: glist_def comm)
  qed
  then show "glist (glist_swap_lists l1 l2 h) l1 ys" "glist (glist_swap_lists l1 l2 h) l2 xs" by simp_all
qed

subsection \<open>The loops\<close>

lemma glist_length_loop_list:
  "gseg h p xs head \<Longrightarrow> head \<notin> set xs \<Longrightarrow> glist_length_loop head (gnext h p) len h = Some (len + of_nat (length xs))"
proof (induction xs arbitrary: p len)
  case Nil
  then show ?case by (subst glist_length_loop.simps) simp
next
  case (Cons x xs)
  then show ?case by (subst glist_length_loop.simps) (auto simp: algebra_simps)
qed

lemma glist_length_list: "glist h head xs \<Longrightarrow> glist_length head h = Some (of_nat (length xs))"
  unfolding glist_length_def using glist_length_loop_list [OF glistD(1,3)] by simp

lemma glist_search_list:
  assumes "gseg h p xs head" "head \<notin> set xs"
  shows "glist_search compare elt head (gnext h p) h =
    Some (hd (dropWhile (\<lambda>x. compare x elt < 0) xs @ [head]))"
  using assms
proof (induction xs arbitrary: p)
  case Nil
  then show ?case by (subst glist_search.simps) simp
next
  case (Cons x xs)
  then show ?case by (subst glist_search.simps) auto
qed

text \<open>A sorted insertion puts the node before the first one that is not smaller.\<close>

lemma glist_insert_sorted_list:
  assumes "glist h head xs" "elt \<notin> set (head # xs)" "elt \<noteq> NULL"
    and ys_def: "ys = takeWhile (\<lambda>x. compare x elt < 0) xs" and zs_def: "zs = dropWhile (\<lambda>x. compare x elt < 0) xs"
  shows "\<exists>h'. glist_insert_sorted head elt compare h = Some h' \<and> glist h' head (ys @ elt # zs)"
proof (cases "xs = []")
  case True
  then show ?thesis
    using glist_add_tail_list [OF assms(1-3)] glist_empty_iff [OF assms(1)]
    by (simp add: glist_insert_sorted_def ys_def zs_def)
next
  case False
  have split: "xs = ys @ zs" by (simp add: ys_def zs_def)
  have "gprev h (hd (zs @ [head])) = last (head # ys)"
    using assms(1) gseg_last [of h head ys "hd (zs @ [head])"] unfolding split glist_def gseg_append by simp
  moreover have "glist_search compare elt head (gnext h head) h = Some (hd (zs @ [head]))"
    unfolding zs_def by (rule glist_search_list [OF glistD(1,3) [OF assms(1)]])
  ultimately have "glist_insert_sorted head elt compare h =
      Some (glist_add_between (last (head # ys)) (hd (zs @ [head])) elt h)"
    using False glist_empty_iff [OF assms(1)] by (simp add: glist_insert_sorted_def)
  then show ?thesis using glist_add_between_list [of h head ys zs elt] assms(1-3) unfolding split by blast
qed

text \<open>
  The loop over a list whose body may take the current node off the list or leave the list as it
  is: it ends, it runs the body for each node of the list once, in order, and the list that
  remains has the nodes the body kept.
\<close>

primrec kept :: "(nat \<Rightarrow> 's \<Rightarrow> 's) \<Rightarrow> (nat \<Rightarrow> 's \<Rightarrow> bool) \<Rightarrow> nat list \<Rightarrow> 's \<Rightarrow> nat list" where
  "kept step keep [] s = []"
| "kept step keep (x # xs) s = (if keep x s then [x] else []) @ kept step keep xs (step x s)"

lemma glist_for_each_safe_list:
  assumes "glist h head (us @ xs)"
    and body: "\<And>us x ys h s. glist h head (us @ x # ys) \<Longrightarrow>
      snd (body x (h, s)) = step x s \<and> glist (fst (body x (h, s))) head (us @ (if keep x s then [x] else []) @ ys)"
  shows "\<exists>h'. glist_for_each_safe body head (hd (xs @ [head])) (gnext h (hd (xs @ [head]))) (h, s) =
    Some (h', fold step xs s) \<and> glist h' head (us @ kept step keep xs s)"
  using assms(1)
proof (induction xs arbitrary: us h s)
  case Nil
  then show ?case by (subst glist_for_each_safe.simps) auto
next
  case (Cons x xs)
  obtain h1 s1 where run: "body x (h, s) = (h1, s1)" by fastforce
  let ?vs = "if keep x s then [x] else []"
  have b: "s1 = step x s" "glist h1 head ((us @ ?vs) @ xs)" using body [OF Cons.prems, of s] run by auto
  obtain h' where IH: "glist_for_each_safe body head (hd (xs @ [head])) (gnext h1 (hd (xs @ [head]))) (h1, s1) =
      Some (h', fold step xs s1)" "glist h' head ((us @ ?vs) @ kept step keep xs s1)"
    using Cons.IH [OF b(2)] by blast
  have "x \<noteq> head" using glistD(3) [OF Cons.prems] by auto
  then have "glist_for_each_safe body head (hd ((x # xs) @ [head])) (gnext h (hd ((x # xs) @ [head]))) (h, s) =
      Some (h', fold step (x # xs) s)"
    using IH(1) b(1) run glist_node(2) [OF Cons.prems]
    by (subst glist_for_each_safe.simps) simp
  then show ?case using IH(2) b(1) by simp
qed

subsection \<open>The interface\<close>

text \<open>
  What the other components rely on: a store of lists, named by their heads, to which a node is
  appended and from which a node is taken.  A node on no list is free.
\<close>

locale list_store =
  fixes holds :: "'h \<Rightarrow> nat \<Rightarrow> nat list \<Rightarrow> bool"
    and add_tail :: "nat \<Rightarrow> nat \<Rightarrow> 'h \<Rightarrow> 'h"
    and del :: "nat \<Rightarrow> 'h \<Rightarrow> 'h"
    and free :: "nat \<Rightarrow> 'h \<Rightarrow> bool"
  assumes add_tail: "holds h head xs \<Longrightarrow> x \<notin> set (head # xs) \<Longrightarrow> x \<noteq> 0 \<Longrightarrow> holds (add_tail head x h) head (xs @ [x])"
    and add_other: "holds h head xs \<Longrightarrow> holds h head' ys \<Longrightarrow> set (head # xs) \<inter> set (head' # ys) = {} \<Longrightarrow>
      x \<notin> set (head' # ys) \<Longrightarrow> holds (add_tail head x h) head' ys"
    and del: "holds h head (xs @ x # ys) \<Longrightarrow> holds (del x h) head (xs @ ys) \<and> free x (del x h)"
    and del_other: "holds h head (xs @ x # ys) \<Longrightarrow> holds h head' zs \<Longrightarrow>
      set (head # xs @ x # ys) \<inter> set (head' # zs) = {} \<Longrightarrow> holds (del x h) head' zs"
    and unique: "holds h head xs \<Longrightarrow> holds h head ys \<Longrightarrow> xs = ys"
    and ring: "holds h head xs \<Longrightarrow> distinct (head # xs)"
begin

text \<open>As the other theories write it: the node is removed from the list of addresses.\<close>

lemma del_remove1: "holds h head xs \<Longrightarrow> x \<in> set xs \<Longrightarrow> holds (del x h) head (remove1 x xs)"
proof -
  assume h: "holds h head xs" and "x \<in> set xs"
  then obtain us vs where xs: "xs = us @ x # vs" by (auto simp: in_set_conv_decomp)
  moreover have "x \<notin> set us" using ring [OF h] by (auto simp: xs)
  ultimately show ?thesis using del [of h head us x vs] h by (simp add: remove1_append)
qed

text \<open>A queue: what is appended comes out in the same order.\<close>

lemma fill:
  "holds h head xs \<Longrightarrow> distinct ns \<Longrightarrow> set ns \<inter> set (head # xs) = {} \<Longrightarrow> 0 \<notin> set ns \<Longrightarrow>
   holds (fold (add_tail head) ns h) head (xs @ ns)"
proof (induction ns arbitrary: xs h)
  case (Cons n ns)
  have "holds (add_tail head n h) head (xs @ [n])" using Cons.prems by (intro add_tail) auto
  moreover have "set ns \<inter> set (head # xs @ [n]) = {}" using Cons.prems(2,3) by auto
  ultimately have "holds (fold (add_tail head) ns (add_tail head n h)) head ((xs @ [n]) @ ns)"
    using Cons.prems(2,4) by (intro Cons.IH) simp_all
  then show ?case by simp
qed simp

lemma drain: "holds h head (xs @ ys) \<Longrightarrow> holds (fold del xs h) head ys"
proof (induction xs arbitrary: h)
  case (Cons x xs)
  then show ?case using del [of h head "[]" x "xs @ ys"] by simp
qed simp

lemma move:
  assumes "holds h a (xs @ x # ys)" "holds h b zs" "set (a # xs @ x # ys) \<inter> set (b # zs) = {}" "x \<noteq> 0"
  shows "holds (add_tail b x (del x h)) a (xs @ ys)" "holds (add_tail b x (del x h)) b (zs @ [x])"
proof -
  have one: "holds (del x h) a (xs @ ys)" using del [OF assms(1)] by simp
  have two: "holds (del x h) b zs" by (rule del_other [OF assms(1-3)])
  have d: "x \<notin> set (a # xs @ ys)" using ring [OF assms(1)] by auto
  show "holds (add_tail b x (del x h)) a (xs @ ys)" by (rule add_other [OF two one]) (use assms(3) d in auto)
  show "holds (add_tail b x (del x h)) b (zs @ [x])" by (rule add_tail [OF two]) (use assms(3,4) in auto)
qed

end

lemma glist_del_other:
  assumes "glist h head (xs @ x # ys)" "glist h head' zs" "set (head # xs @ x # ys) \<inter> set (head' # zs) = {}"
  shows "glist (glist_del x h) head' zs"
proof (rule glist_frame [OF assms(2)])
  fix a
  assume a: "a \<in> set (head' # zs)"
  have "a \<notin> set (head # xs @ x # ys)" using a assms(3) by blast
  then have "a \<notin> set (head # xs)" "a \<notin> set (ys @ [head])" "a \<noteq> x" by auto
  then have "a \<noteq> last (head # xs)" "a \<noteq> hd (ys @ [head])" "a \<noteq> x"
    using last_in_set [of "head # xs"] hd_in_set [of "ys @ [head]"] by blast+
  then show "gnext (glist_del x h) a = gnext h a \<and> gprev (glist_del x h) a = gprev h a"
    by (simp add: glist_del_link [OF assms(1)])
qed

lemma glist_add_tail_other:
  assumes "glist h head xs" "glist h head' ys" "set (head # xs) \<inter> set (head' # ys) = {}" "x \<notin> set (head' # ys)"
  shows "glist (glist_add_tail head x h) head' ys"
proof (rule glist_frame [OF assms(2)])
  fix a
  assume a: "a \<in> set (head' # ys)"
  have "last (head # xs) \<in> set (head # xs)" by simp
  then have "a \<noteq> last (head # xs)" "a \<noteq> head" "a \<noteq> x" using a assms(3,4) by auto
  then show "gnext (glist_add_tail head x h) a = gnext h a \<and> gprev (glist_add_tail head x h) a = gprev h a"
    using glistD(7) [OF assms(1)] by (simp add: glist_add_tail_def glist_add_between_def Let_def)
qed

interpretation gl: list_store glist glist_add_tail glist_del glist_null
proof
  show "glist h head (xs @ x # ys) \<Longrightarrow> glist (glist_del x h) head (xs @ ys) \<and> glist_null x (glist_del x h)"
    for h head xs x ys using glist_del_list by blast
  show "glist h head xs \<Longrightarrow> distinct (head # xs)" for h head xs by (simp add: glist_def)
qed (fact glist_add_tail_list glist_add_tail_other glist_del_other glist_unique)+

subsection \<open>Properties\<close>


definition two_rings :: gheap where
  "two_rings = glist_add_tail 1 4 (glist_add_tail 1 3 (glist_init 2 (glist_init 1 \<lparr>gnext = \<lambda>_. 0, gprev = \<lambda>_. 0\<rparr>)))"

lemma two_rings_lists: "glist two_rings 1 [3, 4]" "glist two_rings 2 []"
proof -
  let ?h = "glist_init 2 (glist_init 1 \<lparr>gnext = \<lambda>_. 0, gprev = \<lambda>_. 0\<rparr>)"
  have "glist ?h 1 []" "glist ?h 2 []" by (simp_all add: glist_def glist_init_def)
  then show "glist two_rings 1 [3, 4]" "glist two_rings 2 []"
    using gl.fill [of ?h 1 "[]" "[3, 4]"] gl.add_other [of "glist_add_tail 1 3 ?h" 1 "[3]" 2 "[]" 4]
      gl.add_other [of ?h 1 "[]" 2 "[]" 3] gl.add_tail [of ?h 1 "[]" 3]
    by (simp_all add: two_rings_def)
qed


text \<open>C36: the loop that allows its body to take the current node off the list visits every node
  of the list exactly once and in order, ends, and leaves the nodes the body kept.\<close>

theorem glist_for_each_safe_visits:
  assumes "glist h head xs"
    and "\<And>us x ys h s. glist h head (us @ x # ys) \<Longrightarrow>
      snd (body x (h, s)) = step x s \<and> glist (fst (body x (h, s))) head (us @ (if keep x s then [x] else []) @ ys)"
  shows "\<exists>h'. glist_for_each_safe body head (gnext h head) (gnext h (gnext h head)) (h, s) = Some (h', fold step xs s)
    \<and> glist h' head (kept step keep xs s)"
  using glist_for_each_safe_list [of h head "[]" xs body step keep] assms glistD(6) [OF assms(1)] by simp

definition drop_all :: "nat \<Rightarrow> gheap \<times> nat list \<Rightarrow> gheap \<times> nat list" where
  "drop_all x = (\<lambda>(h, seen). (glist_del x h, seen @ [x]))"

theorem glist_for_each_safe_visits_witness:
  "\<exists>h'. glist_for_each_safe drop_all 1 (gnext two_rings 1) (gnext two_rings (gnext two_rings 1)) (two_rings, []) =
     Some (h', [3, 4]) \<and> glist h' 1 []"
  using glist_for_each_safe_visits [OF two_rings_lists(1), of drop_all "\<lambda>x s. s @ [x]" "\<lambda>_ _. False" "[]"]
  by (simp add: drop_all_def glist_del_list)

end
