(* ===== verification/Base64.thy ===== *)
theory Base64
  imports Ganesha_Prelude
begin

text \<open>
  The base 64 codec of \<^verbatim>\<open>support/bsd-base64.c\<close>, used for opaque owner and client names.
  Characters are bytes; a C string is the list of its characters before the terminating zero, and
  reading at its end gives that zero.  A buffer is a list of bytes that may be longer than the size
  the function is given, so that a write past the size would be seen.  A function gives its result,
  with \<open>-1\<close> for an error, and the buffer it leaves.  Sizes are below the range of \<^verbatim>\<open>int\<close>.
\<close>

unbundle bit_operations_syntax

subsection \<open>Encoding\<close>

definition ascii :: "string \<Rightarrow> byte list" where
  "ascii s = map of_char s"

definition Base64 :: "byte list" where
  "Base64 = ascii ''ABCDEFGHIJKLMNOPQRSTUVWXYZabcdefghijklmnopqrstuvwxyz0123456789+/''"

definition Base64url :: "byte list" where
  "Base64url = ascii ''ABCDEFGHIJKLMNOPQRSTUVWXYZabcdefghijklmnopqrstuvwxyz0123456789-_''"

definition Pad64 :: byte where "Pad64 = 0x3D"

definition outputs :: "byte \<Rightarrow> byte \<Rightarrow> byte \<Rightarrow> byte \<times> byte \<times> byte \<times> byte" where
  "outputs i0 i1 i2 =
    (drop_bit 2 i0,
     push_bit 4 (i0 AND 0x03) + drop_bit 4 i1,
     push_bit 2 (i1 AND 0x0f) + drop_bit 6 i2,
     i2 AND 0x3f)"

text \<open>The loop over full groups: an error, or what is left, the length and the buffer.\<close>

fun b64_enc_loop ::
  "byte list \<Rightarrow> byte list \<Rightarrow> nat \<Rightarrow> byte list \<Rightarrow> nat \<Rightarrow> byte list + byte list \<times> nat \<times> byte list" where
  "b64_enc_loop mp (i0 # i1 # i2 # src) datalength target targsize =
    (let (o0, o1, o2, o3) = outputs i0 i1 i2 in
     if datalength + 4 > targsize then Inl target
     else b64_enc_loop mp src (datalength + 4)
            (target[datalength := mp ! unat o0, datalength + 1 := mp ! unat o1,
                    datalength + 2 := mp ! unat o2, datalength + 3 := mp ! unat o3]) targsize)"
| "b64_enc_loop mp src datalength target targsize = Inr (src, datalength, target)"

definition b64_enc :: "byte list \<Rightarrow> byte list \<Rightarrow> nat \<Rightarrow> byte list \<Rightarrow> int \<times> byte list" where
  "b64_enc src target targsize mp =
    (case b64_enc_loop mp src 0 target targsize of
       Inl target \<Rightarrow> (-1, target)
     | Inr (src, datalength, target) \<Rightarrow>
        (let finish = (\<lambda>datalength target.
               if datalength \<ge> targsize then (-1, target)
               else (int datalength, target[datalength := 0]))
         in if src \<noteq> [] then
              (let i0 = src ! 0; i1 = (if length src = 1 then 0 else src ! 1);
                   (o0, o1, o2, o3) = outputs i0 i1 0
               in if datalength + 4 > targsize then (-1, target)
                  else finish (datalength + 4)
                         (target[datalength := mp ! unat o0, datalength + 1 := mp ! unat o1,
                                 datalength + 2 := (if length src = 1 then Pad64 else mp ! unat o2),
                                 datalength + 3 := Pad64]))
            else finish datalength target))"

definition b64_ntop :: "byte list \<Rightarrow> byte list \<Rightarrow> nat \<Rightarrow> int \<times> byte list" where
  "b64_ntop src target targsize = b64_enc src target targsize Base64"

definition base64url_encode :: "byte list \<Rightarrow> byte list \<Rightarrow> nat \<Rightarrow> int \<times> byte list" where
  "base64url_encode src target targsize = b64_enc src target targsize Base64url"

subsection \<open>Decoding\<close>

text \<open>\<^verbatim>\<open>isspace\<close> in the C locale.\<close>

definition is_space :: "byte \<Rightarrow> bool" where
  "is_space ch \<longleftrightarrow> ch = 0x20 \<or> 0x09 \<le> ch \<and> ch \<le> 0x0d"

text \<open>The position of a character that is not zero in a string.\<close>

primrec strchr_pos :: "byte list \<Rightarrow> byte \<Rightarrow> nat option" where
  "strchr_pos [] ch = None"
| "strchr_pos (c # s) ch = (if c = ch then Some 0 else map_option Suc (strchr_pos s ch))"

definition next_char :: "byte list \<Rightarrow> byte \<times> byte list" where
  "next_char src = (case src of [] \<Rightarrow> (0, []) | ch # src \<Rightarrow> (ch, src))"

text \<open>
  One character in the given state: the new state, index and buffer.  There is a check of the
  size and a write only if there is a buffer.
\<close>

definition pton_step ::
  "nat \<Rightarrow> nat \<Rightarrow> nat \<Rightarrow> byte list option \<Rightarrow> nat \<Rightarrow> (nat \<times> nat \<times> byte list option) option" where
  "pton_step pos state tarindex target targsize =
    (let v = of_nat pos :: byte in
     if state = 0 then
       (case target of
          None \<Rightarrow> Some (1, tarindex, None)
        | Some t \<Rightarrow> if tarindex \<ge> targsize then None
                   else Some (1, tarindex, Some (t[tarindex := push_bit 2 v])))
     else if state = 1 then
       (case target of
          None \<Rightarrow> Some (2, tarindex + 1, None)
        | Some t \<Rightarrow> if tarindex + 1 \<ge> targsize then None
                   else Some (2, tarindex + 1, Some (t[tarindex := (t ! tarindex) OR drop_bit 4 v,
                               tarindex + 1 := push_bit 4 (v AND 0x0f)])))
     else if state = 2 then
       (case target of
          None \<Rightarrow> Some (3, tarindex + 1, None)
        | Some t \<Rightarrow> if tarindex + 1 \<ge> targsize then None
                   else Some (3, tarindex + 1, Some (t[tarindex := (t ! tarindex) OR drop_bit 2 v,
                               tarindex + 1 := push_bit 6 (v AND 0x03)])))
     else
       (case target of
          None \<Rightarrow> Some (0, tarindex + 1, None)
        | Some t \<Rightarrow> if tarindex \<ge> targsize then None
                   else Some (0, tarindex + 1, Some (t[tarindex := (t ! tarindex) OR v]))))"

text \<open>
  The main loop: an error with the buffer it leaves, or the character it stopped at, the rest of
  the string, the state, the index and the buffer.
\<close>

fun pton_loop ::
  "byte list \<Rightarrow> nat \<Rightarrow> nat \<Rightarrow> byte list option \<Rightarrow> nat \<Rightarrow>
   byte list option + byte \<times> byte list \<times> nat \<times> nat \<times> byte list option" where
  "pton_loop [] state tarindex target targsize = Inr (0, [], state, tarindex, target)"
| "pton_loop (ch # src) state tarindex target targsize =
    (if ch = 0 then Inr (0, src, state, tarindex, target)
     else if is_space ch then pton_loop src state tarindex target targsize
     else if ch = Pad64 then Inr (Pad64, src, state, tarindex, target)
     else
       (case strchr_pos Base64 ch of
          None \<Rightarrow> Inl target
        | Some pos \<Rightarrow>
           (case pton_step pos state tarindex target targsize of
              None \<Rightarrow> Inl target
            | Some (state, tarindex, target) \<Rightarrow> pton_loop src state tarindex target targsize)))"

text \<open>The loops over white space: the first character that is not, and what follows it.\<close>

primrec skip_spaces :: "byte list \<Rightarrow> byte \<Rightarrow> byte \<times> byte list" where
  "skip_spaces [] ch = (if ch \<noteq> 0 \<and> is_space ch then (0, []) else (ch, []))"
| "skip_spaces (c # src) ch = (if ch \<noteq> 0 \<and> is_space ch then skip_spaces src c else (ch, c # src))"

definition b64_pton :: "byte list \<Rightarrow> byte list option \<Rightarrow> nat \<Rightarrow> int \<times> byte list option" where
  "b64_pton src target targsize =
    (case pton_loop src 0 0 target targsize of
       Inl target \<Rightarrow> (-1, target)
     | Inr (ch, src, state, tarindex, target) \<Rightarrow>
        if ch = Pad64 then
          (let (ch, src) = next_char src in
           if state = 0 \<or> state = 1 then (-1, target)
           else
             (case (if state = 2 then
                      (case skip_spaces src ch of
                         (ch, src) \<Rightarrow> if ch \<noteq> Pad64 then None else Some (next_char src))
                    else Some (ch, src)) of
                None \<Rightarrow> (-1, target)
              | Some (ch, src) \<Rightarrow>
                 if fst (skip_spaces src ch) \<noteq> 0 then (-1, target)
                 else if (case target of None \<Rightarrow> False | Some t \<Rightarrow> t ! tarindex \<noteq> 0) then (-1, target)
                 else (int tarindex, target)))
        else if state \<noteq> 0 then (-1, target)
        else (int tarindex, target))"

subsection \<open>The text of a list of bytes\<close>

text \<open>The encoding as a function, in three parts: full groups, what is left, and its text.\<close>

fun b64_full :: "byte list \<Rightarrow> byte list \<Rightarrow> byte list" where
  "b64_full mp (a # b # c # src) =
    (case outputs a b c of (o0, o1, o2, o3) \<Rightarrow>
       [mp ! unat o0, mp ! unat o1, mp ! unat o2, mp ! unat o3] @ b64_full mp src)"
| "b64_full mp src = []"

fun b64_rest :: "byte list \<Rightarrow> byte list" where
  "b64_rest (a # b # c # src) = b64_rest src"
| "b64_rest src = src"

definition b64_last :: "byte list \<Rightarrow> byte list \<Rightarrow> byte list" where
  "b64_last mp src =
    (case src of
       [a] \<Rightarrow> (case outputs a 0 0 of (o0, o1, _) \<Rightarrow> [mp ! unat o0, mp ! unat o1, Pad64, Pad64])
     | [a, b] \<Rightarrow> (case outputs a b 0 of (o0, o1, o2, _) \<Rightarrow> [mp ! unat o0, mp ! unat o1, mp ! unat o2, Pad64])
     | _ \<Rightarrow> [])"

definition b64_text :: "byte list \<Rightarrow> byte list \<Rightarrow> byte list" where
  "b64_text mp src = b64_full mp src @ b64_last mp (b64_rest src)"

lemma b64_rest_cases: "b64_rest src = [] \<or> (\<exists>a. b64_rest src = [a]) \<or> (\<exists>a b. b64_rest src = [a, b])"
  by (induction src rule: b64_rest.induct) auto

lemma div3_step: "length (a # b # c # src) div 3 = Suc (length src div 3)" "(3 + n) div 3 = Suc (n div 3)" "(n + 3) div 3 = Suc (n div 3)" for n :: nat
  by simp_all

lemma length_b64_full: "length (b64_full mp src) = 4 * (length src div 3)"
proof (induction mp src rule: b64_full.induct)
  case (1 mp a b c src)
  then show ?case by (simp add: outputs_def div3_step)
qed simp_all

lemma length_b64_rest: "length (b64_rest src) = length src mod 3"
  by (induction src rule: b64_rest.induct) (auto simp: mod_Suc)

lemma length_b64_last: "length (b64_last mp (b64_rest src)) = (if b64_rest src = [] then 0 else 4)"
  using b64_rest_cases [of src] by (auto simp: b64_last_def outputs_def)

lemma length_b64_text: "length (b64_text mp src) = 4 * ((length src + 2) div 3)"
proof -
  have "b64_rest src = [] \<longleftrightarrow> length src mod 3 = 0" using length_b64_rest [of src] by auto
  then show ?thesis
    unfolding b64_text_def length_append length_b64_full length_b64_last
    by (cases "length src mod 3 = 0") (simp, presburger, simp, presburger)
qed

text \<open>Writing a string into a buffer.\<close>

lemma write4:
  assumes "4 \<le> length v"
  shows "(u @ v)[length u := a, length u + 1 := b, length u + 2 := c, length u + 3 := d] = (u @ [a, b, c, d]) @ drop 4 v"
proof -
  obtain v0 v1 v2 v3 w where "v = v0 # v1 # v2 # v3 # w"
    using assms by (auto simp: numeral_eq_Suc Suc_le_length_iff)
  then show ?thesis by (simp add: list_update_append)
qed

lemma b64_enc_loop_text:
  assumes "targsize \<le> length (u @ v)" "length u + 4 * (length src div 3) \<le> targsize"
  shows "b64_enc_loop mp src (length u) (u @ v) targsize =
    Inr (b64_rest src, length (u @ b64_full mp src), (u @ b64_full mp src) @ drop (4 * (length src div 3)) v)"
  using assms
proof (induction mp src arbitrary: u v rule: b64_full.induct)
  case (1 mp a b c src)
  obtain o0 o1 o2 o3 where o: "outputs a b c = (o0, o1, o2, o3)" by (metis prod_cases4)
  let ?u = "u @ [mp ! unat o0, mp ! unat o1, mp ! unat o2, mp ! unat o3]"
  have room: "4 \<le> length v" "length u + 4 + 4 * (length src div 3) \<le> targsize"
    using "1.prems" unfolding div3_step by simp_all
  have four: "length ?u = length u + 4" by simp
  have "b64_enc_loop mp (a # b # c # src) (length u) (u @ v) targsize =
      b64_enc_loop mp src (length ?u) (?u @ drop 4 v) targsize"
    unfolding four using o room write4 [OF room(1), of u] by simp
  also have "\<dots> = Inr (b64_rest src, length (?u @ b64_full mp src),
      (?u @ b64_full mp src) @ drop (4 * (length src div 3)) (drop 4 v))"
    by (rule "1.IH" [OF o [symmetric] refl refl]) (use "1.prems" room in simp_all)
  finally show ?case by (simp add: o div3_step add.commute)
qed simp_all

text \<open>A buffer that is large enough gets the text and the terminating zero, and nothing else changes.\<close>

lemma b64_enc_text:
  assumes "targsize \<le> length target" "length (b64_text mp src) < targsize"
  shows "b64_enc src target targsize mp =
    (int (length (b64_text mp src)), b64_text mp src @ 0 # drop (length (b64_text mp src) + 1) target)"
proof -
  let ?n = "4 * (length src div 3)" and ?full = "b64_full mp src"
  define v where "v = drop ?n target"
  have full: "length ?full = ?n" by (rule length_b64_full)
  have tx: "length (b64_text mp src) = ?n + length (b64_last mp (b64_rest src))"
    by (simp add: b64_text_def full)
  have loop: "b64_enc_loop mp src 0 target targsize = Inr (b64_rest src, ?n, ?full @ v)"
    using b64_enc_loop_text [of targsize "[]" target src mp] assms tx full by (simp add: v_def)
  have room: "length (b64_last mp (b64_rest src)) < length v" using assms tx by (simp add: v_def)
  have shift: "drop (?n + k) target = drop k v" for k by (simp add: v_def add.commute)
  show ?thesis
  proof (cases "b64_rest src = []")
    case True
    then have last: "b64_last mp (b64_rest src) = []" by (simp add: b64_last_def)
    obtain w0 w where v: "v = w0 # w" using room by (cases v) auto
    show ?thesis
      using assms loop True tx last full shift [of 1]
      by (simp add: b64_enc_def b64_text_def v list_update_append)
  next
    case False
    define l where "l = b64_last mp (b64_rest src)"
    obtain a i1 o0 o1 o2 o3 where a: "b64_rest src ! 0 = a" "i1 = (if length (b64_rest src) = 1 then 0 else b64_rest src ! 1)"
      and o: "outputs a i1 0 = (o0, o1, o2, o3)" by (metis prod_cases4)
    have l: "l = [mp ! unat o0, mp ! unat o1, (if length (b64_rest src) = 1 then Pad64 else mp ! unat o2), Pad64]"
      using False b64_rest_cases [of src] a o by (auto simp: l_def b64_last_def)
    have len: "length l = 4" by (simp add: l)
    obtain w0 w where v: "drop 4 v = w0 # w" using room len unfolding l_def [symmetric] by (cases "drop 4 v") auto
    have w: "(?full @ v)[?n := mp ! unat o0, ?n + 1 := mp ! unat o1,
        ?n + 2 := (if length (b64_rest src) = 1 then Pad64 else mp ! unat o2), ?n + 3 := Pad64] = (?full @ l) @ drop 4 v"
      using write4 [of v ?full "mp ! unat o0"] room len unfolding full l_def [symmetric] l by simp
    have "b64_enc src target targsize mp = (int (?n + 4), ((?full @ l) @ drop 4 v)[?n + 4 := 0])"
      using assms(2) tx len False loop a o w unfolding l_def [symmetric] by (simp add: b64_enc_def Let_def)
    moreover have "((?full @ l) @ drop 4 v)[?n + 4 := 0] = (?full @ l) @ 0 # w"
      using list_update_length [of "?full @ l" w0 w 0] v full len by simp
    moreover have "w = drop 1 (drop 4 v)" by (simp add: v)
    then have "w = drop (?n + 4 + 1) target" by (simp add: v_def add.commute)
    ultimately show ?thesis by (simp add: b64_text_def l_def [symmetric] full len)
  qed
qed

text \<open>A buffer that is too small is an error, and no byte past the size is ever written.\<close>

lemma b64_enc_loop_bounds:
  "case b64_enc_loop mp src dl target targsize of
     Inl t \<Rightarrow> targsize < dl + 4 * (length src div 3) \<and> drop targsize t = drop targsize target
   | Inr (src', dl', t) \<Rightarrow> src' = b64_rest src \<and> dl' = dl + 4 * (length src div 3) \<and> drop targsize t = drop targsize target"
proof (induction mp src dl target targsize rule: b64_enc_loop.induct)
  case (1 mp a b c src dl target targsize)
  obtain o0 o1 o2 o3 where o: "outputs a b c = (o0, o1, o2, o3)" by (metis prod_cases4)
  show ?case
  proof (cases "dl + 4 > targsize")
    case True
    then show ?thesis using o by (simp add: div3_step)
  next
    case False
    from "1.IH" [OF o [symmetric] refl refl refl False] show ?thesis
      using o False by (auto simp: div3_step split: sum.splits prod.splits)
  qed
qed simp_all

lemma b64_enc_bounds:
  "drop targsize (snd (b64_enc src target targsize mp)) = drop targsize target"
  "targsize \<le> length (b64_text mp src) \<Longrightarrow> fst (b64_enc src target targsize mp) = -1"
proof -
  note loop = b64_enc_loop_bounds [where mp = mp and src = src and dl = 0 and target = target and targsize = targsize]
  have last: "length (b64_text mp src) = 4 * (length src div 3) + (if b64_rest src = [] then 0 else 4)"
    by (simp add: b64_text_def length_b64_full length_b64_last)
  show "drop targsize (snd (b64_enc src target targsize mp)) = drop targsize target"
    using loop by (auto simp: b64_enc_def outputs_def Let_def split: sum.splits)
  show "fst (b64_enc src target targsize mp) = -1" if "targsize \<le> length (b64_text mp src)"
    using loop that last by (auto simp: b64_enc_def outputs_def Let_def split: sum.splits)
qed

subsection \<open>Decoding what was encoded\<close>

lemma byte_masks: "(0x0f :: byte) = mask 4" "(0x03 :: byte) = mask 2" "(0x3f :: byte) = mask 6"
  by (simp_all add: mask_eq_exp_minus_1)
lemma byte_eqI:
  assumes "bit a 0 = bit b 0" "bit a 1 = bit b 1" "bit a 2 = bit b 2" "bit a 3 = bit b 3"
    "bit a 4 = bit b 4" "bit a 5 = bit b 5" "bit a 6 = bit b 6" "bit a 7 = bit b 7"
  shows "a = (b :: byte)"
proof (rule bit_word_eqI)
  fix n :: nat assume "n < LENGTH(8)"
  then have "n \<in> {0, 1, 2, 3, 4, 5, 6, 7}" by auto
  then show "bit a n = bit b n" using assms by auto
qed
lemma byte_bits: "8 \<le> n \<Longrightarrow> \<not> bit (a :: byte) n"
  using bit_imp_le_length [of a n] by auto
lemma sextet: "unat a < 64" if "a AND 0x3f = a" for a :: byte
proof -
  have "a AND 0x3f \<le> 0x3f" by (rule word_and_le1)
  then show ?thesis using that by (simp add: word_le_nat_alt)
qed

lemma outputs_eq:
  "outputs a b c = (drop_bit 2 a, push_bit 4 (a AND 0x03) OR drop_bit 4 b, push_bit 2 (b AND 0x0f) OR drop_bit 6 c, c AND 0x3f)"
proof -
  have "push_bit 4 (a AND 0x03) + drop_bit 4 b = push_bit 4 (a AND 0x03) OR drop_bit 4 b"
    by (rule disjunctive_add_eq_or) (rule byte_eqI; simp add: bit_simps byte_masks byte_bits)
  moreover have "push_bit 2 (b AND 0x0f) + drop_bit 6 c = push_bit 2 (b AND 0x0f) OR drop_bit 6 c"
    by (rule disjunctive_add_eq_or) (rule byte_eqI; simp add: bit_simps byte_masks byte_bits)
  ultimately show ?thesis by (simp add: outputs_def)
qed

lemma outputs_bits:
  assumes "outputs a b c = (o0, o1, o2, o3)"
  shows "unat o0 < 64" "unat o1 < 64" "unat o2 < 64" "unat o3 < 64"
    and "push_bit 2 o0 OR drop_bit 4 o1 = a" "push_bit 4 (o1 AND 0x0f) OR drop_bit 2 o2 = b"
    and "push_bit 6 (o2 AND 0x03) OR o3 = c"
    and "b = 0 \<Longrightarrow> push_bit 4 (o1 AND 0x0f) = 0" "c = 0 \<Longrightarrow> push_bit 6 (o2 AND 0x03) = 0"
proof -
  have eq: "o0 = drop_bit 2 a" "o1 = push_bit 4 (a AND 0x03) OR drop_bit 4 b"
    "o2 = push_bit 2 (b AND 0x0f) OR drop_bit 6 c" "o3 = c AND 0x3f"
    using assms by (simp_all add: outputs_eq)
  show "unat o0 < 64" "unat o1 < 64" "unat o2 < 64" "unat o3 < 64"
    by (rule sextet, rule byte_eqI; simp add: eq bit_simps byte_masks byte_bits)+
  show "push_bit 2 o0 OR drop_bit 4 o1 = a" "push_bit 4 (o1 AND 0x0f) OR drop_bit 2 o2 = b" "push_bit 6 (o2 AND 0x03) OR o3 = c"
    by (rule byte_eqI; simp add: eq bit_simps byte_masks byte_bits)+
  show "push_bit 4 (o1 AND 0x0f) = 0" if "b = 0"
    by (rule byte_eqI; simp add: eq that bit_simps byte_masks byte_bits)
  show "push_bit 6 (o2 AND 0x03) = 0" if "c = 0"
    by (rule byte_eqI; simp add: eq that bit_simps byte_masks byte_bits)
qed

text \<open>Every character of the alphabet is found at its place and is neither space nor padding.\<close>

lemma Base64_codes:
  "Base64 = [65, 66, 67, 68, 69, 70, 71, 72, 73, 74, 75, 76, 77, 78, 79, 80, 81, 82, 83, 84, 85, 86,
     87, 88, 89, 90, 97, 98, 99, 100, 101, 102, 103, 104, 105, 106, 107, 108, 109, 110, 111,
     112, 113, 114, 115, 116, 117, 118, 119, 120, 121, 122, 48, 49, 50, 51, 52, 53, 54, 55, 56,
     57, 43, 47]"
  by (simp add: Base64_def ascii_def)

lemma strchr_pos_nth: "distinct xs \<Longrightarrow> i < length xs \<Longrightarrow> strchr_pos xs (xs ! i) = Some i"
proof (induction xs arbitrary: i)
  case (Cons x xs)
  then show ?case by (cases i) auto
qed simp

lemma Base64_facts: "length Base64 = 64" "distinct Base64" "\<forall>ch \<in> set Base64. ch \<noteq> 0 \<and> \<not> is_space ch \<and> ch \<noteq> Pad64"
  by (simp_all add: Base64_codes is_space_def Pad64_def)

lemma alphabet:
  assumes "i < 64"
  shows "Base64 ! i \<noteq> 0" "\<not> is_space (Base64 ! i)" "Base64 ! i \<noteq> Pad64" "strchr_pos Base64 (Base64 ! i) = Some i"
  using assms Base64_facts nth_mem [of i Base64] by (auto intro: strchr_pos_nth)

lemma pton_loop_char:
  "i < 64 \<Longrightarrow> pton_loop (Base64 ! i # src) state ti t sz =
     (case pton_step i state ti t sz of None \<Rightarrow> Inl t | Some (state, ti, t) \<Rightarrow> pton_loop src state ti t sz)"
  by (simp add: alphabet)

text \<open>The characters of a group give back its bytes; of a short group, also a byte of zeros.\<close>

lemma pton_group:
  assumes o: "outputs a b c = (o0, o1, o2, o3)" and room: "length u + 3 \<le> sz"
  shows "pton_loop (Base64 ! unat o0 # Base64 ! unat o1 # Base64 ! unat o2 # Base64 ! unat o3 # src) 0 (length u)
      (Some (u @ x # y # z # v)) sz = pton_loop src 0 (length (u @ [a, b, c])) (Some ((u @ [a, b, c]) @ v)) sz"
proof -
  note bits = outputs_bits [OF o]
  show ?thesis
    using room bits(5-7)
    by (simp add: pton_loop_char bits(1-4) pton_step_def nth_append list_update_append Let_def del: pton_loop.simps)
qed

lemma pton_two:
  assumes o: "outputs a 0 0 = (o0, o1, o2, o3)" and room: "length u + 2 \<le> sz"
  shows "pton_loop (Base64 ! unat o0 # Base64 ! unat o1 # Pad64 # src) 0 (length u) (Some (u @ x # y # v)) sz =
    Inr (Pad64, src, 2, length u + 1, Some (u @ a # 0 # v))"
proof -
  note bits = outputs_bits [OF o]
  show ?thesis
    using room bits(5) bits(8)
    by (simp add: pton_loop_char bits(1,2) pton_step_def nth_append list_update_append Let_def del: pton_loop.simps)
      (simp add: Pad64_def is_space_def)
qed

lemma pton_three:
  assumes o: "outputs a b 0 = (o0, o1, o2, o3)" and room: "length u + 3 \<le> sz"
  shows "pton_loop (Base64 ! unat o0 # Base64 ! unat o1 # Base64 ! unat o2 # Pad64 # src) 0 (length u)
    (Some (u @ x # y # z # v)) sz = Inr (Pad64, src, 3, length u + 2, Some (u @ a # b # 0 # v))"
proof -
  note bits = outputs_bits [OF o]
  show ?thesis
    using room bits(5,6) bits(9)
    by (simp add: pton_loop_char bits(1-3) pton_step_def nth_append list_update_append Let_def del: pton_loop.simps)
      (simp add: Pad64_def is_space_def)
qed

fun b64_prefix :: "byte list \<Rightarrow> byte list" where
  "b64_prefix (a # b # c # src) = a # b # c # b64_prefix src"
| "b64_prefix src = []"

lemma b64_prefix_rest: "b64_prefix src @ b64_rest src = src"
  by (induction src rule: b64_prefix.induct) auto

lemma pton_full:
  assumes "sz \<le> length (u @ v)" "length (u @ b64_prefix src) \<le> sz"
  shows "pton_loop (b64_full Base64 src @ rest) 0 (length u) (Some (u @ v)) sz =
    pton_loop rest 0 (length (u @ b64_prefix src)) (Some ((u @ b64_prefix src) @ drop (length (b64_prefix src)) v)) sz"
  using assms
proof (induction src arbitrary: u v rule: b64_prefix.induct)
  case (1 a b c src)
  obtain o0 o1 o2 o3 where o: "outputs a b c = (o0, o1, o2, o3)" by (metis prod_cases4)
  have room: "length u + 3 \<le> sz" "3 \<le> length v" using "1.prems" by simp_all
  obtain x y z w where v: "v = x # y # z # w"
    using room(2) by (auto simp: numeral_eq_Suc Suc_le_length_iff)
  have "pton_loop (b64_full Base64 (a # b # c # src) @ rest) 0 (length u) (Some (u @ v)) sz =
      pton_loop (b64_full Base64 src @ rest) 0 (length (u @ [a, b, c])) (Some ((u @ [a, b, c]) @ w)) sz"
    using pton_group [OF o room(1)] by (simp add: o v)
  also have "\<dots> = pton_loop rest 0 (length ((u @ [a, b, c]) @ b64_prefix src))
      (Some (((u @ [a, b, c]) @ b64_prefix src) @ drop (length (b64_prefix src)) w)) sz"
    by (rule "1.IH") (use "1.prems" v in simp_all)
  finally show ?case by (simp add: v)
qed simp_all

text \<open>
  The decoder on the text of a list of bytes that ends a C string.  A short last group makes it
  write one byte of zeros after the data, so it needs room for that.
\<close>

lemma skip_spaces_zero: "skip_spaces src 0 = (0, src)"
  by (cases src) simp_all

lemma b64_pton_text:
  assumes "sz \<le> length buf" "length src + (if length src mod 3 = 0 then 0 else 1) \<le> sz"
  shows "\<exists>w. b64_pton (b64_text Base64 src @ 0 # junk) (Some buf) sz = (int (length src), Some (src @ w))"
proof -
  define u where "u = b64_prefix src"
  define v where "v = drop (length u) buf"
  have src: "src = u @ b64_rest src" by (simp add: u_def b64_prefix_rest)
  have len: "length src = length u + length (b64_rest src)" using src by (metis length_append)
  have mod3: "length src mod 3 = 0 \<longleftrightarrow> b64_rest src = []" using length_b64_rest [of src] by auto
  have full: "pton_loop (b64_text Base64 src @ 0 # junk) 0 0 (Some buf) sz =
      pton_loop (b64_last Base64 (b64_rest src) @ 0 # junk) 0 (length u) (Some (u @ v)) sz"
    using pton_full [of sz "[]" buf src] assms len by (simp add: b64_text_def u_def v_def)
  have pad: "Pad64 \<noteq> 0" "\<not> is_space Pad64" by (simp_all add: Pad64_def is_space_def)
  consider "b64_rest src = []" | a where "b64_rest src = [a]" | a b where "b64_rest src = [a, b]"
    using b64_rest_cases by blast
  then show ?thesis
  proof cases
    case 1
    then show ?thesis using full src len pad by (simp add: b64_pton_def b64_last_def)
  next
    case (2 a)
    obtain o0 o1 o2 o3 where o: "outputs a 0 0 = (o0, o1, o2, o3)" by (metis prod_cases4)
    have room: "length u + 2 \<le> sz" using assms(2) len mod3 2 by (simp split: if_splits)
    then have "2 \<le> length v" using assms(1) by (simp add: v_def)
    then obtain x y w where v: "v = x # y # w" by (auto simp: numeral_eq_Suc Suc_le_length_iff)
    have "b64_pton (b64_text Base64 src @ 0 # junk) (Some buf) sz = (int (length u + 1), Some (u @ a # 0 # w))"
      using full pton_two [OF o room] 2 pad by (simp add: b64_pton_def b64_last_def o v next_char_def nth_append skip_spaces_zero)
    moreover have "int (length src) = int (length u + 1)" "src @ 0 # w = u @ a # 0 # w" using len src 2 by simp_all
    ultimately show ?thesis by metis
  next
    case (3 a b)
    obtain o0 o1 o2 o3 where o: "outputs a b 0 = (o0, o1, o2, o3)" by (metis prod_cases4)
    have room: "length u + 3 \<le> sz" using assms(2) len mod3 3 by (simp split: if_splits)
    then have "3 \<le> length v" using assms(1) by (simp add: v_def)
    then obtain x y z w where v: "v = x # y # z # w" by (auto simp: numeral_eq_Suc Suc_le_length_iff)
    have "b64_pton (b64_text Base64 src @ 0 # junk) (Some buf) sz = (int (length u + 2), Some (u @ a # b # 0 # w))"
      using full pton_three [OF o room] 3 pad by (simp add: b64_pton_def b64_last_def o v next_char_def nth_append skip_spaces_zero)
    moreover have "int (length src) = int (length u + 2)" "src @ 0 # w = u @ a # b # 0 # w" using len src 3 by simp_all
    ultimately show ?thesis by metis
  qed
qed

lemma pton_step_bounds:
  "pton_step pos state ti (Some t) sz = Some (state', ti', t') \<Longrightarrow>
     \<exists>t1. t' = Some t1 \<and> drop sz t1 = drop sz t \<and> ti' \<le> sz"
  by (auto simp: pton_step_def Let_def split: if_splits)

lemma pton_loop_bounds:
  "ti \<le> sz \<Longrightarrow> case pton_loop src state ti (Some t) sz of
     Inl t' \<Rightarrow> \<exists>t1. t' = Some t1 \<and> drop sz t1 = drop sz t
   | Inr (ch, src', state', ti', t') \<Rightarrow> \<exists>t1. t' = Some t1 \<and> drop sz t1 = drop sz t \<and> ti' \<le> sz"
proof (induction src arbitrary: state ti t)
  case (Cons ch src)
  show ?case
  proof (cases "ch = 0 \<or> is_space ch \<or> ch = Pad64 \<or> strchr_pos Base64 ch = None")
    case True
    then show ?thesis using Cons.IH [OF Cons.prems] Cons.prems by auto
  next
    case False
    then obtain pos where pos: "strchr_pos Base64 ch = Some pos" by auto
    show ?thesis
    proof (cases "pton_step pos state ti (Some t) sz")
      case None
      then show ?thesis using False pos by simp
    next
      case (Some r)
      then obtain state' ti' t' where r: "pton_step pos state ti (Some t) sz = Some (state', ti', t')"
        by (metis prod_cases3)
      then obtain t1 where t1: "t' = Some t1" "drop sz t1 = drop sz t" "ti' \<le> sz" using pton_step_bounds by blast
      show ?thesis using Cons.IH [OF t1(3), where state = state' and t = t1, unfolded t1(2)] False pos r t1(1) by simp
    qed
  qed
qed simp

lemma b64_pton_bounds:
  "\<exists>r t. b64_pton src (Some buf) sz = (r, Some t) \<and> drop sz t = drop sz buf \<and> -1 \<le> r \<and> r \<le> int sz"
proof -
  have "case pton_loop src 0 0 (Some buf) sz of
     Inl t' \<Rightarrow> \<exists>t1. t' = Some t1 \<and> drop sz t1 = drop sz buf
   | Inr (ch, src', state', ti', t') \<Rightarrow> \<exists>t1. t' = Some t1 \<and> drop sz t1 = drop sz buf \<and> ti' \<le> sz"
    by (rule pton_loop_bounds) simp
  then show ?thesis
    by (cases "pton_loop src 0 0 (Some buf) sz") (auto simp: b64_pton_def split: prod.split option.split)
qed

subsection \<open>Properties\<close>

text \<open>C20: what \<^verbatim>\<open>b64_ntop\<close> writes into a buffer with room for the text and its terminating zero,
  \<^verbatim>\<open>b64_pton\<close> turns back into the same bytes, in a buffer with room for them and, if their number
  is not a multiple of three, one more byte.\<close>

theorem base64_roundtrip:
  assumes "targsize \<le> length target" "4 * ((length src + 2) div 3) < targsize"
    and "bufsize \<le> length buf" "length src + (if length src mod 3 = 0 then 0 else 1) \<le> bufsize"
  shows "\<exists>n str out. b64_ntop src target targsize = (int n, str) \<and> n = 4 * ((length src + 2) div 3)
    \<and> b64_pton str (Some buf) bufsize = (int (length src), Some out) \<and> take (length src) out = src"
proof -
  have fits: "length (b64_text Base64 src) < targsize" using assms(2) by (simp add: length_b64_text)
  obtain w where "b64_pton (b64_text Base64 src @ 0 # drop (length (b64_text Base64 src) + 1) target) (Some buf) bufsize =
      (int (length src), Some (src @ w))"
    using b64_pton_text [OF assms(3,4)] by blast
  then show ?thesis
    using b64_enc_text [OF assms(1) fits] by (auto simp: b64_ntop_def length_b64_text)
qed

theorem base64_roundtrip_witness:
  "\<exists>n str out. b64_ntop [71, 78] (replicate 8 0) 8 = (int n, str) \<and> n = 4
   \<and> b64_pton str (Some (replicate 3 0)) 3 = (2, Some out) \<and> take 2 out = [71, 78]"
  using base64_roundtrip [of 8 "replicate 8 0" "[71, 78]" 3 "replicate 3 0"] by (simp add: numeral_2_eq_2)

text \<open>C37: neither direction writes at or past the size it is given, whatever the input; encoding
  fails exactly if the text and its terminating zero do not fit, and decoding gives a number of
  bytes that is at most the size.\<close>

theorem base64_bounds:
  assumes "targsize \<le> length target"
  shows "drop targsize (snd (b64_ntop src target targsize)) = drop targsize target
    \<and> (fst (b64_ntop src target targsize) = -1 \<longleftrightarrow> targsize \<le> 4 * ((length src + 2) div 3))
    \<and> drop targsize (snd (base64url_encode src target targsize)) = drop targsize target
    \<and> (\<exists>r out. b64_pton str (Some target) targsize = (r, Some out) \<and> drop targsize out = drop targsize target
         \<and> -1 \<le> r \<and> r \<le> int targsize)"
proof -
  have "fst (b64_ntop src target targsize) = -1 \<longleftrightarrow> targsize \<le> length (b64_text Base64 src)"
    using b64_enc_bounds(2) [of targsize Base64 src target] b64_enc_text [OF assms, of Base64 src]
    by (cases "targsize \<le> length (b64_text Base64 src)") (simp_all add: b64_ntop_def)
  then show ?thesis
    using b64_enc_bounds(1) b64_pton_bounds [of str target targsize]
    by (simp add: b64_ntop_def base64url_encode_def length_b64_text)
qed

theorem base64_bounds_witness:
  "fst (b64_ntop [71, 78, 83] [9, 9, 9, 9, 9, 7] 4) = -1
   \<and> drop 4 (snd (b64_ntop [71, 78, 83] [9, 9, 9, 9, 9, 7] 4)) = [9, 7]"
  using base64_bounds [of 4 "[9, 9, 9, 9, 9, 7]" "[71, 78, 83]" "[]"] by simp

end
