(* ===== verification/Nfs4_Lease.thy ===== *)
theory Nfs4_Lease
  imports Ganesha_Prelude
begin

text \<open>
  The lease of an NFSv4 client, \<^verbatim>\<open>SAL/nfs4_lease.c\<close>.  The record is the part of
  \<^verbatim>\<open>nfs_client_id_t\<close> that the lease functions and the stateid functions read; the lifetime of a
  lease is the configuration value \<^verbatim>\<open>lease_lifetime\<close>, and what \<^verbatim>\<open>time\<close> returns is an argument.
\<close>

subsection \<open>Client records\<close>

datatype nfs_clientid_confirm_state_t =
    UNCONFIRMED_CLIENT_ID | CONFIRMED_CLIENT_ID | EXPIRED_CLIENT_ID | STALE_CLIENT_ID

record nfs_client_id_t =
  cid_clientid :: uint64
  cid_last_renew :: int
  cid_confirmed :: nfs_clientid_confirm_state_t
  cid_refcount :: int
  cid_lease_reservations :: int
  cid_stateid_counter :: uint32

subsection \<open>Operations\<close>

text \<open>\<^verbatim>\<open>_valid_lease\<close>: the remaining seconds, as an \<^verbatim>\<open>unsigned int\<close>.\<close>

definition valid_lease_seconds :: "uint32 \<Rightarrow> int \<Rightarrow> nfs_client_id_t \<Rightarrow> uint32" where
  "valid_lease_seconds lifetime t c =
    (if cid_confirmed c = EXPIRED_CLIENT_ID then 0
     else if cid_lease_reservations c \<noteq> 0 then lifetime
     else if cid_last_renew c + uint lifetime > t
     then word_of_int (cid_last_renew c + uint lifetime - t)
     else 0)"

definition valid_lease :: "uint32 \<Rightarrow> int \<Rightarrow> nfs_client_id_t \<Rightarrow> bool" where
  "valid_lease lifetime t c \<longleftrightarrow> valid_lease_seconds lifetime t c \<noteq> 0"

definition reserve_lease :: "uint32 \<Rightarrow> int \<Rightarrow> nfs_client_id_t \<Rightarrow> bool \<times> nfs_client_id_t" where
  "reserve_lease lifetime t c =
    (let valid = valid_lease_seconds lifetime t c;
         c = (if valid \<noteq> 0 then c\<lparr>cid_lease_reservations := cid_lease_reservations c + 1\<rparr> else c)
     in (valid \<noteq> 0, c))"

definition update_lease :: "int \<Rightarrow> nfs_client_id_t \<Rightarrow> nfs_client_id_t" where
  "update_lease t c =
    (let c = c\<lparr>cid_lease_reservations := cid_lease_reservations c - 1\<rparr>
     in if cid_lease_reservations c = 0 then c\<lparr>cid_last_renew := t\<rparr> else c)"

subsection \<open>Remaining time\<close>

lemma uint_small: "0 \<le> x \<Longrightarrow> x < 2 ^ 32 \<Longrightarrow> uint (word_of_int x :: uint32) = x"
  by (simp add: uint_word_of_int take_bit_eq_mod)

lemma valid_lease_iff:
  assumes "cid_last_renew c \<le> t"
  shows "valid_lease lifetime t c \<longleftrightarrow>
    cid_confirmed c \<noteq> EXPIRED_CLIENT_ID
    \<and> (if cid_lease_reservations c \<noteq> 0 then lifetime \<noteq> 0 else t < cid_last_renew c + uint lifetime)"
proof -
  have "(word_of_int (cid_last_renew c + uint lifetime - t) :: uint32) \<noteq> 0"
    if "cid_last_renew c + uint lifetime > t"
  proof -
    have "0 < cid_last_renew c + uint lifetime - t" "cid_last_renew c + uint lifetime - t < 2 ^ 32"
      using that assms uint_lt2p [of lifetime] by simp_all
    then show ?thesis
      using uint_small [of "cid_last_renew c + uint lifetime - t"] by (metis less_irrefl less_imp_le uint_0_eq)
  qed
  then show ?thesis by (auto simp: valid_lease_def valid_lease_seconds_def)
qed

lemma reserve_lease_valid: "fst (reserve_lease lifetime t c) = valid_lease lifetime t c"
  by (simp add: reserve_lease_def valid_lease_def Let_def)

subsection \<open>Runs\<close>

text \<open>
  What requests do to a lease over time: a compound reserves it, if it is valid, and releases the
  reservation when it ends.  A run is a list of these events with their times.
\<close>

datatype lease_event = Reserve int | Release int

primrec event_time :: "lease_event \<Rightarrow> int" where
  "event_time (Reserve t) = t"
| "event_time (Release t) = t"

primrec lease_do :: "uint32 \<Rightarrow> lease_event \<Rightarrow> nfs_client_id_t \<Rightarrow> nfs_client_id_t" where
  "lease_do lifetime (Reserve t) c = snd (reserve_lease lifetime t c)"
| "lease_do lifetime (Release t) c = update_lease t c"

definition lease_run :: "uint32 \<Rightarrow> lease_event list \<Rightarrow> nfs_client_id_t \<Rightarrow> nfs_client_id_t" where
  "lease_run lifetime es c = fold (lease_do lifetime) es c"

text \<open>Every release in the run gives back a reservation that was made.\<close>

fun releases_matched :: "uint32 \<Rightarrow> lease_event list \<Rightarrow> nfs_client_id_t \<Rightarrow> bool" where
  "releases_matched lifetime [] c \<longleftrightarrow> True"
| "releases_matched lifetime (e # es) c \<longleftrightarrow>
    (case e of Reserve t \<Rightarrow> True | Release t \<Rightarrow> cid_lease_reservations c > 0)
    \<and> releases_matched lifetime es (lease_do lifetime e c)"

text \<open>Whenever the clock is read it has not gone back.\<close>

definition clock_monotone :: "int \<Rightarrow> lease_event list \<Rightarrow> int \<Rightarrow> bool" where
  "clock_monotone t0 es t \<longleftrightarrow> sorted (t0 # List.map event_time es @ [t])"

lemma lease_do_frame [simp]:
  "cid_confirmed (lease_do lifetime e c) = cid_confirmed c"
  "cid_clientid (lease_do lifetime e c) = cid_clientid c"
  by (cases e; simp add: reserve_lease_def update_lease_def Let_def)+

lemma lease_run_Cons [simp]: "lease_run lifetime (e # es) c = lease_run lifetime es (lease_do lifetime e c)"
  by (simp add: lease_run_def)

lemma lease_run_Nil [simp]: "lease_run lifetime [] c = c"
  by (simp add: lease_run_def)

lemma lease_run_confirmed [simp]: "cid_confirmed (lease_run lifetime es c) = cid_confirmed c"
  by (induction es arbitrary: c) simp_all

lemma lease_do_cases:
  assumes "cid_lease_reservations c \<ge> 0" "case e of Reserve t \<Rightarrow> True | Release t \<Rightarrow> cid_lease_reservations c > 0"
  shows "cid_lease_reservations (lease_do lifetime e c) \<ge> 0"
    and "cid_last_renew (lease_do lifetime e c) \<in> {cid_last_renew c, event_time e}"
  using assms by (cases e; simp add: reserve_lease_def update_lease_def Let_def split: if_splits)+

lemma lease_run_inv:
  assumes "cid_lease_reservations c \<ge> 0" "cid_last_renew c \<le> t0" "clock_monotone t0 es t"
    "releases_matched lifetime es c"
  shows "cid_lease_reservations (lease_run lifetime es c) \<ge> 0 \<and> cid_last_renew (lease_run lifetime es c) \<le> t
    \<and> cid_last_renew c \<le> cid_last_renew (lease_run lifetime es c)"
  using assms
proof (induction es arbitrary: c t0)
  case Nil
  then show ?case by (simp add: clock_monotone_def)
next
  case (Cons e es)
  let ?c = "lease_do lifetime e c"
  note step = lease_do_cases [of c e lifetime, OF Cons.prems(1)]
  have "cid_lease_reservations ?c \<ge> 0" "cid_last_renew ?c \<le> event_time e" "cid_last_renew c \<le> cid_last_renew ?c"
    using Cons.prems step by (auto simp: clock_monotone_def)
  moreover have "clock_monotone (event_time e) es t"
    using Cons.prems(3) by (simp add: clock_monotone_def)
  ultimately show ?case using Cons.IH [of ?c "event_time e"] Cons.prems(4) by auto
qed

subsection \<open>Properties\<close>

text \<open>C25: a lease that some request has reserved is valid at any later time, however long the request
  takes, and when the last reservation is released the lease is valid from then on for exactly
  the configured lifetime; this holds after any run of reservations and releases.\<close>

theorem lease_kept_while_reserved:
  assumes "cid_confirmed c \<noteq> EXPIRED_CLIENT_ID" "lifetime \<noteq> 0" "cid_lease_reservations c = 0"
    "cid_last_renew c \<le> t0" "clock_monotone t0 es t1" "releases_matched lifetime es c" "t1 \<le> t"
  defines "c' \<equiv> lease_run lifetime es c"
  shows "(cid_lease_reservations c' > 0 \<longrightarrow> valid_lease lifetime t c')
    \<and> (cid_lease_reservations c' = 1 \<longrightarrow> (valid_lease lifetime t (update_lease t1 c') \<longleftrightarrow> t < t1 + uint lifetime))"
proof -
  have "cid_last_renew c' \<le> t" "cid_confirmed c' \<noteq> EXPIRED_CLIENT_ID"
    using lease_run_inv [OF _ assms(4-6)] assms(1,3,7) by (simp_all add: c'_def)
  with assms(2,7) show ?thesis
    by (auto simp: valid_lease_iff update_lease_def)
qed

theorem lease_kept_while_reserved_witness:
  "\<exists>c. valid_lease 60 1000 (lease_run 60 [Reserve 5, Reserve 6, Release 7] c)
    \<and> valid_lease 60 100 (update_lease 50 (lease_run 60 [Reserve 5, Reserve 6, Release 7] c))
    \<and> \<not> valid_lease 60 110 (update_lease 50 (lease_run 60 [Reserve 5, Reserve 6, Release 7] c))"
proof (intro exI)
  let ?c = "\<lparr>cid_clientid = 1, cid_last_renew = 0, cid_confirmed = CONFIRMED_CLIENT_ID, cid_refcount = 1,
    cid_lease_reservations = 0, cid_stateid_counter = 0\<rparr>"
  let ?r = "lease_run 60 [Reserve 5, Reserve 6, Release 7] ?c"
  have r: "cid_lease_reservations ?r = 1"
    by (simp add: reserve_lease_def update_lease_def valid_lease_seconds_def Let_def)
  have k: "clock_monotone 0 [Reserve 5, Reserve 6, Release 7] 50"
    "releases_matched 60 [Reserve 5, Reserve 6, Release 7] ?c"
    by (simp_all add: clock_monotone_def reserve_lease_def valid_lease_seconds_def Let_def)
  note use = lease_kept_while_reserved [of ?c 60 0, OF _ _ _ _ k]
  show "valid_lease 60 1000 ?r \<and> valid_lease 60 100 (update_lease 50 ?r)
      \<and> \<not> valid_lease 60 110 (update_lease 50 ?r)"
    using use [of 1000] use [of 100] use [of 110] unfolding r by simp
qed

end
