(* ===== verification/State_Table.thy ===== *)
theory State_Table
  imports Status_Codes Lock_Owner Nfs4_Lease
begin

text \<open>
  The NFSv4 states (opens, locks, delegations, layouts), \<^verbatim>\<open>SAL/nfs4_state.c\<close>, and the two tables that
  index them, \<^verbatim>\<open>SAL/nfs4_state_id.c\<close>.  A \<^verbatim>\<open>state_t\<close> is an address into the heap \<open>st\<close>; so are files,
  exports, owners and client records.  A \<^verbatim>\<open>glist\<close> is the list of the addresses on it, and taking a
  node off takes it off the list it is on.

  The twelve bytes \<^verbatim>\<open>other\<close> of a stateid are the 64-bit clientid and the 32-bit counter they are
  copied from.  The table \<^verbatim>\<open>ht_state_id\<close> is a map from these, \<^verbatim>\<open>ht_state_obj\<close> the list of the states in it,
  searched with the comparison function the table is created with.  The operations of a file
  system back end (\<^verbatim>\<open>handle_digest\<close>, \<^verbatim>\<open>create_handle\<close>, \<^verbatim>\<open>close2\<close>, \<^verbatim>\<open>support_ex\<close>) are function pointers in
  the source and fields of \<open>sal_env\<close> here, on a back end state of their own.
\<close>

subsection \<open>States\<close>

datatype state_type =
    STATE_TYPE_NONE | STATE_TYPE_SHARE | STATE_TYPE_DELEG | STATE_TYPE_LOCK | STATE_TYPE_LAYOUT
  | STATE_TYPE_NLM_LOCK | STATE_TYPE_NLM_SHARE | STATE_TYPE_9P_FID

datatype open_delegation_type4 =
  OPEN_DELEGATE_NONE | OPEN_DELEGATE_READ | OPEN_DELEGATE_WRITE | OPEN_DELEGATE_NONE_EXT

record state_share =
  share_access :: uint32
  share_deny :: uint32
  share_access_prev :: uint32
  share_deny_prev :: uint32

text \<open>The union \<^verbatim>\<open>state_data\<close>.\<close>

datatype state_data_t =
    Share_data state_share
  | Lock_data nat
  | Deleg_data open_delegation_type4
  | Layout_data

text \<open>The session, sequence and slot of the NFSv4.1 request that created a state.\<close>

record state_refer =
  session :: "byte list"
  sequence :: uint32
  slot :: uint32

type_synonym stateid_other_t = "uint64 \<times> uint32"

record state_t =
  state_export :: "nat option"
  state_owner :: "nat option"
  state_obj :: "byte list"
  state_data :: state_data_t
  state_type :: state_type
  state_seqid :: uint32
  state_refcount :: int
  stateid_other :: stateid_other_t
  state_refer :: "state_refer option"

record sal_share_t =
  share_access_read :: uint32
  share_access_write :: uint32
  share_deny_read :: uint32
  share_deny_write :: uint32
  share_deny_write_v4 :: uint32

record state_file =
  list_of_states :: "nat list"
  share_state :: sal_share_t
  write_delegated :: bool
  anon_ops :: uint32

record stateid4 =
  sid_seqid :: uint32
  sid_other :: stateid_other_t

text \<open>The part of an answer that is the same for the operations modelled: its number, the status, a stateid.\<close>

record nfs_resop4 =
  resop :: nat
  resp_status :: nfsstat4
  resp_stateid :: stateid4

text \<open>\<open>so_argop\<close>, \<open>so_last_entry\<close> and \<open>so_resp\<close> are the operation, the file and the answer saved for a repeated request.\<close>

record state_nfs4_owner_t =
  so_clientrec :: nat
  so_seqid :: uint32
  so_argop :: nat
  so_last_entry :: "nat option"
  so_resp :: nfs_resop4
  so_state_list :: "nat list"
  so_lock_list :: "nat list"
  cache_expire :: int
  so_refcount :: int

record 'fs sal =
  st :: "nat \<Rightarrow> state_t"
  allocated :: "nat \<Rightarrow> bool"
  next_state :: nat
  ht_state_id :: "stateid_other_t \<Rightarrow> nat option"
  ht_state_obj :: "nat list"
  files :: "nat \<Rightarrow> state_file"
  nfs4_owners :: "nat \<Rightarrow> state_nfs4_owner_t"
  clients :: "nat \<Rightarrow> nfs_client_id_t"
  exp_state_list :: "nat \<Rightarrow> nat list"
  share_lockstates :: "nat \<Rightarrow> nat list"
  cached_open_owners :: "nat list"
  exp_refcount :: "nat \<Rightarrow> int"
  obj_refcount :: "nat \<Rightarrow> int"
  clock :: int
  fsal :: 'fs

record 'fs sal_env =
  own_env :: owner_env
  lease_lifetime :: uint32
  export_ready :: "nat \<Rightarrow> bool"
  support_ex :: "nat \<Rightarrow> bool"
  handle_digest :: "nat \<Rightarrow> byte list"
  create_handle :: "nat \<Rightarrow> byte list \<Rightarrow> 'fs \<Rightarrow> nat option \<times> 'fs"
  close2 :: "nat \<Rightarrow> nat \<Rightarrow> 'fs \<Rightarrow> 'fs"

subsection \<open>Parts of the state\<close>

definition upd_st :: "nat \<Rightarrow> (state_t \<Rightarrow> state_t) \<Rightarrow> 'fs sal \<Rightarrow> 'fs sal" where
  "upd_st a f s = s\<lparr>st := (st s)(a := f (st s a))\<rparr>"

definition upd_file :: "nat \<Rightarrow> (state_file \<Rightarrow> state_file) \<Rightarrow> 'fs sal \<Rightarrow> 'fs sal" where
  "upd_file obj f s = s\<lparr>files := (files s)(obj := f (files s obj))\<rparr>"

definition upd_owner :: "nat \<Rightarrow> (state_nfs4_owner_t \<Rightarrow> state_nfs4_owner_t) \<Rightarrow> 'fs sal \<Rightarrow> 'fs sal" where
  "upd_owner w f s = s\<lparr>nfs4_owners := (nfs4_owners s)(w := f (nfs4_owners s w))\<rparr>"

definition upd_client :: "nat \<Rightarrow> (nfs_client_id_t \<Rightarrow> nfs_client_id_t) \<Rightarrow> 'fs sal \<Rightarrow> 'fs sal" where
  "upd_client c f s = s\<lparr>clients := (clients s)(c := f (clients s c))\<rparr>"

definition add_exp_ref :: "nat \<Rightarrow> int \<Rightarrow> 'fs sal \<Rightarrow> 'fs sal" where
  "add_exp_ref e n s = s\<lparr>exp_refcount := (exp_refcount s)(e := exp_refcount s e + n)\<rparr>"

definition add_obj_ref :: "nat \<Rightarrow> int \<Rightarrow> 'fs sal \<Rightarrow> 'fs sal" where
  "add_obj_ref obj n s = s\<lparr>obj_refcount := (obj_refcount s)(obj := obj_refcount s obj + n)\<rparr>"

definition add_owner_ref :: "nat \<Rightarrow> int \<Rightarrow> 'fs sal \<Rightarrow> 'fs sal" where
  "add_owner_ref w n s = upd_owner w (\<lambda>x. x\<lparr>so_refcount := so_refcount x + n\<rparr>) s"

definition inc_state_t_ref :: "nat \<Rightarrow> 'fs sal \<Rightarrow> 'fs sal" where
  "inc_state_t_ref a s = upd_st a (\<lambda>x. x\<lparr>state_refcount := state_refcount x + 1\<rparr>) s"

definition free_state :: "nat \<Rightarrow> 'fs sal \<Rightarrow> 'fs sal" where
  "free_state a s = s\<lparr>allocated := (allocated s)(a := False)\<rparr>"

definition dec_nfs4_state_ref :: "nat \<Rightarrow> 'fs sal \<Rightarrow> 'fs sal" where
  "dec_nfs4_state_ref a s =
    (let s = upd_st a (\<lambda>x. x\<lparr>state_refcount := state_refcount x - 1\<rparr>) s
     in if state_refcount (st s a) > 0 then s else free_state a s)"

definition empty_state :: state_t where
  "empty_state = \<lparr>state_export = None, state_owner = None, state_obj = [], state_data = Layout_data,
     state_type = STATE_TYPE_NONE, state_seqid = 0, state_refcount = 0, stateid_other = (0, 0),
     state_refer = None\<rparr>"

definition alloc_state :: "'fs sal \<Rightarrow> nat \<times> 'fs sal" where
  "alloc_state s =
    (next_state s, s\<lparr>st := (st s)(next_state s := empty_state),
       allocated := (allocated s)(next_state s := True), next_state := next_state s + 1\<rparr>)"

subsection \<open>The tables\<close>

definition nfs4_BuildStateId_Other :: "nat \<Rightarrow> 'fs sal \<Rightarrow> stateid_other_t \<times> 'fs sal" where
  "nfs4_BuildStateId_Other c s =
    (let s = upd_client c (\<lambda>x. x\<lparr>cid_stateid_counter := cid_stateid_counter x + 1\<rparr>) s
     in ((cid_clientid (clients s c), cid_stateid_counter (clients s c)), s))"

text \<open>The digests are in zeroed buffers of 58 bytes; the length is that of the first one.\<close>

definition compare_state_obj ::
  "'fs sal_env \<Rightarrow> byte list \<Rightarrow> nat option \<Rightarrow> byte list \<Rightarrow> nat option \<Rightarrow> bool" where
  "compare_state_obj env digest1 owner1 digest2 owner2 =
    (if take (length digest1) (digest2 @ replicate 58 0) \<noteq> digest1 then True
     else compare_nfs4_owner (own_env env) owner1 owner2)"

definition find_state_obj :: "'fs sal_env \<Rightarrow> byte list \<Rightarrow> nat option \<Rightarrow> 'fs sal \<Rightarrow> nat option" where
  "find_state_obj env digest owner s =
    find (\<lambda>b. \<not> compare_state_obj env digest owner (state_obj (st s b)) (state_owner (st s b)))
      (ht_state_obj s)"

definition indexed_by_obj :: "state_type \<Rightarrow> bool" where
  "indexed_by_obj ty \<longleftrightarrow> ty = STATE_TYPE_LOCK \<or> ty = STATE_TYPE_SHARE"

definition nfs4_State_Set :: "'fs sal_env \<Rightarrow> nat \<Rightarrow> 'fs sal \<Rightarrow> bool \<times> 'fs sal" where
  "nfs4_State_Set env a s =
    (let x = st s a in
     if ht_state_id s (stateid_other x) \<noteq> None then (False, s)
     else
       (let s = s\<lparr>ht_state_id := (ht_state_id s)(stateid_other x \<mapsto> a)\<rparr> in
        if \<not> indexed_by_obj (state_type x) then (True, s)
        else if find_state_obj env (state_obj x) (state_owner x) s \<noteq> None then
          (False, s\<lparr>ht_state_id := (ht_state_id s)(stateid_other x := None)\<rparr>)
        else (True, s\<lparr>ht_state_obj := ht_state_obj s @ [a]\<rparr>)))"

definition nfs4_State_Get_Pointer :: "stateid_other_t \<Rightarrow> 'fs sal \<Rightarrow> nat option \<times> 'fs sal" where
  "nfs4_State_Get_Pointer other s =
    (case ht_state_id s other of
       None \<Rightarrow> (None, s)
     | Some a \<Rightarrow> (Some a, inc_state_t_ref a s))"

definition nfs4_State_Get_State_Obj ::
  "'fs sal_env \<Rightarrow> byte list \<Rightarrow> nat \<Rightarrow> 'fs sal \<Rightarrow> nat option \<times> 'fs sal" where
  "nfs4_State_Get_State_Obj env digest owner s =
    (case find_state_obj env digest (Some owner) s of
       None \<Rightarrow> (None, s)
     | Some a \<Rightarrow> (Some a, inc_state_t_ref a s))"

definition nfs4_State_Get_Obj :: "'fs sal_env \<Rightarrow> nat \<Rightarrow> nat \<Rightarrow> 'fs sal \<Rightarrow> nat option \<times> 'fs sal" where
  "nfs4_State_Get_Obj env obj owner s = nfs4_State_Get_State_Obj env (handle_digest env obj) owner s"

text \<open>The state found under the \<^verbatim>\<open>other\<close> field is the key of the second deletion.\<close>

definition nfs4_State_Del :: "'fs sal_env \<Rightarrow> nat \<Rightarrow> 'fs sal \<Rightarrow> bool \<times> 'fs sal" where
  "nfs4_State_Del env a s =
    (case ht_state_id s (stateid_other (st s a)) of
       None \<Rightarrow> (False, s)
     | Some old \<Rightarrow>
        (let s = s\<lparr>ht_state_id := (ht_state_id s)(stateid_other (st s a) := None)\<rparr> in
         if \<not> indexed_by_obj (state_type (st s a)) then (True, s)
         else (case find_state_obj env (state_obj (st s old)) (state_owner (st s old)) s of
             None \<Rightarrow> (False, s)
           | Some b \<Rightarrow> (True, s\<lparr>ht_state_obj := remove1 b (ht_state_obj s)\<rparr>))))"

subsection \<open>References from a state\<close>

definition get_state_obj_ref :: "'fs sal_env \<Rightarrow> nat \<Rightarrow> 'fs sal \<Rightarrow> nat option \<times> 'fs sal" where
  "get_state_obj_ref env a s =
    (case state_export (st s a) of
       None \<Rightarrow> (None, s)
     | Some e \<Rightarrow>
        (case create_handle env e (state_obj (st s a)) (fsal s) of
           (None, fs) \<Rightarrow> (None, s\<lparr>fsal := fs\<rparr>)
         | (Some obj, fs) \<Rightarrow> (Some obj, add_obj_ref obj 1 (s\<lparr>fsal := fs\<rparr>))))"

text \<open>
  The flags say which of the three references are wanted.  On failure the reference to the file
  is forgotten, not given back.
\<close>

definition get_state_obj_export_owner_refs ::
  "'fs sal_env \<Rightarrow> bool \<Rightarrow> bool \<Rightarrow> bool \<Rightarrow> nat option \<Rightarrow> 'fs sal \<Rightarrow>
   bool \<times> nat option \<times> nat option \<times> nat option \<times> 'fs sal" where
  "get_state_obj_export_owner_refs env want_obj want_export want_owner state s =
    (case state of
       None \<Rightarrow> (False, None, None, None, s)
     | Some a \<Rightarrow>
        (let (obj, s) = (if want_obj then get_state_obj_ref env a s else (None, s)) in
         if want_obj \<and> obj = None then (False, None, None, None, s)
         else
           (let ready = (case state_export (st s a) of None \<Rightarrow> False | Some e \<Rightarrow> export_ready env e) in
            if want_export \<and> \<not> ready then (False, None, None, None, s)
            else
              (let ex = (if want_export then state_export (st s a) else None);
                   s = (case ex of None \<Rightarrow> s | Some e \<Rightarrow> add_exp_ref e 1 s)
               in if \<not> want_owner then (True, obj, ex, None, s)
                  else (case state_owner (st s a) of
                      Some w \<Rightarrow> (True, obj, ex, Some w, add_owner_ref w 1 s)
                    | None \<Rightarrow> (False, None, None, None,
                        (case ex of None \<Rightarrow> s | Some e \<Rightarrow> add_exp_ref e (- 1) s)))))))"

subsection \<open>Adding a state\<close>

definition state_add_errout ::
  "'fs sal_env \<Rightarrow> nat \<Rightarrow> nat option \<Rightarrow> bool \<Rightarrow> nat \<Rightarrow> 'fs sal \<Rightarrow> 'fs sal" where
  "state_add_errout env obj pnew got_export_ref ctx s =
    (let s = (case pnew of
            None \<Rightarrow> s
          | Some a \<Rightarrow> free_state a (s\<lparr>fsal := close2 env obj a (fsal s)\<rparr>))
     in if got_export_ref then add_exp_ref ctx (- 1) s else s)"

definition state_add_attach :: "nat \<Rightarrow> nat \<Rightarrow> nat \<Rightarrow> nat \<Rightarrow> 'fs sal \<Rightarrow> 'fs sal" where
  "state_add_attach ctx obj owner a s =
    (let s = s\<lparr>exp_state_list := (exp_state_list s)(ctx := exp_state_list s ctx @ [a])\<rparr>;
         s = upd_file obj (\<lambda>f. f\<lparr>list_of_states := list_of_states f @ [a]\<rparr>) s;
         s = add_owner_ref owner 1 s;
         s = upd_owner owner (\<lambda>w. w\<lparr>so_state_list := so_state_list w @ [a]\<rparr>) s
     in if state_type (st s a) = STATE_TYPE_DELEG \<and> state_data (st s a) = Deleg_data OPEN_DELEGATE_WRITE
        then upd_file obj (\<lambda>f. f\<lparr>write_delegated := True\<rparr>) s
        else s)"

definition state_add_impl ::
  "'fs sal_env \<Rightarrow> nat \<Rightarrow> nat \<Rightarrow> state_type \<Rightarrow> state_data_t \<Rightarrow> nat \<Rightarrow> nat option \<Rightarrow> state_refer option \<Rightarrow>
   'fs sal \<Rightarrow> state_status_t \<times> nat option \<times> 'fs sal" where
  "state_add_impl env ctx obj ty data owner pnew refer s =
    (if \<not> export_ready env ctx then
       (STATE_ESTALE, None, state_add_errout env obj pnew False ctx s)
     else
       (let s = add_exp_ref ctx 1 s;
            (a, s) = (case pnew of Some a \<Rightarrow> (a, s) | None \<Rightarrow> alloc_state s);
            (other, s) = nfs4_BuildStateId_Other (so_clientrec (nfs4_owners s owner)) s;
            s = upd_st a (\<lambda>x. x\<lparr>stateid_other := other, state_data := data, state_type := ty, state_seqid := 0,
                  state_refcount := 2, state_export := Some ctx, state_owner := Some owner,
                  state_obj := handle_digest env obj,
                  state_refer := (if refer \<noteq> None then refer else state_refer x)\<rparr>) s;
            (ok, s) = nfs4_State_Set env a s
        in if \<not> ok then (STATE_MALLOC_ERROR, None, state_add_errout env obj (Some a) True ctx s)
           else (STATE_SUCCESS, Some a, state_add_attach ctx obj owner a s)))"

definition state_add ::
  "'fs sal_env \<Rightarrow> nat \<Rightarrow> nat \<Rightarrow> state_type \<Rightarrow> state_data_t \<Rightarrow> nat \<Rightarrow> nat option \<Rightarrow> state_refer option \<Rightarrow>
   'fs sal \<Rightarrow> state_status_t \<times> nat option \<times> 'fs sal" where
  "state_add env ctx obj ty data owner pnew refer s =
    (let so_ty = so_type (owners (own_env env) owner) in
     if (ty = STATE_TYPE_SHARE \<and> so_ty \<noteq> STATE_OPEN_OWNER_NFSV4)
        \<or> (ty = STATE_TYPE_LOCK \<and> so_ty \<noteq> STATE_LOCK_OWNER_NFSV4)
        \<or> ((ty = STATE_TYPE_DELEG \<or> ty = STATE_TYPE_LAYOUT) \<and> so_ty \<noteq> STATE_CLIENTID_OWNER_NFSV4)
     then (STATE_BAD_TYPE, pnew, s)
     else state_add_impl env ctx obj ty data owner pnew refer s)"

subsection \<open>Removing a state\<close>

definition state_del_owner :: "'fs sal_env \<Rightarrow> nat \<Rightarrow> nat \<Rightarrow> 'fs sal \<Rightarrow> 'fs sal" where
  "state_del_owner env a owner s =
    (let s = s\<lparr>nfs4_owners := (\<lambda>w. so_state_list_update (remove1 a) (nfs4_owners s w))\<rparr>;
         s = upd_st a (state_owner_update (\<lambda>_. None)) s
     in if so_type (owners (own_env env) owner) = STATE_OPEN_OWNER_NFSV4
           \<and> so_state_list (nfs4_owners s owner) = []
        then (let s = upd_owner owner (cache_expire_update (\<lambda>_. uint (lease_lifetime env) + clock s)) s
              in s\<lparr>cached_open_owners := cached_open_owners s @ [owner]\<rparr>)
        else add_owner_ref owner (- 1) s)"

definition state_del_file :: "'fs sal_env \<Rightarrow> nat \<Rightarrow> nat \<Rightarrow> 'fs sal \<Rightarrow> 'fs sal" where
  "state_del_file env a obj s =
    (let s = s\<lparr>files := (\<lambda>f. list_of_states_update (remove1 a) (files s f))\<rparr>;
         s = upd_st a (state_obj_update (\<lambda>_. [])) s
     in if support_ex env obj then s\<lparr>fsal := close2 env obj a (fsal s)\<rparr> else s)"

definition state_del_type :: "nat \<Rightarrow> nat \<Rightarrow> 'fs sal \<Rightarrow> 'fs sal" where
  "state_del_type a obj s =
    (let s = (if state_type (st s a) = STATE_TYPE_LOCK
              then s\<lparr>share_lockstates := (\<lambda>b. remove1 a (share_lockstates s b))\<rparr> else s)
     in if state_type (st s a) = STATE_TYPE_DELEG \<and> state_data (st s a) = Deleg_data OPEN_DELEGATE_WRITE
        then upd_file obj (write_delegated_update (\<lambda>_. False)) s else s)"

definition state_del_export :: "nat \<Rightarrow> nat option \<Rightarrow> 'fs sal \<Rightarrow> 'fs sal" where
  "state_del_export a ex s =
    (let s = s\<lparr>exp_state_list := (\<lambda>e. remove1 a (exp_state_list s e))\<rparr>;
         s = upd_st a (state_export_update (\<lambda>_. None)) s
     in case ex of None \<Rightarrow> s | Some e \<Rightarrow> add_exp_ref e (- 1) s)"

definition state_del_locked :: "'fs sal_env \<Rightarrow> nat \<Rightarrow> 'fs sal \<Rightarrow> 'fs sal" where
  "state_del_locked env a s =
    (case nfs4_State_Del env a s of
       (False, s) \<Rightarrow> s
     | (True, s) \<Rightarrow>
        (case get_state_obj_ref env a s of
           (None, s) \<Rightarrow> s
         | (Some obj, s) \<Rightarrow>
            (let ex = state_export (st s a);
                 owner = state_owner (st s a);
                 s = state_del_file env a obj s;
                 s = (case owner of None \<Rightarrow> s | Some w \<Rightarrow> state_del_owner env a w s);
                 s = state_del_type a obj s;
                 s = state_del_export a ex s;
                 s = dec_nfs4_state_ref a s
             in add_obj_ref obj (- 1) s)))"

definition state_del :: "'fs sal_env \<Rightarrow> nat \<Rightarrow> 'fs sal \<Rightarrow> 'fs sal" where
  "state_del env a s =
    (case get_state_obj_ref env a s of
       (None, s) \<Rightarrow> s
     | (Some obj, s) \<Rightarrow> add_obj_ref obj (- 1) (state_del_locked env a s))"

definition state_nfs4_state_wipe :: "'fs sal_env \<Rightarrow> nat \<Rightarrow> 'fs sal \<Rightarrow> 'fs sal" where
  "state_nfs4_state_wipe env obj s =
    (if list_of_states (files s obj) = [] then s
     else fold (\<lambda>a s.
        if state_type (st s a) \<in> {STATE_TYPE_NLM_LOCK, STATE_TYPE_NLM_SHARE, STATE_TYPE_9P_FID}
        then s else state_del_locked env a s) (list_of_states (files s obj)) s)"

text \<open>The loop of \<^verbatim>\<open>release_lock_owner\<close>, which goes on as long as the owner has a state.\<close>

partial_function (option) release_states :: "'fs sal_env \<Rightarrow> nat \<Rightarrow> 'fs sal \<Rightarrow> 'fs sal option" where
  "release_states env owner s =
    (case so_state_list (nfs4_owners s owner) of
       [] \<Rightarrow> Some s
     | a # _ \<Rightarrow> release_states env owner (dec_nfs4_state_ref a (state_del env a (inc_state_t_ref a s))))"

definition release_lock_owner :: "'fs sal_env \<Rightarrow> nat \<Rightarrow> 'fs sal \<Rightarrow> (nfsstat4 \<times> 'fs sal) option" where
  "release_lock_owner env owner s =
    (if so_lock_list (nfs4_owners s owner) \<noteq> [] then Some (NFS4ERR_LOCKS_HELD, s)
     else map_option (Pair NFS4_OK) (release_states env owner s))"

end
