(* ===== verification/State_Safety.thy ===== *)
theory State_Safety
  imports State_Table
begin

text \<open>
  The tables of NFSv4 states over time.  A state machine runs the operations of \<open>State_Table\<close> in any
  order, with the references that its callers hold; the invariant says what the two tables and the
  reference counts have to do with each other, so that nothing that can be looked up or that a
  caller holds has been freed.
\<close>

subsection \<open>What the operations change\<close>

lemmas sal_parts = upd_st_def upd_file_def upd_owner_def upd_client_def add_exp_ref_def add_obj_ref_def
  add_owner_ref_def

definition new_state ::
  "'fs sal_env \<Rightarrow> nat \<Rightarrow> nat \<Rightarrow> state_type \<Rightarrow> state_data_t \<Rightarrow> nat \<Rightarrow> state_refer option \<Rightarrow> 'fs sal \<Rightarrow> state_t" where
  "new_state env ctx obj ty data owner refer s =
    \<lparr>state_export = Some ctx, state_owner = Some owner, state_obj = handle_digest env obj, state_data = data,
     state_type = ty, state_seqid = 0, state_refcount = 2,
     stateid_other = (let c = clients s (so_clientrec (nfs4_owners s owner))
                      in (cid_clientid c, cid_stateid_counter c + 1)),
     state_refer = refer\<rparr>"

text \<open>The state right before the table is changed.\<close>

definition prepared ::
  "'fs sal_env \<Rightarrow> nat \<Rightarrow> nat \<Rightarrow> state_type \<Rightarrow> state_data_t \<Rightarrow> nat \<Rightarrow> state_refer option \<Rightarrow> 'fs sal \<Rightarrow> 'fs sal" where
  "prepared env ctx obj ty data owner refer s =
    upd_st (next_state s) (\<lambda>_. new_state env ctx obj ty data owner refer s)
      (snd (nfs4_BuildStateId_Other (so_clientrec (nfs4_owners s owner))
        (snd (alloc_state (add_exp_ref ctx 1 s)))))"

lemma state_add_impl_eq:
  "state_add_impl env ctx obj ty data owner None refer s =
    (if \<not> export_ready env ctx then (STATE_ESTALE, None, s)
     else case nfs4_State_Set env (next_state s) (prepared env ctx obj ty data owner refer s) of
       (ok, s1) \<Rightarrow>
         if \<not> ok then (STATE_MALLOC_ERROR, None, state_add_errout env obj (Some (next_state s)) True ctx s1)
         else (STATE_SUCCESS, Some (next_state s), state_add_attach ctx obj owner (next_state s) s1))"
  by (cases refer) (simp_all add: state_add_impl_def prepared_def alloc_state_def nfs4_BuildStateId_Other_def
      new_state_def empty_state_def sal_parts state_add_errout_def Let_def split: prod.split)

lemma prepared_simps [simp]:
  "st (prepared env ctx obj ty data owner refer s) =
    (st s)(next_state s := new_state env ctx obj ty data owner refer s)"
  "allocated (prepared env ctx obj ty data owner refer s) = (allocated s)(next_state s := True)"
  "next_state (prepared env ctx obj ty data owner refer s) = Suc (next_state s)"
  "ht_state_id (prepared env ctx obj ty data owner refer s) = ht_state_id s"
  "ht_state_obj (prepared env ctx obj ty data owner refer s) = ht_state_obj s"
  "files (prepared env ctx obj ty data owner refer s) = files s"
  "nfs4_owners (prepared env ctx obj ty data owner refer s) = nfs4_owners s"
  "exp_state_list (prepared env ctx obj ty data owner refer s) = exp_state_list s"
  "share_lockstates (prepared env ctx obj ty data owner refer s) = share_lockstates s"
  by (simp_all add: prepared_def alloc_state_def nfs4_BuildStateId_Other_def sal_parts Let_def)

lemma new_state_simps [simp]:
  "state_export (new_state env ctx obj ty data owner refer s) = Some ctx"
  "state_owner (new_state env ctx obj ty data owner refer s) = Some owner"
  "state_obj (new_state env ctx obj ty data owner refer s) = handle_digest env obj"
  "state_type (new_state env ctx obj ty data owner refer s) = ty"
  "state_data (new_state env ctx obj ty data owner refer s) = data"
  "state_refcount (new_state env ctx obj ty data owner refer s) = 2"
  by (simp_all add: new_state_def)

lemma state_add_attach_simps [simp]:
  "st (state_add_attach ctx obj owner a s) = st s"
  "allocated (state_add_attach ctx obj owner a s) = allocated s"
  "next_state (state_add_attach ctx obj owner a s) = next_state s"
  "ht_state_id (state_add_attach ctx obj owner a s) = ht_state_id s"
  "ht_state_obj (state_add_attach ctx obj owner a s) = ht_state_obj s"
  "exp_state_list (state_add_attach ctx obj owner a s) = (exp_state_list s)(ctx := exp_state_list s ctx @ [a])"
  "so_state_list (nfs4_owners (state_add_attach ctx obj owner a s) w) =
    (if w = owner then so_state_list (nfs4_owners s w) @ [a] else so_state_list (nfs4_owners s w))"
  "list_of_states (files (state_add_attach ctx obj owner a s) f) =
    (if f = obj then list_of_states (files s f) @ [a] else list_of_states (files s f))"
  "share_state (files (state_add_attach ctx obj owner a s) f) = share_state (files s f)"
  "share_lockstates (state_add_attach ctx obj owner a s) = share_lockstates s"
  "so_lock_list (nfs4_owners (state_add_attach ctx obj owner a s) w) = so_lock_list (nfs4_owners s w)"
  by (simp_all add: state_add_attach_def sal_parts Let_def)

text \<open>Putting a state into the tables, and taking it out.\<close>

lemma State_Set_cases:
  assumes "nfs4_State_Set env a s = (ok, s1)"
  shows "ok \<Longrightarrow> ht_state_id s (stateid_other (st s a)) = None"
    "ok \<Longrightarrow> indexed_by_obj (state_type (st s a)) \<Longrightarrow>
       find_state_obj env (state_obj (st s a)) (state_owner (st s a)) s = None"
    "ok \<Longrightarrow> s1 = s\<lparr>ht_state_id := (ht_state_id s)(stateid_other (st s a) \<mapsto> a),
       ht_state_obj := ht_state_obj s @ (if indexed_by_obj (state_type (st s a)) then [a] else [])\<rparr>"
    "\<not> ok \<Longrightarrow> s1 = s"
  using assms
  by (auto simp: nfs4_State_Set_def find_state_obj_def Let_def fun_upd_idem split: if_splits)

text \<open>A successful addition, table by table.\<close>

lemma state_add_success:
  assumes "state_add_impl env ctx obj ty data owner None refer s = (STATE_SUCCESS, Some a, s')"
  defines "x \<equiv> new_state env ctx obj ty data owner refer s"
  shows "a = next_state s" "st s' = (st s)(a := x)" "allocated s' = (allocated s)(a := True)"
    "next_state s' = Suc (next_state s)"
    "ht_state_id s (stateid_other x) = None" "ht_state_id s' = (ht_state_id s)(stateid_other x \<mapsto> a)"
    "ht_state_obj s' = ht_state_obj s @ (if indexed_by_obj ty then [a] else [])"
    "indexed_by_obj ty \<Longrightarrow>
      find_state_obj env (handle_digest env obj) (Some owner) (prepared env ctx obj ty data owner refer s) = None"
    "exp_state_list s' = (exp_state_list s)(ctx := exp_state_list s ctx @ [a])"
    "so_state_list (nfs4_owners s' w) =
      (if w = owner then so_state_list (nfs4_owners s w) @ [a] else so_state_list (nfs4_owners s w))"
    "list_of_states (files s' f) =
      (if f = obj then list_of_states (files s f) @ [a] else list_of_states (files s f))"
    "share_state (files s' f) = share_state (files s f)"
    "share_lockstates s' = share_lockstates s" "so_lock_list (nfs4_owners s' w) = so_lock_list (nfs4_owners s w)"
proof -
  obtain ok s1 where set: "nfs4_State_Set env (next_state s) (prepared env ctx obj ty data owner refer s) = (ok, s1)"
    by fastforce
  with assms(1) have ok: "ok" "a = next_state s" "s' = state_add_attach ctx obj owner (next_state s) s1"
    by (auto simp: state_add_impl_eq split: if_splits)
  note c = State_Set_cases(1-3) [OF set ok(1)]
  show "a = next_state s" by (rule ok)
  show "st s' = (st s)(a := x)" "allocated s' = (allocated s)(a := True)" "next_state s' = Suc (next_state s)"
    "ht_state_id s (stateid_other x) = None" "ht_state_id s' = (ht_state_id s)(stateid_other x \<mapsto> a)"
    "ht_state_obj s' = ht_state_obj s @ (if indexed_by_obj ty then [a] else [])"
    "indexed_by_obj ty \<Longrightarrow>
      find_state_obj env (handle_digest env obj) (Some owner) (prepared env ctx obj ty data owner refer s) = None"
    "exp_state_list s' = (exp_state_list s)(ctx := exp_state_list s ctx @ [a])"
    "so_state_list (nfs4_owners s' w) =
      (if w = owner then so_state_list (nfs4_owners s w) @ [a] else so_state_list (nfs4_owners s w))"
    "list_of_states (files s' f) =
      (if f = obj then list_of_states (files s f) @ [a] else list_of_states (files s f))"
    "share_state (files s' f) = share_state (files s f)"
    "share_lockstates s' = share_lockstates s" "so_lock_list (nfs4_owners s' w) = so_lock_list (nfs4_owners s w)"
    using c by (simp_all add: ok(2,3) x_def)
qed

subsection \<open>Removal\<close>

lemma State_Del_cases:
  assumes "nfs4_State_Del env a s = (ok, s1)"
  obtains ids objs where "s1 = s\<lparr>ht_state_id := ids, ht_state_obj := objs\<rparr>"
    "ids = ht_state_id s \<or> ids = (ht_state_id s)(stateid_other (st s a) := None)"
    "set objs \<subseteq> set (ht_state_obj s)" "ok \<Longrightarrow> ids = (ht_state_id s)(stateid_other (st s a) := None)"
proof -
  note d = assms [unfolded nfs4_State_Del_def Let_def]
  show thesis
  proof (cases "ht_state_id s (stateid_other (st s a))")
    case None
    with d show thesis by (intro that [where ids = "ht_state_id s" and objs = "ht_state_obj s"]) auto
  next
    case (Some old)
    then show thesis
      using d set_remove1_subset
      by (intro that [where ids = "(ht_state_id s)(stateid_other (st s a) := None)" and objs = "ht_state_obj s1"])
         (fastforce split: if_splits option.splits)+
  qed
qed

lemma get_state_obj_ref_cases:
  assumes "get_state_obj_ref env a s = (r, s1)"
  obtains fs where "r = None" "s1 = s\<lparr>fsal := fs\<rparr>"
  | fs obj where "r = Some obj" "s1 = add_obj_ref obj 1 (s\<lparr>fsal := fs\<rparr>)"
proof (cases "state_export (st s a)")
  case None
  with assms that(1) [of "fsal s"] show thesis by (simp add: get_state_obj_ref_def)
next
  case (Some e)
  obtain o' fs where "create_handle env e (state_obj (st s a)) (fsal s) = (o', fs)" by fastforce
  with assms Some that show thesis by (cases o') (auto simp: get_state_obj_ref_def)
qed

text \<open>What is left of a state that has been removed.\<close>

definition detached :: "state_t \<Rightarrow> state_t" where
  "detached x = x\<lparr>state_obj := [], state_owner := None, state_export := None,
     state_refcount := state_refcount x - 1\<rparr>"

lemma detached_simps [simp]:
  "stateid_other (detached x) = stateid_other x" "state_type (detached x) = state_type x"
  "state_refcount (detached x) = state_refcount x - 1" "state_owner (detached x) = None"
  "state_export (detached x) = None" "state_data (detached x) = state_data x"
  by (simp_all add: detached_def)

lemma state_del_owner_simps [simp]:
  "st (state_del_owner env a w s) = (st s)(a := (st s a)\<lparr>state_owner := None\<rparr>)"
  "allocated (state_del_owner env a w s) = allocated s"
  "next_state (state_del_owner env a w s) = next_state s"
  "ht_state_id (state_del_owner env a w s) = ht_state_id s"
  "ht_state_obj (state_del_owner env a w s) = ht_state_obj s"
  "files (state_del_owner env a w s) = files s"
  "exp_state_list (state_del_owner env a w s) = exp_state_list s"
  "share_lockstates (state_del_owner env a w s) = share_lockstates s"
  "clients (state_del_owner env a w s) = clients s"
  "fsal (state_del_owner env a w s) = fsal s"
  "so_state_list (nfs4_owners (state_del_owner env a w s) v) = remove1 a (so_state_list (nfs4_owners s v))"
  "so_lock_list (nfs4_owners (state_del_owner env a w s) v) = so_lock_list (nfs4_owners s v)"
  by (simp_all add: state_del_owner_def sal_parts Let_def)

lemma state_del_file_simps [simp]:
  "st (state_del_file env a obj s) = (st s)(a := (st s a)\<lparr>state_obj := []\<rparr>)"
  "allocated (state_del_file env a obj s) = allocated s"
  "next_state (state_del_file env a obj s) = next_state s"
  "ht_state_id (state_del_file env a obj s) = ht_state_id s"
  "ht_state_obj (state_del_file env a obj s) = ht_state_obj s"
  "files (state_del_file env a obj s) = (\<lambda>f. list_of_states_update (remove1 a) (files s f))"
  "exp_state_list (state_del_file env a obj s) = exp_state_list s"
  "nfs4_owners (state_del_file env a obj s) = nfs4_owners s"
  by (simp_all add: state_del_file_def sal_parts Let_def)

lemma state_del_type_simps [simp]:
  "st (state_del_type a obj s) = st s"
  "allocated (state_del_type a obj s) = allocated s"
  "next_state (state_del_type a obj s) = next_state s"
  "ht_state_id (state_del_type a obj s) = ht_state_id s"
  "ht_state_obj (state_del_type a obj s) = ht_state_obj s"
  "list_of_states (files (state_del_type a obj s) f) = list_of_states (files s f)"
  "share_state (files (state_del_type a obj s) f) = share_state (files s f)"
  "exp_state_list (state_del_type a obj s) = exp_state_list s"
  "nfs4_owners (state_del_type a obj s) = nfs4_owners s"
  by (simp_all add: state_del_type_def sal_parts Let_def)

lemma state_del_export_simps [simp]:
  "st (state_del_export a ex s) = (st s)(a := (st s a)\<lparr>state_export := None\<rparr>)"
  "allocated (state_del_export a ex s) = allocated s"
  "next_state (state_del_export a ex s) = next_state s"
  "ht_state_id (state_del_export a ex s) = ht_state_id s"
  "ht_state_obj (state_del_export a ex s) = ht_state_obj s"
  "files (state_del_export a ex s) = files s"
  "exp_state_list (state_del_export a ex s) = (\<lambda>e. remove1 a (exp_state_list s e))"
  "nfs4_owners (state_del_export a ex s) = nfs4_owners s"
  by (cases ex; simp add: state_del_export_def sal_parts Let_def)+

lemma dec_nfs4_state_ref_simps [simp]:
  "st (dec_nfs4_state_ref a s) = (st s)(a := (st s a)\<lparr>state_refcount := state_refcount (st s a) - 1\<rparr>)"
  "allocated (dec_nfs4_state_ref a s) =
    (if state_refcount (st s a) > 1 then allocated s else (allocated s)(a := False))"
  "next_state (dec_nfs4_state_ref a s) = next_state s"
  "ht_state_id (dec_nfs4_state_ref a s) = ht_state_id s"
  "ht_state_obj (dec_nfs4_state_ref a s) = ht_state_obj s"
  "files (dec_nfs4_state_ref a s) = files s"
  "exp_state_list (dec_nfs4_state_ref a s) = exp_state_list s"
  "nfs4_owners (dec_nfs4_state_ref a s) = nfs4_owners s"
  by (simp_all add: dec_nfs4_state_ref_def free_state_def sal_parts Let_def)

lemma add_obj_ref_simps [simp]:
  "st (add_obj_ref obj n s) = st s" "allocated (add_obj_ref obj n s) = allocated s"
  "next_state (add_obj_ref obj n s) = next_state s" "ht_state_id (add_obj_ref obj n s) = ht_state_id s"
  "ht_state_obj (add_obj_ref obj n s) = ht_state_obj s" "files (add_obj_ref obj n s) = files s"
  "exp_state_list (add_obj_ref obj n s) = exp_state_list s" "nfs4_owners (add_obj_ref obj n s) = nfs4_owners s"
  "share_lockstates (add_obj_ref obj n s) = share_lockstates s" "fsal (add_obj_ref obj n s) = fsal s"
  "clients (add_obj_ref obj n s) = clients s"
  by (simp_all add: add_obj_ref_def)

lemma state_del_locked_stages:
  assumes del: "nfs4_State_Del env a s = (True, s1)" and obj: "get_state_obj_ref env a s1 = (Some obj, s2)"
    and own: "state_owner (st s a) = Some w0"
  shows "state_del_locked env a s = add_obj_ref obj (- 1) (dec_nfs4_state_ref a (state_del_export a (state_export (st s a))
      (state_del_type a obj (state_del_owner env a w0 (state_del_file env a obj s2)))))"
    "\<exists>ids objs fs. s2 = add_obj_ref obj 1 (s\<lparr>ht_state_id := ids, ht_state_obj := objs, fsal := fs\<rparr>)
      \<and> ids = ht_state_id s1 \<and> objs = ht_state_obj s1"
proof -
  obtain ids objs where s1: "s1 = s\<lparr>ht_state_id := ids, ht_state_obj := objs\<rparr>"
    using State_Del_cases [OF del] by metis
  obtain fs where s2: "s2 = add_obj_ref obj 1 (s1\<lparr>fsal := fs\<rparr>)"
    using get_state_obj_ref_cases [OF obj] by (metis option.inject option.distinct(1))
  show "state_del_locked env a s = add_obj_ref obj (- 1) (dec_nfs4_state_ref a (state_del_export a (state_export (st s a))
      (state_del_type a obj (state_del_owner env a w0 (state_del_file env a obj s2)))))"
    unfolding state_del_locked_def Let_def del prod.case bool.case obj option.case by (simp add: s1 s2 own)
  show "\<exists>ids objs fs. s2 = add_obj_ref obj 1 (s\<lparr>ht_state_id := ids, ht_state_obj := objs, fsal := fs\<rparr>)
      \<and> ids = ht_state_id s1 \<and> objs = ht_state_obj s1"
    using s1 s2 by auto
qed

lemma state_del_locked_full:
  assumes del: "nfs4_State_Del env a s = (True, s1)" and obj: "get_state_obj_ref env a s1 = (Some obj, s2)"
    and own: "state_owner (st s a) = Some w0"
  shows "st (state_del_locked env a s) = (st s)(a := detached (st s a))"
    "allocated (state_del_locked env a s) =
      (if state_refcount (st s a) > 1 then allocated s else (allocated s)(a := False))"
    "next_state (state_del_locked env a s) = next_state s"
    "ht_state_id (state_del_locked env a s) = ht_state_id s1"
    "ht_state_obj (state_del_locked env a s) = ht_state_obj s1"
    "list_of_states (files (state_del_locked env a s) f) = remove1 a (list_of_states (files s f))"
    "share_state (files (state_del_locked env a s) f) = share_state (files s f)"
    "exp_state_list (state_del_locked env a s) e = remove1 a (exp_state_list s e)"
    "so_state_list (nfs4_owners (state_del_locked env a s) w) = remove1 a (so_state_list (nfs4_owners s w))"
    "so_lock_list (nfs4_owners (state_del_locked env a s) w) = so_lock_list (nfs4_owners s w)"
proof -
  note eq = state_del_locked_stages(1) [OF assms]
  obtain fs where s2: "s2 = add_obj_ref obj 1 (s\<lparr>ht_state_id := ht_state_id s1, ht_state_obj := ht_state_obj s1, fsal := fs\<rparr>)"
    using state_del_locked_stages(2) [OF assms] by auto
  show "st (state_del_locked env a s) = (st s)(a := detached (st s a))"
    "allocated (state_del_locked env a s) =
      (if state_refcount (st s a) > 1 then allocated s else (allocated s)(a := False))"
    "next_state (state_del_locked env a s) = next_state s"
    "ht_state_id (state_del_locked env a s) = ht_state_id s1"
    "ht_state_obj (state_del_locked env a s) = ht_state_obj s1"
    "list_of_states (files (state_del_locked env a s) f) = remove1 a (list_of_states (files s f))"
    "share_state (files (state_del_locked env a s) f) = share_state (files s f)"
    "exp_state_list (state_del_locked env a s) e = remove1 a (exp_state_list s e)"
    "so_state_list (nfs4_owners (state_del_locked env a s) w) = remove1 a (so_state_list (nfs4_owners s w))"
    "so_lock_list (nfs4_owners (state_del_locked env a s) w) = so_lock_list (nfs4_owners s w)"
    unfolding eq by (simp_all add: s2 detached_def)
qed

subsection \<open>The invariant\<close>

definition in_table :: "'fs sal \<Rightarrow> nat \<Rightarrow> bool" where
  "in_table s a \<longleftrightarrow> ht_state_id s (stateid_other (st s a)) = Some a"

text \<open>
  No digest is the beginning of the zero padded digest of another file, as is the case if all of
  them have the same length.
\<close>

definition digests_prefix_free :: "'fs sal_env \<Rightarrow> bool" where
  "digests_prefix_free env \<longleftrightarrow>
    (\<forall>f g. take (length (handle_digest env f)) (handle_digest env g @ replicate 58 0) = handle_digest env f \<longrightarrow>
       handle_digest env f = handle_digest env g)"

definition attached :: "'fs sal_env \<Rightarrow> state_t \<Rightarrow> bool" where
  "attached env x \<longleftrightarrow> (\<exists>f. state_obj x = handle_digest env f) \<and> state_owner x \<noteq> None \<and> state_export x \<noteq> None"

definition same_key :: "'fs sal_env \<Rightarrow> state_t \<Rightarrow> state_t \<Rightarrow> bool" where
  "same_key env x y \<longleftrightarrow>
    state_obj x = state_obj y \<and> \<not> compare_nfs4_owner (own_env env) (state_owner x) (state_owner y)"

text \<open>
  \<open>H\<close> lists the references that callers hold, one element for each reference: the count of a
  state is at least their number, and one more while the state is in the table.
\<close>

definition table_inv :: "'fs sal_env \<Rightarrow> nat list \<Rightarrow> 'fs sal \<Rightarrow> bool" where
  "table_inv env H s \<longleftrightarrow>
    (\<forall>k a. ht_state_id s k = Some a \<longrightarrow> stateid_other (st s a) = k \<and> allocated s a \<and> attached env (st s a))
    \<and> (\<forall>a. allocated s a \<longrightarrow> a < next_state s)
    \<and> (\<forall>a b. allocated s a \<longrightarrow> allocated s b \<longrightarrow> stateid_other (st s a) = stateid_other (st s b) \<longrightarrow> a = b)
    \<and> (\<forall>a. a \<in> set H \<longrightarrow> allocated s a)
    \<and> (\<forall>a. allocated s a \<longrightarrow>
         int (count_list H a) + (if in_table s a then 1 else 0) \<le> state_refcount (st s a))
    \<and> (\<forall>a. a \<in> set (ht_state_obj s) \<longleftrightarrow> in_table s a \<and> indexed_by_obj (state_type (st s a)))
    \<and> distinct (ht_state_obj s)
    \<and> (\<forall>a b. a \<in> set (ht_state_obj s) \<longrightarrow> b \<in> set (ht_state_obj s) \<longrightarrow> same_key env (st s a) (st s b) \<longrightarrow> a = b)"

lemma table_invD:
  assumes "table_inv env H s"
  shows "ht_state_id s k = Some a \<Longrightarrow> stateid_other (st s a) = k"
    "ht_state_id s k = Some a \<Longrightarrow> allocated s a" "ht_state_id s k = Some a \<Longrightarrow> attached env (st s a)"
    "allocated s a \<Longrightarrow> a < next_state s"
    "allocated s a \<Longrightarrow> allocated s b \<Longrightarrow> stateid_other (st s a) = stateid_other (st s b) \<Longrightarrow> a = b"
    "a \<in> set H \<Longrightarrow> allocated s a"
    "allocated s a \<Longrightarrow> int (count_list H a) + (if in_table s a then 1 else 0) \<le> state_refcount (st s a)"
    "a \<in> set (ht_state_obj s) \<longleftrightarrow> in_table s a \<and> indexed_by_obj (state_type (st s a))"
    "distinct (ht_state_obj s)"
    "a \<in> set (ht_state_obj s) \<Longrightarrow> b \<in> set (ht_state_obj s) \<Longrightarrow> same_key env (st s a) (st s b) \<Longrightarrow> a = b"
  using assms unfolding table_inv_def by blast+

lemma table_inv_attached: "table_inv env H s \<Longrightarrow> in_table s a \<Longrightarrow> attached env (st s a)"
  unfolding in_table_def by (rule table_invD(3))

lemma table_inv_allocated: "table_inv env H s \<Longrightarrow> in_table s a \<Longrightarrow> allocated s a"
  unfolding in_table_def by (rule table_invD(2))

text \<open>With such digests the search of the second table finds the key.\<close>

lemma compare_attached:
  assumes "digests_prefix_free env" "attached env y"
  shows "compare_state_obj env (handle_digest env f) w (state_obj y) (state_owner y) \<longleftrightarrow>
    handle_digest env f \<noteq> state_obj y \<or> compare_nfs4_owner (own_env env) w (state_owner y)"
proof -
  obtain g where g: "state_obj y = handle_digest env g" using assms(2) by (auto simp: attached_def)
  then show ?thesis
    using assms(1) by (auto simp: compare_state_obj_def g digests_prefix_free_def)
qed

lemma find_state_obj_Some:
  assumes inv: "table_inv env H s" "digests_prefix_free env" and a: "in_table s a" "indexed_by_obj (state_type (st s a))"
  shows "find_state_obj env (state_obj (st s a)) (state_owner (st s a)) s = Some a"
proof -
  obtain f where f: "state_obj (st s a) = handle_digest env f" and w: "state_owner (st s a) \<noteq> None"
    using table_inv_attached [OF inv(1) a(1)] by (auto simp: attached_def)
  have mem: "a \<in> set (ht_state_obj s)" using a table_invD(8) [OF inv(1)] by simp
  have other: "compare_state_obj env (handle_digest env f) (state_owner (st s a)) (state_obj (st s b)) (state_owner (st s b))
      \<longleftrightarrow> \<not> same_key env (st s a) (st s b)" if "b \<in> set (ht_state_obj s)" for b
    using compare_attached [OF inv(2) table_inv_attached [OF inv(1)], of b] that table_invD(8) [OF inv(1)] f
    by (simp add: same_key_def)
  have self: "same_key env (st s a) (st s a)"
    using w by (cases "state_owner (st s a)") (auto simp: same_key_def compare_nfs4_owner_def)
  show ?thesis unfolding find_state_obj_def f
  proof (cases "find (\<lambda>b. \<not> compare_state_obj env (handle_digest env f) (state_owner (st s a)) (state_obj (st s b))
      (state_owner (st s b))) (ht_state_obj s)")
    case None
    then show "find (\<lambda>b. \<not> compare_state_obj env (handle_digest env f) (state_owner (st s a)) (state_obj (st s b))
        (state_owner (st s b))) (ht_state_obj s) = Some a"
      using mem self other by (auto simp: find_None_set)
  next
    case (Some b)
    from find_SomeD [OF this] have "b \<in> set (ht_state_obj s)" "same_key env (st s a) (st s b)"
      using other by auto
    then have "a = b" using table_invD(10) [OF inv(1) mem] by blast
    with Some show "find (\<lambda>b. \<not> compare_state_obj env (handle_digest env f) (state_owner (st s a)) (state_obj (st s b))
        (state_owner (st s b))) (ht_state_obj s) = Some a" by simp
  qed
qed

lemma State_Del_in_table:
  assumes "table_inv env H s" "digests_prefix_free env" "in_table s a"
  shows "nfs4_State_Del env a s = (True, s\<lparr>ht_state_id := (ht_state_id s)(stateid_other (st s a) := None),
    ht_state_obj := remove1 a (ht_state_obj s)\<rparr>)"
proof (cases "indexed_by_obj (state_type (st s a))")
  case True
  have "find_state_obj env (state_obj (st s a)) (state_owner (st s a))
      (s\<lparr>ht_state_id := (ht_state_id s)(stateid_other (st s a) := None)\<rparr>) = Some a"
    using find_state_obj_Some [OF assms True] by (simp add: find_state_obj_def)
  with True assms(3) show ?thesis by (simp add: nfs4_State_Del_def in_table_def Let_def)
next
  case False
  then have "remove1 a (ht_state_obj s) = ht_state_obj s"
    using table_invD(8) [OF assms(1)] by (simp add: remove1_idem)
  with False assms(3) show ?thesis by (simp add: nfs4_State_Del_def in_table_def Let_def)
qed

lemma State_Del_not_in_table:
  assumes "table_inv env H s" "allocated s a" "\<not> in_table s a"
  shows "nfs4_State_Del env a s = (False, s)"
proof (cases "ht_state_id s (stateid_other (st s a))")
  case (Some b)
  then have "a = b" using table_invD(1,2,5) [OF assms(1)] assms(2) by metis
  with Some assms(3) show ?thesis by (simp add: in_table_def)
qed (simp add: nfs4_State_Del_def)

subsection \<open>The invariant is kept\<close>

text \<open>Operations that change nothing the invariant speaks of.\<close>

lemma table_inv_frame:
  assumes "table_inv env H s" "st s' = st s" "allocated s' = allocated s" "next_state s' = next_state s"
    "ht_state_id s' = ht_state_id s" "ht_state_obj s' = ht_state_obj s"
  shows "table_inv env H s'"
  using assms(1) unfolding table_inv_def in_table_def assms(2-6) .

lemma table_inv_add:
  assumes inv: "table_inv env H s" "digests_prefix_free env"
    and add: "state_add_impl env ctx obj ty data owner None refer s = (STATE_SUCCESS, Some a, s')"
    and new: "\<And>b. allocated s b \<Longrightarrow> stateid_other (st s b) \<noteq> stateid_other (new_state env ctx obj ty data owner refer s)"
  shows "table_inv env (a # H) s'"
proof -
  let ?x = "new_state env ctx obj ty data owner refer s"
  note e = state_add_success [OF add]
  note D = table_invD [OF inv(1)]
  have fresh: "\<not> allocated s a" using D(4) [of a] e(1) by auto
  have notH: "a \<notin> set H" using D(6) fresh by blast
  have notT: "\<not> in_table s a" using table_inv_allocated [OF inv(1)] fresh by blast
  have notO: "a \<notin> set (ht_state_obj s)" using D(8) notT by blast
  have notid: "ht_state_id s k \<noteq> Some a" for k using D(2) fresh by blast
  have tab: "in_table s' b \<longleftrightarrow> b = a \<or> in_table s b" for b
    using e(5) notid by (cases "b = a") (simp_all add: in_table_def e(2,6))
  have att: "attached env ?x" by (auto simp: attached_def)
  have key: "\<not> same_key env ?x (st s b)" "\<not> same_key env (st s b) ?x"
    if "indexed_by_obj ty" "b \<in> set (ht_state_obj s)" for b
  proof -
    have ba: "b \<noteq> next_state s" using that(2) notO e(1) by blast
    have tb: "in_table s b" using that(2) D(8) by blast
    have "compare_state_obj env (handle_digest env obj) (Some owner) (state_obj (st s b)) (state_owner (st s b))"
      using bspec [OF e(8) [OF that(1), unfolded find_state_obj_def find_None_set, simplified] that(2)] ba by simp
    then have "\<not> (handle_digest env obj = state_obj (st s b)
        \<and> \<not> compare_nfs4_owner (own_env env) (Some owner) (state_owner (st s b)))"
      unfolding compare_attached [OF inv(2) table_inv_attached [OF inv(1) tb]] by blast
    then show "\<not> same_key env ?x (st s b)" "\<not> same_key env (st s b) ?x"
      using nfs4.symmetric [of "own_env env"] by (auto simp: same_key_def)
  qed
  show ?thesis unfolding table_inv_def
  proof (intro conjI allI impI)
    fix b c k
    show "stateid_other (st s' b) = k" "allocated s' b" "attached env (st s' b)" if "ht_state_id s' k = Some b"
      using that D(1,2,3) [of k b] notid [of k] att by (auto simp: e(2,3,6) split: if_splits)
    show "b < next_state s'" if "allocated s' b" using that D(4) e(1) by (auto simp: e(3,4) less_SucI split: if_splits)
    show "b = c" if "allocated s' b" "allocated s' c" "stateid_other (st s' b) = stateid_other (st s' c)"
      using that D(5) new by (auto simp: e(2,3) split: if_splits)
    show "allocated s' b" if "b \<in> set (a # H)" using that D(6) by (auto simp: e(3))
    show "int (count_list (a # H) b) + (if in_table s' b then 1 else 0) \<le> state_refcount (st s' b)"
      if "allocated s' b"
      using that D(7) [of b] notH by (auto simp: e(2,3) tab count_list_0_iff split: if_splits)
    show "b \<in> set (ht_state_obj s') \<longleftrightarrow> in_table s' b \<and> indexed_by_obj (state_type (st s' b))"
      using D(8) notO by (auto simp: e(2,7) tab)
    show "distinct (ht_state_obj s')" using D(9) notO by (simp add: e(7))
    show "b = c" if "b \<in> set (ht_state_obj s')" "c \<in> set (ht_state_obj s')" "same_key env (st s' b) (st s' c)"
      using that D(10) key notO by (auto simp: e(2,7) split: if_splits)
  qed
qed

text \<open>
  The other operations add nothing to the tables: what is in them afterwards was there before and
  has kept its key.
\<close>

definition same_state :: "state_t \<Rightarrow> state_t \<Rightarrow> bool" where
  "same_state x y \<longleftrightarrow> state_obj x = state_obj y \<and> state_owner x = state_owner y \<and> state_export x = state_export y
     \<and> state_type x = state_type y \<and> stateid_other x = stateid_other y"

lemma table_inv_shrink:
  assumes inv: "table_inv env H s"
    and alloc: "\<And>a. allocated s' a \<Longrightarrow> allocated s a" "next_state s \<le> next_state s'"
    and other: "\<And>a. allocated s' a \<Longrightarrow> stateid_other (st s' a) = stateid_other (st s a)"
    and ids: "\<And>k a. ht_state_id s' k = Some a \<Longrightarrow>
      ht_state_id s k = Some a \<and> allocated s' a \<and> same_state (st s' a) (st s a)"
    and held: "\<And>a. a \<in> set H' \<Longrightarrow> allocated s' a"
    and refs: "\<And>a. allocated s' a \<Longrightarrow>
      int (count_list H' a) + (if in_table s' a then 1 else 0) \<le> state_refcount (st s' a)"
    and objs: "\<And>a. a \<in> set (ht_state_obj s') \<longleftrightarrow> a \<in> set (ht_state_obj s) \<and> in_table s' a"
      "distinct (ht_state_obj s')"
  shows "table_inv env H' s'"
proof -
  note D = table_invD [OF inv]
  have tab: "in_table s' a \<Longrightarrow> in_table s a \<and> same_state (st s' a) (st s a)" for a
    unfolding in_table_def using ids [of "stateid_other (st s' a)" a] by (auto simp: same_state_def)
  have obj: "same_state (st s' a) (st s a)" "a \<in> set (ht_state_obj s)" if "a \<in> set (ht_state_obj s')" for a
    using that objs(1) tab by blast+
  show ?thesis unfolding table_inv_def
  proof (intro conjI allI impI)
    fix b c k
    show "stateid_other (st s' b) = k" "allocated s' b" "attached env (st s' b)" if "ht_state_id s' k = Some b"
      using ids [OF that] D(1,3) [of k b] by (auto simp: same_state_def attached_def)
    show "b < next_state s'" if "allocated s' b" using D(4) [OF alloc(1) [OF that]] alloc(2) by simp
    show "b = c" if "allocated s' b" "allocated s' c" "stateid_other (st s' b) = stateid_other (st s' c)"
      using D(5) [OF alloc(1) [OF that(1)] alloc(1) [OF that(2)]] that other by simp
    show "allocated s' b" if "b \<in> set H'" using held [OF that] .
    show "int (count_list H' b) + (if in_table s' b then 1 else 0) \<le> state_refcount (st s' b)"
      if "allocated s' b" using refs [OF that] .
    show "b \<in> set (ht_state_obj s') \<longleftrightarrow> in_table s' b \<and> indexed_by_obj (state_type (st s' b))"
      using objs(1) D(8) tab by (metis same_state_def)
    show "distinct (ht_state_obj s')" by (rule objs(2))
    show "b = c" if "b \<in> set (ht_state_obj s')" "c \<in> set (ht_state_obj s')" "same_key env (st s' b) (st s' c)"
      using D(10) [OF obj(2) [OF that(1)] obj(2) [OF that(2)]] that(3) obj(1) [OF that(1)] obj(1) [OF that(2)]
      by (simp add: same_key_def same_state_def)
  qed
qed

lemma table_inv_add_fail:
  assumes inv: "table_inv env H s"
    and fail: "state_add_impl env ctx obj ty data owner None refer s = (status, r, s')" "status \<noteq> STATE_SUCCESS"
  shows "table_inv env H s' \<and> r = None"
proof (cases "export_ready env ctx")
  case False
  with assms show ?thesis by (simp add: state_add_impl_eq)
next
  case True
  let ?n = "next_state s"
  obtain ok s1 where set: "nfs4_State_Set env ?n (prepared env ctx obj ty data owner refer s) = (ok, s1)"
    by fastforce
  with True fail have "\<not> ok" and r: "r = None" and s': "s' = state_add_errout env obj (Some ?n) True ctx s1"
    by (auto simp: state_add_impl_eq split: if_splits)
  with State_Set_cases(4) [OF set] have "s1 = prepared env ctx obj ty data owner refer s" by simp
  then have e: "st s' = (st s)(?n := new_state env ctx obj ty data owner refer s)"
    "allocated s' = (allocated s)(?n := False)" "next_state s' = Suc ?n"
    "ht_state_id s' = ht_state_id s" "ht_state_obj s' = ht_state_obj s"
    by (simp_all add: s' state_add_errout_def free_state_def sal_parts Let_def)
  have unused: "\<not> allocated s ?n" using table_invD(4) [OF inv] by blast
  have notid: "ht_state_id s k \<noteq> Some ?n" for k using table_invD(2) [OF inv] unused by blast
  have tab: "in_table s' b \<longleftrightarrow> in_table s b" for b
    using notid by (cases "b = ?n") (simp_all add: in_table_def e)
  have "table_inv env H s'"
  proof (rule table_inv_shrink [OF inv])
    fix a k
    show "ht_state_id s k = Some a \<and> allocated s' a \<and> same_state (st s' a) (st s a)"
      if "ht_state_id s' k = Some a"
      using that notid [of k] table_invD(2) [OF inv, of k a] by (auto simp: e same_state_def)
    show "allocated s' a" if "a \<in> set H" using table_invD(6) [OF inv that] unused by (auto simp: e)
    show "int (count_list H a) + (if in_table s' a then 1 else 0) \<le> state_refcount (st s' a)" if "allocated s' a"
      using table_invD(7) [OF inv, of a] that by (auto simp: e tab split: if_splits)
  qed (use table_invD(8,9) [OF inv] in \<open>auto simp: e tab split: if_splits\<close>)
  with r show ?thesis by simp
qed

text \<open>Taking and dropping references.\<close>

lemma inc_state_t_ref_simps [simp]:
  "st (inc_state_t_ref a s) = (st s)(a := (st s a)\<lparr>state_refcount := state_refcount (st s a) + 1\<rparr>)"
  "allocated (inc_state_t_ref a s) = allocated s" "next_state (inc_state_t_ref a s) = next_state s"
  "ht_state_id (inc_state_t_ref a s) = ht_state_id s" "ht_state_obj (inc_state_t_ref a s) = ht_state_obj s"
  "files (inc_state_t_ref a s) = files s" "exp_state_list (inc_state_t_ref a s) = exp_state_list s"
  "nfs4_owners (inc_state_t_ref a s) = nfs4_owners s" "fsal (inc_state_t_ref a s) = fsal s"
  by (simp_all add: inc_state_t_ref_def sal_parts)

lemma table_inv_inc:
  assumes inv: "table_inv env H s" and a: "allocated s a"
  shows "table_inv env (a # H) (inc_state_t_ref a s)"
proof -
  have tab: "in_table (inc_state_t_ref a s) b \<longleftrightarrow> in_table s b" for b by (simp add: in_table_def)
  show ?thesis
  proof (rule table_inv_shrink [OF inv])
    fix b
    show "int (count_list (a # H) b) + (if in_table (inc_state_t_ref a s) b then 1 else 0)
        \<le> state_refcount (st (inc_state_t_ref a s) b)" if "allocated (inc_state_t_ref a s) b"
      using table_invD(7) [OF inv, of b] that by (auto simp: tab)
  qed (use table_invD(2,6,8,9) [OF inv] a in \<open>auto simp: tab same_state_def\<close>)
qed

lemma count_list_remove1: "count_list (remove1 a H) b = count_list H b - (if b = a then 1 else 0)"
  by (induction H) auto

lemma table_inv_dec:
  assumes inv: "table_inv env H s" and a: "a \<in> set H"
  shows "table_inv env (remove1 a H) (dec_nfs4_state_ref a s)"
proof -
  let ?s = "dec_nfs4_state_ref a s"
  note D = table_invD [OF inv]
  have alloc: "allocated s a" using D(6) [OF a] .
  have tab: "in_table ?s b \<longleftrightarrow> in_table s b" for b by (simp add: in_table_def)
  have one: "count_list H a \<ge> 1" using a count_list_0_iff [of H a] by linarith
  have freed: "\<not> in_table s a \<and> a \<notin> set (remove1 a H)" if "\<not> state_refcount (st s a) > 1"
  proof -
    have "int (count_list H a) + (if in_table s a then 1 else 0) \<le> 1" using D(7) [OF alloc] that by linarith
    then have "\<not> in_table s a" "count_list (remove1 a H) a = 0"
      using one by (auto simp: count_list_remove1 split: if_splits)
    then show ?thesis using count_list_0_iff [of "remove1 a H" a] by blast
  qed
  show ?thesis
  proof (rule table_inv_shrink [OF inv])
    fix b k
    show "ht_state_id s k = Some b \<and> allocated ?s b \<and> same_state (st ?s b) (st s b)" if "ht_state_id ?s k = Some b"
      using that D(1,2) [of k b] freed by (auto simp: same_state_def in_table_def)
    show "allocated ?s b" if "b \<in> set (remove1 a H)"
      using that freed D(6) [of b] set_remove1_subset [of a H] by auto
    show "int (count_list (remove1 a H) b) + (if in_table ?s b then 1 else 0) \<le> state_refcount (st ?s b)"
      if "allocated ?s b"
      using that D(7) [of b] one by (auto simp: tab count_list_remove1 split: if_splits)
  qed (use D(8,9) in \<open>auto simp: tab split: if_splits\<close>)
qed

text \<open>Removal: nothing happens to a state that is no longer in the table.\<close>

lemma state_del_locked_gone:
  "table_inv env H s \<Longrightarrow> allocated s a \<Longrightarrow> \<not> in_table s a \<Longrightarrow> state_del_locked env a s = s"
  by (simp add: state_del_locked_def State_Del_not_in_table)

lemma get_state_obj_ref_tables:
  fixes ids objs
  defines "t \<equiv> \<lambda>s. s\<lparr>ht_state_id := ids, ht_state_obj := objs\<rparr>"
  shows "get_state_obj_ref env a (t s) = map_prod id t (get_state_obj_ref env a s)"
proof (cases "state_export (st s a)")
  case None
  then show ?thesis by (simp add: t_def get_state_obj_ref_def)
next
  case (Some e)
  obtain r fs where "create_handle env e (state_obj (st s a)) (fsal s) = (r, fs)" by fastforce
  with Some show ?thesis by (cases r) (simp_all add: t_def get_state_obj_ref_def add_obj_ref_def)
qed

lemma state_del_locked_stale:
  assumes "table_inv env H s" "digests_prefix_free env" "in_table s a" "get_state_obj_ref env a s = (None, s2)"
  shows "state_del_locked env a s =
    s2\<lparr>ht_state_id := (ht_state_id s)(stateid_other (st s a) := None), ht_state_obj := remove1 a (ht_state_obj s)\<rparr>"
  by (simp add: state_del_locked_def State_Del_in_table [OF assms(1-3)] get_state_obj_ref_tables assms(4))

lemma get_state_obj_ref_None:
  assumes "get_state_obj_ref env a s = (None, s2)"
  shows "\<exists>fs. s2 = s\<lparr>fsal := fs\<rparr>"
  using get_state_obj_ref_cases [OF assms] by blast

lemma state_del_locked_found:
  assumes "table_inv env H s" "digests_prefix_free env" "in_table s a" "get_state_obj_ref env a s = (Some obj, s2)"
  shows "st (state_del_locked env a s) = (st s)(a := detached (st s a))"
    "allocated (state_del_locked env a s) =
      (if state_refcount (st s a) > 1 then allocated s else (allocated s)(a := False))"
    "next_state (state_del_locked env a s) = next_state s"
    "ht_state_id (state_del_locked env a s) = (ht_state_id s)(stateid_other (st s a) := None)"
    "ht_state_obj (state_del_locked env a s) = remove1 a (ht_state_obj s)"
    "list_of_states (files (state_del_locked env a s) f) = remove1 a (list_of_states (files s f))"
    "share_state (files (state_del_locked env a s) f) = share_state (files s f)"
    "exp_state_list (state_del_locked env a s) e = remove1 a (exp_state_list s e)"
    "so_state_list (nfs4_owners (state_del_locked env a s) w) = remove1 a (so_state_list (nfs4_owners s w))"
    "so_lock_list (nfs4_owners (state_del_locked env a s) w) = so_lock_list (nfs4_owners s w)"
proof -
  note del = State_Del_in_table [OF assms(1-3)]
  obtain s3 where obj: "get_state_obj_ref env a (s\<lparr>ht_state_id := (ht_state_id s)(stateid_other (st s a) := None),
      ht_state_obj := remove1 a (ht_state_obj s)\<rparr>) = (Some obj, s3)"
    using assms(4) by (simp add: get_state_obj_ref_tables)
  obtain w0 where own: "state_owner (st s a) = Some w0"
    using table_inv_attached [OF assms(1,3)] by (auto simp: attached_def)
  from state_del_locked_full [OF del obj own]
  show "st (state_del_locked env a s) = (st s)(a := detached (st s a))"
    "allocated (state_del_locked env a s) =
      (if state_refcount (st s a) > 1 then allocated s else (allocated s)(a := False))"
    "next_state (state_del_locked env a s) = next_state s"
    "ht_state_id (state_del_locked env a s) = (ht_state_id s)(stateid_other (st s a) := None)"
    "ht_state_obj (state_del_locked env a s) = remove1 a (ht_state_obj s)"
    "list_of_states (files (state_del_locked env a s) f) = remove1 a (list_of_states (files s f))"
    "share_state (files (state_del_locked env a s) f) = share_state (files s f)"
    "exp_state_list (state_del_locked env a s) e = remove1 a (exp_state_list s e)"
    "so_state_list (nfs4_owners (state_del_locked env a s) w) = remove1 a (so_state_list (nfs4_owners s w))"
    "so_lock_list (nfs4_owners (state_del_locked env a s) w) = so_lock_list (nfs4_owners s w)"
    by simp_all
qed

lemma table_inv_del:
  assumes inv: "table_inv env H s" "digests_prefix_free env" and alloc: "allocated s a"
  shows "table_inv env H (state_del_locked env a s)"
proof (cases "in_table s a")
  case False
  with inv alloc show ?thesis by (simp add: state_del_locked_gone)
next
  case True
  let ?s = "state_del_locked env a s"
  note D = table_invD [OF inv(1)]
  have two: "state_refcount (st s a) \<ge> 2" if "a \<in> set H"
    using D(7) [OF alloc] True that count_list_0_iff [of H a] by simp
  have E: "(\<forall>b. b \<noteq> a \<longrightarrow> allocated ?s b = allocated s b) \<and> (a \<in> set H \<longrightarrow> allocated ?s a)
      \<and> next_state ?s = next_state s \<and> ht_state_id ?s = (ht_state_id s)(stateid_other (st s a) := None)
      \<and> ht_state_obj ?s = remove1 a (ht_state_obj s) \<and> (\<forall>b. b \<noteq> a \<longrightarrow> st ?s b = st s b)
      \<and> stateid_other (st ?s a) = stateid_other (st s a) \<and> state_refcount (st s a) - 1 \<le> state_refcount (st ?s a)"
  proof (cases "get_state_obj_ref env a s")
    case (Pair r s2)
    show ?thesis
    proof (cases r)
      case None
      then obtain fs where "s2 = s\<lparr>fsal := fs\<rparr>" using get_state_obj_ref_None Pair by blast
      with None Pair alloc show ?thesis by (simp add: state_del_locked_stale [OF inv True])
    next
      case (Some obj)
      with Pair two alloc show ?thesis by (force simp add: state_del_locked_found [OF inv True])
    qed
  qed
  then have e: "\<And>b. b \<noteq> a \<Longrightarrow> allocated ?s b = allocated s b" "a \<in> set H \<Longrightarrow> allocated ?s a"
      "next_state ?s = next_state s" "ht_state_id ?s = (ht_state_id s)(stateid_other (st s a) := None)"
      "ht_state_obj ?s = remove1 a (ht_state_obj s)" "\<And>b. b \<noteq> a \<Longrightarrow> st ?s b = st s b"
      "stateid_other (st ?s a) = stateid_other (st s a)" "state_refcount (st s a) - 1 \<le> state_refcount (st ?s a)"
    by blast+
  have tab: "in_table ?s b \<longleftrightarrow> b \<noteq> a \<and> in_table s b" for b
    using True D(1) [of "stateid_other (st s a)" b] by (cases "b = a") (auto simp: in_table_def e)
  show ?thesis
  proof (rule table_inv_shrink [OF inv(1)])
    fix b k
    show "allocated s b" if "allocated ?s b" using that e(1) alloc by (cases "b = a") simp_all
    show "allocated ?s b" if "b \<in> set H" using that e(1,2) D(6) by (cases "b = a") simp_all
    show "stateid_other (st ?s b) = stateid_other (st s b)" using e(6,7) by (cases "b = a") simp_all
    show "ht_state_id s k = Some b \<and> allocated ?s b \<and> same_state (st ?s b) (st s b)" if "ht_state_id ?s k = Some b"
      using that D(1,2) [of k b] e(1) by (cases "b = a") (auto simp: e(4,6) same_state_def split: if_splits)
    show "int (count_list H b) + (if in_table ?s b then 1 else 0) \<le> state_refcount (st ?s b)" if "allocated ?s b"
      using that D(7) [of b] e(8) alloc True by (cases "b = a") (auto simp: tab e(1,6))
  qed (use D(8,9) in \<open>auto simp: tab e(3,5)\<close>)
qed

end
