(* ===== verification/State_Theorems.thy ===== *)
theory State_Theorems
  imports State_Safety
begin

text \<open>
  The lists of states by owner, export and file; the state machine of the tables; and the properties
  of the tables, with a small system for the instances.
\<close>

subsection \<open>The lists\<close>

text \<open>
  The back end finds every file again by the digest it gave.  This is what fails for a file that
  is gone.
\<close>

definition resolves :: "'fs sal_env \<Rightarrow> bool" where
  "resolves env \<longleftrightarrow> (\<forall>e f fs. \<exists>fs'. create_handle env e (handle_digest env f) fs = (Some f, fs'))"

lemma resolves_inj: "resolves env \<Longrightarrow> handle_digest env f = handle_digest env g \<longleftrightarrow> f = g"
  unfolding resolves_def by (metis option.inject prod.inject)

definition list_inv :: "'fs sal_env \<Rightarrow> 'fs sal \<Rightarrow> bool" where
  "list_inv env s \<longleftrightarrow>
    (\<forall>w a. a \<in> set (so_state_list (nfs4_owners s w)) \<longleftrightarrow> in_table s a \<and> state_owner (st s a) = Some w)
    \<and> (\<forall>e a. a \<in> set (exp_state_list s e) \<longleftrightarrow> in_table s a \<and> state_export (st s a) = Some e)
    \<and> (\<forall>f a. a \<in> set (list_of_states (files s f)) \<longleftrightarrow> in_table s a \<and> state_obj (st s a) = handle_digest env f)
    \<and> (\<forall>w. distinct (so_state_list (nfs4_owners s w))) \<and> (\<forall>e. distinct (exp_state_list s e))
    \<and> (\<forall>f. distinct (list_of_states (files s f)))"

lemma list_invD:
  assumes "list_inv env s"
  shows "a \<in> set (so_state_list (nfs4_owners s w)) \<longleftrightarrow> in_table s a \<and> state_owner (st s a) = Some w"
    "a \<in> set (exp_state_list s e) \<longleftrightarrow> in_table s a \<and> state_export (st s a) = Some e"
    "a \<in> set (list_of_states (files s f)) \<longleftrightarrow> in_table s a \<and> state_obj (st s a) = handle_digest env f"
    "distinct (so_state_list (nfs4_owners s w))" "distinct (exp_state_list s e)"
    "distinct (list_of_states (files s f))"
  using assms unfolding list_inv_def by blast+

lemma list_inv_same:
  assumes inv: "list_inv env s" and same: "\<And>a. in_table s' a \<longleftrightarrow> in_table s a"
    "\<And>a. in_table s a \<Longrightarrow> same_state (st s' a) (st s a)"
    and lists: "\<And>w. so_state_list (nfs4_owners s' w) = so_state_list (nfs4_owners s w)"
    "exp_state_list s' = exp_state_list s" "\<And>f. list_of_states (files s' f) = list_of_states (files s f)"
  shows "list_inv env s'"
proof -
  have "state_owner (st s' a) = state_owner (st s a) \<and> state_export (st s' a) = state_export (st s a)
      \<and> state_obj (st s' a) = state_obj (st s a)" if "in_table s a" for a
    using same(2) [OF that] by (simp add: same_state_def)
  then show ?thesis
    unfolding list_inv_def lists same(1) by (simp add: list_invD [OF inv] cong: conj_cong)
qed

lemma list_inv_add:
  assumes inv: "table_inv env H s" "list_inv env s" "resolves env"
    and add: "state_add_impl env ctx obj ty data owner None refer s = (STATE_SUCCESS, Some a, s')"
  shows "list_inv env s'"
proof -
  note e = state_add_success [OF add]
  note L = list_invD [OF inv(2)]
  have fresh: "\<not> allocated s a" using table_invD(4) [OF inv(1), of a] e(1) by auto
  have notT: "\<not> in_table s a" using table_inv_allocated [OF inv(1)] fresh by blast
  have notid: "ht_state_id s k \<noteq> Some a" for k using table_invD(2) [OF inv(1)] fresh by blast
  have tab: "in_table s' b \<longleftrightarrow> b = a \<or> in_table s b" for b
    using e(5) notid by (cases "b = a") (simp_all add: in_table_def e(2,6))
  have d: "handle_digest env obj = handle_digest env f \<longleftrightarrow> f = obj" for f
    using resolves_inj [OF inv(3), of obj f] by auto
  show ?thesis unfolding list_inv_def
  proof (intro conjI allI)
    fix b w x f
    show "b \<in> set (so_state_list (nfs4_owners s' w)) \<longleftrightarrow> in_table s' b \<and> state_owner (st s' b) = Some w"
      using L(1) notT by (auto simp: e(2,10) tab)
    show "b \<in> set (exp_state_list s' x) \<longleftrightarrow> in_table s' b \<and> state_export (st s' b) = Some x"
      using L(2) notT by (auto simp: e(2,9) tab)
    show "b \<in> set (list_of_states (files s' f)) \<longleftrightarrow> in_table s' b \<and> state_obj (st s' b) = handle_digest env f"
      using L(3) notT by (auto simp: e(2,11) tab d)
    show "distinct (so_state_list (nfs4_owners s' w))" using L(1,4) notT by (simp add: e(10))
    show "distinct (exp_state_list s' x)" using L(2,5) notT by (simp add: e(9))
    show "distinct (list_of_states (files s' f))" using L(3,6) notT by (simp add: e(11))
  qed
qed

lemma resolves_get:
  assumes "table_inv env H s" "resolves env" "in_table s a"
  obtains obj s2 where "get_state_obj_ref env a s = (Some obj, s2)" "state_obj (st s a) = handle_digest env obj"
proof -
  obtain f e where f: "state_obj (st s a) = handle_digest env f" and e: "state_export (st s a) = Some e"
    using table_inv_attached [OF assms(1,3)] by (auto simp: attached_def)
  obtain fs where "create_handle env e (handle_digest env f) (fsal s) = (Some f, fs)"
    using assms(2) unfolding resolves_def by blast
  with f e that show thesis by (auto simp: get_state_obj_ref_def)
qed

lemma list_inv_del:
  assumes inv: "table_inv env H s" "digests_prefix_free env" "list_inv env s" "resolves env" and alloc: "allocated s a"
  shows "list_inv env (state_del_locked env a s)"
proof (cases "in_table s a")
  case False
  with inv alloc show ?thesis by (simp add: state_del_locked_gone)
next
  case True
  let ?s = "state_del_locked env a s"
  obtain obj s2 where "get_state_obj_ref env a s = (Some obj, s2)" using resolves_get [OF inv(1,4) True] by metis
  note e = state_del_locked_found [OF inv(1,2) True this]
  note L = list_invD [OF inv(3)]
  have tab: "in_table ?s b \<longleftrightarrow> b \<noteq> a \<and> in_table s b" for b
    using True table_invD(1) [OF inv(1), of "stateid_other (st s a)" b] by (cases "b = a") (auto simp: in_table_def e)
  show ?thesis unfolding list_inv_def
  proof (intro conjI allI)
    fix b w x f
    show "b \<in> set (so_state_list (nfs4_owners ?s w)) \<longleftrightarrow> in_table ?s b \<and> state_owner (st ?s b) = Some w"
      "b \<in> set (exp_state_list ?s x) \<longleftrightarrow> in_table ?s b \<and> state_export (st ?s b) = Some x"
      "b \<in> set (list_of_states (files ?s f)) \<longleftrightarrow> in_table ?s b \<and> state_obj (st ?s b) = handle_digest env f"
      using L by (auto simp: e tab)
    show "distinct (so_state_list (nfs4_owners ?s w))" "distinct (exp_state_list ?s x)"
      "distinct (list_of_states (files ?s f))"
      using L by (simp_all add: e)
  qed
qed

subsection \<open>The state machine\<close>

definition sal_init :: "'fs sal \<Rightarrow> bool" where
  "sal_init s \<longleftrightarrow> ht_state_id s = (\<lambda>_. None) \<and> ht_state_obj s = [] \<and> allocated s = (\<lambda>_. False)
    \<and> (\<forall>w. so_state_list (nfs4_owners s w) = []) \<and> (\<forall>e. exp_state_list s e = [])
    \<and> (\<forall>f. list_of_states (files s f) = [])"

text \<open>
  One operation on the tables, with the references held before and after.  A state that is added
  gets a number that no state still in memory has: the counter of a client has 32 bits.  The last
  two steps are what the rest of the program does: changing the data or the sequence number of a
  state it holds, and everything that is not about states.
\<close>

inductive sal_step :: "'fs sal_env \<Rightarrow> nat list \<Rightarrow> 'fs sal \<Rightarrow> nat list \<Rightarrow> 'fs sal \<Rightarrow> bool" for env where
  step_add: "sal_step env H s (a # H) s'"
    if "state_add_impl env ctx obj ty data owner None refer s = (STATE_SUCCESS, Some a, s')"
      "\<And>b. allocated s b \<Longrightarrow> stateid_other (st s b) \<noteq> stateid_other (new_state env ctx obj ty data owner refer s)"
| step_add_fail: "sal_step env H s H s'"
    if "state_add_impl env ctx obj ty data owner None refer s = (status, r, s')" "status \<noteq> STATE_SUCCESS"
| step_get: "sal_step env H s (a # H) s'" if "nfs4_State_Get_Pointer other s = (Some a, s')"
| step_get_obj: "sal_step env H s (a # H) s'" if "nfs4_State_Get_Obj env obj owner s = (Some a, s')"
| step_del: "sal_step env H s H (state_del_locked env a s)" if "a \<in> set H"
| step_dec: "sal_step env H s (remove1 a H) (dec_nfs4_state_ref a s)" if "a \<in> set H"
| step_data: "sal_step env H s H (upd_st a f s)"
    if "a \<in> set H" "same_state (f (st s a)) (st s a)" "state_refcount (f (st s a)) = state_refcount (st s a)"
| step_rest: "sal_step env H s H s'"
    if "st s' = st s" "allocated s' = allocated s" "next_state s' = next_state s" "ht_state_id s' = ht_state_id s"
      "ht_state_obj s' = ht_state_obj s" "exp_state_list s' = exp_state_list s"
      "\<And>w. so_state_list (nfs4_owners s' w) = so_state_list (nfs4_owners s w)"
      "\<And>f. list_of_states (files s' f) = list_of_states (files s f)"

inductive sal_reach :: "'fs sal_env \<Rightarrow> nat list \<Rightarrow> 'fs sal \<Rightarrow> bool" for env where
  reach_init: "sal_init s \<Longrightarrow> sal_reach env [] s"
| reach_step: "sal_reach env H s \<Longrightarrow> sal_step env H s H' s' \<Longrightarrow> sal_reach env H' s'"

lemma table_inv_init: "sal_init s \<Longrightarrow> table_inv env [] s"
  by (simp add: table_inv_def sal_init_def in_table_def)

lemma list_inv_init: "sal_init s \<Longrightarrow> list_inv env s"
  by (simp add: list_inv_def sal_init_def in_table_def)

lemma table_inv_data:
  assumes inv: "table_inv env H s"
    and f: "same_state (f (st s a)) (st s a)" "state_refcount (f (st s a)) = state_refcount (st s a)"
  shows "table_inv env H (upd_st a f s)"
proof -
  let ?s = "upd_st a f s"
  have e: "st ?s = (st s)(a := f (st s a))" "allocated ?s = allocated s" "next_state ?s = next_state s"
    "ht_state_id ?s = ht_state_id s" "ht_state_obj ?s = ht_state_obj s" by (simp_all add: upd_st_def)
  have same: "same_state (st ?s b) (st s b)" "state_refcount (st ?s b) = state_refcount (st s b)" for b
    using f by (simp_all add: e same_state_def)
  have tab: "in_table ?s b \<longleftrightarrow> in_table s b" for b
    using same(1) [of b] by (simp add: in_table_def e(4) same_state_def)
  show ?thesis
    by (rule table_inv_shrink [OF inv])
      (use table_invD(2,6,7,8,9) [OF inv] same in \<open>auto simp: e(2-5) tab same_state_def\<close>)
qed

lemma find_state_obj_in:
  "table_inv env H s \<Longrightarrow> find_state_obj env d w s = Some a \<Longrightarrow> allocated s a"
  unfolding find_state_obj_def using find_SomeD table_invD(8) table_inv_allocated by metis

lemma sal_step_table:
  assumes "sal_step env H s H' s'" "digests_prefix_free env" "table_inv env H s"
  shows "table_inv env H' s'"
  using assms
proof cases
  case step_add
  then show ?thesis using table_inv_add [OF assms(3,2)] by simp
next
  case step_add_fail
  then show ?thesis using table_inv_add_fail [OF assms(3)] by simp
next
  case (step_get k a)
  then have "ht_state_id s k = Some a" "s' = inc_state_t_ref a s"
    by (auto simp: nfs4_State_Get_Pointer_def split: option.splits)
  then show ?thesis using table_inv_inc [OF assms(3)] table_invD(2) [OF assms(3)] step_get(1) by simp
next
  case (step_get_obj obj owner a)
  then have "find_state_obj env (handle_digest env obj) (Some owner) s = Some a" "s' = inc_state_t_ref a s"
    by (auto simp: nfs4_State_Get_Obj_def nfs4_State_Get_State_Obj_def split: option.splits)
  then show ?thesis using table_inv_inc [OF assms(3)] find_state_obj_in [OF assms(3)] step_get_obj(1) by simp
next
  case step_del
  then show ?thesis using table_inv_del [OF assms(3,2)] table_invD(6) [OF assms(3)] by simp
next
  case step_dec
  then show ?thesis using table_inv_dec [OF assms(3)] by simp
next
  case step_data
  then show ?thesis using table_inv_data [OF assms(3)] by simp
next
  case step_rest
  then show ?thesis using table_inv_frame [OF assms(3)] by simp
qed

lemma sal_reach_table: "sal_reach env H s \<Longrightarrow> digests_prefix_free env \<Longrightarrow> table_inv env H s"
  by (induction rule: sal_reach.induct) (blast intro: table_inv_init sal_step_table)+

text \<open>A failed addition leaves the states in the table and the lists as they were.\<close>

lemma state_add_fail_lists:
  assumes inv: "table_inv env H s"
    and fail: "state_add_impl env ctx obj ty data owner None refer s = (status, r, s')" "status \<noteq> STATE_SUCCESS"
  shows "in_table s' b \<longleftrightarrow> in_table s b" "in_table s b \<Longrightarrow> st s' b = st s b"
    "so_state_list (nfs4_owners s' w) = so_state_list (nfs4_owners s w)" "exp_state_list s' = exp_state_list s"
    "list_of_states (files s' f) = list_of_states (files s f)" "files s' = files s"
    "share_lockstates s' = share_lockstates s"
proof -
  let ?n = "next_state s"
  obtain ok s1 where set: "nfs4_State_Set env ?n (prepared env ctx obj ty data owner refer s) = (ok, s1)"
    by fastforce
  have s': "s' = s \<or> s' = state_add_errout env obj (Some ?n) True ctx (prepared env ctx obj ty data owner refer s)"
    using fail set State_Set_cases(4) [OF set] by (auto simp: state_add_impl_eq split: if_splits)
  have unused: "\<not> allocated s ?n" using table_invD(4) [OF inv] by blast
  then have notid: "ht_state_id s k \<noteq> Some ?n" for k using table_invD(2) [OF inv] by blast
  have st': "st s' = st s \<or> st s' = (st s)(?n := new_state env ctx obj ty data owner refer s)"
    "ht_state_id s' = ht_state_id s"
    using s' by (auto simp: state_add_errout_def free_state_def sal_parts Let_def)
  show "in_table s' b \<longleftrightarrow> in_table s b"
    using st'(1) notid [of "stateid_other (st s b)"] notid [of "stateid_other (st s' b)"]
    by (cases "b = ?n") (auto simp: in_table_def st'(2))
  show "in_table s b \<Longrightarrow> st s' b = st s b"
    using st'(1) notid [of "stateid_other (st s b)"] by (cases "b = ?n") (auto simp: in_table_def)
  show "so_state_list (nfs4_owners s' w) = so_state_list (nfs4_owners s w)" "exp_state_list s' = exp_state_list s"
    "list_of_states (files s' f) = list_of_states (files s f)" "files s' = files s"
    "share_lockstates s' = share_lockstates s"
    using s' by (auto simp: state_add_errout_def free_state_def sal_parts Let_def)
qed

lemma list_inv_inc: "list_inv env s \<Longrightarrow> list_inv env (inc_state_t_ref a s)"
  by (erule list_inv_same) (auto simp: in_table_def same_state_def)

lemma list_inv_dec: "list_inv env s \<Longrightarrow> list_inv env (dec_nfs4_state_ref a s)"
  by (erule list_inv_same) (auto simp: in_table_def same_state_def)

lemma sal_step_lists:
  assumes "sal_step env H s H' s'" "digests_prefix_free env" "resolves env" "table_inv env H s" "list_inv env s"
  shows "list_inv env s'"
  using assms
proof cases
  case step_add
  then show ?thesis using list_inv_add [OF assms(4,5,3)] by simp
next
  case (step_add_fail ctx obj ty data owner refer status r)
  note f = state_add_fail_lists [OF assms(4) step_add_fail(2,3)]
  show ?thesis by (rule list_inv_same [OF assms(5)]) (simp_all add: f same_state_def)
next
  case (step_get k a)
  then show ?thesis using list_inv_inc [OF assms(5)]
    by (auto simp: nfs4_State_Get_Pointer_def split: option.splits)
next
  case (step_get_obj obj owner a)
  then show ?thesis using list_inv_inc [OF assms(5)]
    by (auto simp: nfs4_State_Get_Obj_def nfs4_State_Get_State_Obj_def split: option.splits)
next
  case step_del
  then show ?thesis using list_inv_del [OF assms(4,2,5,3)] table_invD(6) [OF assms(4)] by simp
next
  case step_dec
  then show ?thesis using list_inv_dec [OF assms(5)] by simp
next
  case (step_data a f)
  then show ?thesis
    by (intro list_inv_same [OF assms(5)]) (auto simp: upd_st_def in_table_def same_state_def)
next
  case step_rest
  then show ?thesis by (intro list_inv_same [OF assms(5)]) (simp_all add: in_table_def same_state_def)
qed

lemma sal_reach_lists:
  "sal_reach env H s \<Longrightarrow> digests_prefix_free env \<Longrightarrow> resolves env \<Longrightarrow> list_inv env s"
  by (induction rule: sal_reach.induct) (blast intro: list_inv_init sal_step_lists sal_reach_table)+

subsection \<open>Releasing the states of an owner\<close>

lemma state_del_eq:
  assumes inv: "table_inv env H s" "resolves env" "in_table s a"
  obtains obj s2 where "state_del env a s = add_obj_ref obj (- 1) (state_del_locked env a s2)"
    "st s2 = st s" "allocated s2 = allocated s" "next_state s2 = next_state s" "ht_state_id s2 = ht_state_id s"
    "ht_state_obj s2 = ht_state_obj s" "nfs4_owners s2 = nfs4_owners s" "exp_state_list s2 = exp_state_list s"
    "files s2 = files s"
proof -
  obtain obj s2 where g: "get_state_obj_ref env a s = (Some obj, s2)" using resolves_get [OF inv] by metis
  then obtain fs where "s2 = add_obj_ref obj 1 (s\<lparr>fsal := fs\<rparr>)"
    using get_state_obj_ref_cases [OF g] by blast
  with g that [of obj s2] show thesis by (simp add: state_del_def)
qed

text \<open>One iteration: the first state of the owner is gone from the table and from the list.\<close>

lemma release_step:
  assumes inv: "table_inv env H s" "digests_prefix_free env" "list_inv env s" "resolves env"
    and list: "so_state_list (nfs4_owners s w) = a # as"
  defines "s' \<equiv> dec_nfs4_state_ref a (state_del env a (inc_state_t_ref a s))"
  shows "table_inv env H s'" "list_inv env s'" "so_state_list (nfs4_owners s' w) = as"
    "\<And>b. b \<noteq> a \<Longrightarrow> st s' b = st s b" "\<And>b. in_table s' b \<longleftrightarrow> b \<noteq> a \<and> in_table s b"
proof -
  let ?i = "inc_state_t_ref a s"
  have a: "in_table s a" "state_owner (st s a) = Some w" using list_invD(1) [OF inv(3), of a w] list by simp_all
  have i: "table_inv env (a # H) ?i" "list_inv env ?i" "in_table ?i a"
    using table_inv_inc [OF inv(1) table_inv_allocated [OF inv(1) a(1)]] list_inv_inc [OF inv(3)] a(1)
    by (simp_all add: in_table_def)
  obtain obj s2 where d: "state_del env a ?i = add_obj_ref obj (- 1) (state_del_locked env a s2)"
    and e: "st s2 = st ?i" "allocated s2 = allocated ?i" "next_state s2 = next_state ?i"
      "ht_state_id s2 = ht_state_id ?i" "ht_state_obj s2 = ht_state_obj ?i" "nfs4_owners s2 = nfs4_owners ?i"
      "exp_state_list s2 = exp_state_list ?i" "files s2 = files ?i"
    using state_del_eq [OF i(1) inv(4) i(3)] by metis
  have s2: "table_inv env (a # H) s2" using table_inv_frame [OF i(1) e(1-5)] .
  have l2: "list_inv env s2" using i(2) unfolding list_inv_def in_table_def e .
  have t2: "in_table s2 a" using a(1) by (simp add: in_table_def e)
  obtain obj' s3 where "get_state_obj_ref env a s2 = (Some obj', s3)" using resolves_get [OF s2 inv(4) t2] by metis
  note f = state_del_locked_found [OF s2 inv(2) t2 this]
  let ?d = "state_del_locked env a s2"
  have td: "table_inv env (a # H) ?d" "list_inv env ?d"
    using table_inv_del [OF s2 inv(2)] list_inv_del [OF s2 inv(2) l2 inv(4)] table_invD(6) [OF s2, of a] by simp_all
  have td': "table_inv env (a # H) (add_obj_ref obj (- 1) ?d)" by (rule table_inv_frame [OF td(1)]) simp_all
  have s': "s' = dec_nfs4_state_ref a (add_obj_ref obj (- 1) ?d)" by (simp add: s'_def d)
  show "table_inv env H s'" using table_inv_dec [OF td', of a] by (simp add: s')
  have "list_inv env (add_obj_ref obj (- 1) ?d)" by (rule list_inv_same [OF td(2)]) (simp_all add: in_table_def same_state_def)
  then show "list_inv env s'" unfolding s' by (rule list_inv_dec)
  have "a \<notin> set as" using list_invD(4) [OF inv(3), of w] list by simp
  then show "so_state_list (nfs4_owners s' w) = as" using list by (simp add: s' f e)
  show "st s' b = st s b" if "b \<noteq> a" for b using that by (simp add: s' f e)
  show "in_table s' b \<longleftrightarrow> b \<noteq> a \<and> in_table s b" for b
    using table_invD(1) [OF inv(1), of "stateid_other (st s a)" b] a(1)
    by (cases "b = a") (auto simp: in_table_def s' f e)
qed

lemma release_states_returns:
  assumes "table_inv env H s" "digests_prefix_free env" "list_inv env s" "resolves env"
  shows "\<exists>s'. release_states env w s = Some s' \<and> table_inv env H s' \<and> list_inv env s'
    \<and> so_state_list (nfs4_owners s' w) = []
    \<and> (\<forall>b. in_table s' b \<longleftrightarrow> in_table s b \<and> state_owner (st s b) \<noteq> Some w)"
  using assms(1,3)
proof (induction "so_state_list (nfs4_owners s w)" arbitrary: s)
  case Nil
  then show ?case using list_invD(1) [OF Nil(3), of _ w] by (subst release_states.simps) auto
next
  case (Cons a as)
  let ?s = "dec_nfs4_state_ref a (state_del env a (inc_state_t_ref a s))"
  note r = release_step [OF Cons.prems(1) assms(2) Cons.prems(2) assms(4) Cons.hyps(2) [symmetric]]
  have a: "state_owner (st s a) = Some w" using list_invD(1) [OF Cons.prems(2), of a w] Cons.hyps(2) [symmetric] by simp
  obtain s' where s': "release_states env w ?s = Some s'" "table_inv env H s'" "list_inv env s'"
    "so_state_list (nfs4_owners s' w) = []"
    "\<forall>b. in_table s' b \<longleftrightarrow> in_table ?s b \<and> state_owner (st ?s b) \<noteq> Some w"
    using Cons.hyps(1) [OF r(3) [symmetric] r(1,2)] by blast
  have "in_table s' b \<longleftrightarrow> in_table s b \<and> state_owner (st s b) \<noteq> Some w" for b
    using s'(5) r(4) [of b] r(5) [of b] a by (cases "b = a") auto
  then show ?case using s' Cons.hyps(2) [symmetric] by (subst release_states.simps) simp
qed

text \<open>
  If the first state of the owner cannot be resolved, an iteration changes neither the list nor
  the state, and the loop does not end.
\<close>

definition stuck :: "'fs sal_env \<Rightarrow> nat \<Rightarrow> 'fs sal \<Rightarrow> bool" where
  "stuck env w s \<longleftrightarrow>
    (\<exists>a as e. so_state_list (nfs4_owners s w) = a # as \<and> state_export (st s a) = Some e
       \<and> state_refcount (st s a) > 0 \<and> (\<forall>fs. fst (create_handle env e (state_obj (st s a)) fs) = None))"

lemma stuck_step:
  assumes "stuck env w s"
  obtains a as where "so_state_list (nfs4_owners s w) = a # as"
    "stuck env w (dec_nfs4_state_ref a (state_del env a (inc_state_t_ref a s)))"
proof -
  obtain a as e where a: "so_state_list (nfs4_owners s w) = a # as" "state_export (st s a) = Some e"
    "state_refcount (st s a) > 0" "\<forall>fs. fst (create_handle env e (state_obj (st s a)) fs) = None"
    using assms unfolding stuck_def by blast
  obtain fs where "create_handle env e (state_obj (st s a)) (fsal s) = (None, fs)"
    using a(4) by (metis prod.collapse)
  then have "state_del env a (inc_state_t_ref a s) = (inc_state_t_ref a s)\<lparr>fsal := fs\<rparr>"
    using a(2) by (simp add: state_del_def get_state_obj_ref_def)
  then have "stuck env w (dec_nfs4_state_ref a (state_del env a (inc_state_t_ref a s)))"
    unfolding stuck_def using a by (intro exI [of _ a] exI [of _ as] exI [of _ e]) simp
  with a(1) that show thesis by blast
qed

lemma release_states_stuck:
  assumes "release_states env w s = Some s'"
  shows "\<not> stuck env w s"
proof (rule release_states.raw_induct [OF _ assms, where P = "\<lambda>env w s s'. \<not> stuck env w s"])
  fix rec :: "'a sal_env \<Rightarrow> nat \<Rightarrow> 'a sal \<Rightarrow> 'a sal option" and env w s s'
  assume IH: "\<And>env w s s'. rec env w s = Some s' \<Longrightarrow> \<not> stuck env w s"
    and eq: "(case so_state_list (nfs4_owners s w) of [] \<Rightarrow> Some s
      | a # _ \<Rightarrow> rec env w (dec_nfs4_state_ref a (state_del env a (inc_state_t_ref a s)))) = Some s'"
  show "\<not> stuck env w s"
  proof
    assume "stuck env w s"
    from stuck_step [OF this] obtain a as where a: "so_state_list (nfs4_owners s w) = a # as"
      "stuck env w (dec_nfs4_state_ref a (state_del env a (inc_state_t_ref a s)))" by blast
    with IH eq show False by simp
  qed
qed

subsection \<open>Reference counts of exports\<close>

lemma exp_refcount_add:
  assumes "state_add_impl env ctx obj ty data owner None refer s = (STATE_SUCCESS, Some a, s')"
  shows "exp_refcount s' = (exp_refcount s)(ctx := exp_refcount s ctx + 1)"
proof -
  obtain ok s1 where set: "nfs4_State_Set env (next_state s) (prepared env ctx obj ty data owner refer s) = (ok, s1)"
    by fastforce
  with assms have "ok" "s' = state_add_attach ctx obj owner (next_state s) s1"
    by (auto simp: state_add_impl_eq split: if_splits)
  with State_Set_cases(3) [OF set] show ?thesis
    by (simp add: state_add_attach_def prepared_def alloc_state_def nfs4_BuildStateId_Other_def sal_parts Let_def)
qed

lemma exp_refcount_del:
  assumes inv: "table_inv env H s" "digests_prefix_free env" "in_table s a" "get_state_obj_ref env a s = (Some obj, s2)"
    and e: "state_export (st s a) = Some e"
  shows "exp_refcount (state_del_locked env a s) = (exp_refcount s)(e := exp_refcount s e - 1)"
proof -
  obtain s3 where obj: "get_state_obj_ref env a (s\<lparr>ht_state_id := (ht_state_id s)(stateid_other (st s a) := None),
      ht_state_obj := remove1 a (ht_state_obj s)\<rparr>) = (Some obj, s3)"
    using inv(4) by (simp add: get_state_obj_ref_tables)
  obtain w where w: "state_owner (st s a) = Some w"
    using table_inv_attached [OF inv(1,3)] by (auto simp: attached_def)
  note del = state_del_locked_stages [OF State_Del_in_table [OF inv(1-3)] obj w]
  have stage: "exp_refcount (add_obj_ref obj n x) = exp_refcount x"
    "exp_refcount (dec_nfs4_state_ref a x) = exp_refcount x" "exp_refcount (state_del_type a obj x) = exp_refcount x"
    "exp_refcount (state_del_owner env a w x) = exp_refcount x"
    "exp_refcount (state_del_file env a obj x) = exp_refcount x"
    "exp_refcount (state_del_export a (Some e) x) = (exp_refcount x)(e := exp_refcount x e - 1)"
    for n and x :: "'a sal"
    by (simp_all add: add_obj_ref_def dec_nfs4_state_ref_def free_state_def state_del_type_def state_del_owner_def
        state_del_file_def state_del_export_def upd_st_def upd_file_def upd_owner_def add_owner_ref_def
        add_exp_ref_def Let_def)
  show ?thesis
    using del(2) by (auto simp: del(1) e stage)
qed

subsection \<open>A small system\<close>

definition small_env :: "unit sal_env" where
  "small_env = \<lparr>own_env = \<lparr>owners = (\<lambda>i. \<lparr>so_type = STATE_LOCK_OWNER_NFSV4, so_owner_val = [],
       so_owner = So_nfs4 (of_nat i)\<rparr>), nlm_clients = undefined, nsm_clients = undefined,
       nsm_use_caller_name = False\<rparr>,
     lease_lifetime = 60, export_ready = (\<lambda>_. True), support_ex = (\<lambda>_. False),
     handle_digest = (\<lambda>f. replicate f 1 @ [0]), create_handle = (\<lambda>_ d fs. (Some (length d - 1), fs)),
     close2 = (\<lambda>_ _ fs. fs)\<rparr>"

definition small_sal :: "unit sal" where
  "small_sal = \<lparr>st = (\<lambda>_. empty_state), allocated = (\<lambda>_. False), next_state = 0, ht_state_id = (\<lambda>_. None),
     ht_state_obj = [],
     files = (\<lambda>_. \<lparr>list_of_states = [], share_state = \<lparr>share_access_read = 0, share_access_write = 0,
       share_deny_read = 0, share_deny_write = 0, share_deny_write_v4 = 0\<rparr>, write_delegated = False, anon_ops = 0\<rparr>),
     nfs4_owners = (\<lambda>_. \<lparr>so_clientrec = 0, so_seqid = 0, so_argop = 0, so_last_entry = None,
       so_resp = \<lparr>resop = 0, resp_status = NFS4_OK, resp_stateid = \<lparr>sid_seqid = 0, sid_other = (0, 0)\<rparr>\<rparr>, so_state_list = [], so_lock_list = [], cache_expire = 0,
       so_refcount = 1\<rparr>),
     clients = (\<lambda>_. \<lparr>cid_clientid = 5, cid_last_renew = 0, cid_confirmed = CONFIRMED_CLIENT_ID, cid_refcount = 1,
       cid_lease_reservations = 0, cid_stateid_counter = 0\<rparr>),
     exp_state_list = (\<lambda>_. []), share_lockstates = (\<lambda>_. []), cached_open_owners = [], exp_refcount = (\<lambda>_. 1),
     obj_refcount = (\<lambda>_. 1), clock = 0, fsal = ()\<rparr>"

text \<open>Owner 3 has a lock state on file 2.\<close>

definition one_state :: "unit sal" where
  "one_state = snd (snd (state_add_impl small_env 0 2 STATE_TYPE_LOCK (Lock_data 7) 3 None None small_sal))"

lemma take_digest: "take (Suc f) (replicate g 1 @ [0] @ z) = replicate f 1 @ [0 :: byte] \<longleftrightarrow> f = g"
proof
  assume eq: "take (Suc f) (replicate g 1 @ [0] @ z) = replicate f 1 @ [0 :: byte]"
  have same: "(replicate f 1 @ [0 :: byte]) ! i = (replicate g 1 @ [0] @ z) ! i" if "i \<le> f" for i
    using that by (metis eq le_imp_less_Suc nth_take)
  show "f = g"
  proof (rule ccontr)
    assume "f \<noteq> g"
    then consider "f < g" | "g < f" by linarith
    then show False
    proof cases
      case 1
      then show False using same [of f] by (simp add: nth_append)
    next
      case 2
      then show False using same [of g] by (simp add: nth_append)
    qed
  qed
qed simp

lemma small_env_digests: "digests_prefix_free small_env"
  using take_digest by (fastforce simp: digests_prefix_free_def small_env_def)

lemma small_env_resolves: "resolves small_env"
  by (simp add: resolves_def small_env_def)

lemma one_state_add:
  "state_add_impl small_env 0 2 STATE_TYPE_LOCK (Lock_data 7) 3 None None small_sal = (STATE_SUCCESS, Some 0, one_state)"
  unfolding one_state_def state_add_impl_eq
  by (simp add: nfs4_State_Set_def find_state_obj_def small_env_def small_sal_def new_state_def Let_def)

lemma one_state_reach: "sal_reach small_env [0] one_state"
proof (rule reach_step [OF reach_init step_add [OF one_state_add]])
  show "sal_init small_sal" by (simp add: sal_init_def small_sal_def)
qed (simp add: small_sal_def)

lemma one_state_eq:
  "ht_state_id one_state = [(5, 1) \<mapsto> 0]" "stateid_other (st one_state 0) = (5, 1)"
  "so_state_list (nfs4_owners one_state 3) = [0]" "so_lock_list (nfs4_owners one_state 3) = []"
  using state_add_success [OF one_state_add] by (simp_all add: small_sal_def new_state_def)

subsection \<open>Properties\<close>

text \<open>C2: in every state the tables of NFSv4 states can reach, with any order of creating, looking up,
  removing and releasing states, what a stateid leads to has not been freed, has that stateid and
  is referenced; every state a caller holds has not been freed; and no two open or lock states are
  for the same file and the same owner.\<close>

theorem states_never_dangle:
  assumes "sal_reach env H s" "digests_prefix_free env"
  shows "(\<forall>k a. ht_state_id s k = Some a \<longrightarrow> allocated s a \<and> stateid_other (st s a) = k \<and> state_refcount (st s a) \<ge> 1)
    \<and> (\<forall>a. a \<in> set H \<longrightarrow> allocated s a \<and> state_refcount (st s a) \<ge> int (count_list H a))
    \<and> (\<forall>a b. in_table s a \<longrightarrow> in_table s b \<longrightarrow> indexed_by_obj (state_type (st s a)) \<longrightarrow>
         indexed_by_obj (state_type (st s b)) \<longrightarrow> same_key env (st s a) (st s b) \<longrightarrow> a = b)"
proof -
  note D = table_invD [OF sal_reach_table [OF assms]]
  show ?thesis
  proof (intro conjI allI impI)
    fix k a b
    show "allocated s a" "stateid_other (st s a) = k" "state_refcount (st s a) \<ge> 1" if "ht_state_id s k = Some a"
      using D(7) [OF D(2) [OF that]] D(1,2) [OF that] that by (simp_all add: in_table_def)
    show "allocated s a" "state_refcount (st s a) \<ge> int (count_list H a)" if "a \<in> set H"
      using D(7) [OF D(6) [OF that]] D(6) [OF that] by (simp_all split: if_splits)
    show "a = b" if "in_table s a" "in_table s b" "indexed_by_obj (state_type (st s a))"
      "indexed_by_obj (state_type (st s b))" "same_key env (st s a) (st s b)"
      using D(10) [of a b] that by (simp add: D(8))
  qed
qed

theorem states_never_dangle_witness:
  "sal_reach small_env [0] one_state \<and> ht_state_id one_state (5, 1) = Some 0 \<and> allocated one_state 0
   \<and> state_refcount (st one_state 0) \<ge> 1"
  using states_never_dangle [OF one_state_reach small_env_digests] one_state_reach one_state_eq(1) by simp

text \<open>C14: a state that was just created is found by its stateid and, if it is an open or lock state, by its
  file and owner; removing it brings back both tables, the lists of the owner, of the export and
  of the file, and the reference count of the export, and it is freed when its creator drops its
  reference.\<close>

theorem state_add_del_roundtrip:
  assumes reach: "sal_reach env H s" "digests_prefix_free env" "resolves env"
    and add: "state_add_impl env ctx obj ty data owner None refer s = (STATE_SUCCESS, Some a, s')"
    and new: "\<And>b. allocated s b \<Longrightarrow> stateid_other (st s b) \<noteq> stateid_other (new_state env ctx obj ty data owner refer s)"
  defines "s'' \<equiv> state_del_locked env a s'"
  shows "fst (nfs4_State_Get_Pointer (stateid_other (st s' a)) s') = Some a
    \<and> (indexed_by_obj ty \<longrightarrow> fst (nfs4_State_Get_Obj env obj owner s') = Some a)
    \<and> ht_state_id s'' = ht_state_id s \<and> ht_state_obj s'' = ht_state_obj s
    \<and> so_state_list (nfs4_owners s'' w) = so_state_list (nfs4_owners s w)
    \<and> exp_state_list s'' e = exp_state_list s e \<and> list_of_states (files s'' f) = list_of_states (files s f)
    \<and> exp_refcount s'' = exp_refcount s
    \<and> allocated s'' a \<and> \<not> allocated (dec_nfs4_state_ref a s'') a"
proof -
  note inv = sal_reach_table [OF reach(1,2)] and L = list_invD [OF sal_reach_lists [OF reach]]
  note e = state_add_success [OF add]
  note inv' = table_inv_add [OF inv reach(2) add new]
  have tab: "in_table s' a" by (simp add: in_table_def e(2,6))
  have fresh: "\<not> in_table s a" using table_invD(4) [OF inv, of a] table_inv_allocated [OF inv, of a] e(1) by auto
  obtain o' s2 where get: "get_state_obj_ref env a s' = (Some o', s2)" using resolves_get [OF inv' reach(3) tab] by metis
  note d = state_del_locked_found [OF inv' reach(2) tab get]
  have objs: "a \<notin> set (ht_state_obj s)" using table_invD(8) [OF inv] fresh by simp
  have "exp_refcount s'' = exp_refcount s"
    using exp_refcount_del [OF inv' reach(2) tab get] exp_refcount_add [OF add] by (simp add: s''_def e(2))
  moreover have "fst (nfs4_State_Get_Obj env obj owner s') = Some a" if "indexed_by_obj ty"
    using find_state_obj_Some [OF inv' reach(2) tab] that
    by (simp add: nfs4_State_Get_Obj_def nfs4_State_Get_State_Obj_def e(2))
  ultimately show ?thesis
    using e(5) objs L(1-3) fresh tab
    by (simp add: s''_def d e(2-7,9-14) nfs4_State_Get_Pointer_def in_table_def fun_upd_idem remove1_append remove1_idem)
qed

theorem state_add_del_roundtrip_witness:
  "fst (nfs4_State_Get_Obj small_env 2 3 one_state) = Some 0
   \<and> ht_state_id (state_del_locked small_env 0 one_state) = (\<lambda>_. None)
   \<and> list_of_states (files (state_del_locked small_env 0 one_state) 2) = []
   \<and> exp_refcount (state_del_locked small_env 0 one_state) = exp_refcount small_sal"
proof -
  have init: "sal_reach small_env [] small_sal" by (rule reach_init) (simp add: sal_init_def small_sal_def)
  show ?thesis
    using state_add_del_roundtrip [OF init small_env_digests small_env_resolves one_state_add, of 0 0 2]
    by (simp add: small_sal_def indexed_by_obj_def)
qed

text \<open>C24: releasing a lock owner returns if the back end resolves the handles of files: it refuses an owner
  that has locks and changes nothing; otherwise all states of the owner are gone from the table and
  from the list of the owner, and exactly the states of other owners are left.\<close>

theorem release_lock_owner_returns:
  assumes "sal_reach env H s" "digests_prefix_free env" "resolves env"
  shows "\<exists>r s'. release_lock_owner env w s = Some (r, s')
    \<and> (if so_lock_list (nfs4_owners s w) \<noteq> [] then r = NFS4ERR_LOCKS_HELD \<and> s' = s
       else r = NFS4_OK \<and> so_state_list (nfs4_owners s' w) = []
         \<and> (\<forall>a. in_table s' a \<longleftrightarrow> in_table s a \<and> state_owner (st s a) \<noteq> Some w))"
  using release_states_returns [OF sal_reach_table [OF assms(1,2)] assms(2) sal_reach_lists [OF assms] assms(3), of w]
  by (auto simp: release_lock_owner_def)

theorem release_lock_owner_returns_witness:
  "\<exists>s'. release_lock_owner small_env 3 one_state = Some (NFS4_OK, s') \<and> so_state_list (nfs4_owners s' 3) = []
    \<and> \<not> in_table s' 0"
  using release_lock_owner_returns [OF one_state_reach small_env_digests small_env_resolves, of 3] one_state_eq(4)
    state_add_success(2) [OF one_state_add] by auto

text \<open>C27: if the back end no longer resolves the handle of the file of the first state of a lock owner,
  releasing that owner does not return: the loop takes the same state again and again.\<close>

theorem release_lock_owner_stale_loops:
  assumes "so_lock_list (nfs4_owners s w) = []" "so_state_list (nfs4_owners s w) = a # as"
    "state_export (st s a) = Some e" "state_refcount (st s a) > 0"
    "\<And>fs. fst (create_handle env e (state_obj (st s a)) fs) = None"
  shows "release_lock_owner env w s = None"
proof -
  have "stuck env w s" using assms(2-5) unfolding stuck_def by blast
  then have "release_states env w s = None" using release_states_stuck by fastforce
  with assms(1) show ?thesis by (simp add: release_lock_owner_def)
qed

theorem release_lock_owner_stale_loops_witness:
  "release_lock_owner (small_env\<lparr>create_handle := \<lambda>_ _ fs. (None, fs)\<rparr>) 3 one_state = None"
  using release_lock_owner_stale_loops [of one_state 3 0 "[]" 0 "small_env\<lparr>create_handle := \<lambda>_ _ fs. (None, fs)\<rparr>"]
    one_state_eq state_add_success(2) [OF one_state_add] by simp

end
