(* ===== verification/File_Handle.thy ===== *)
theory File_Handle
  imports Status_Codes
begin

text \<open>
  File handles of NFSv3 and NFSv4, \<^verbatim>\<open>support/nfs_filehandle_mgmt.c\<close> and \<^verbatim>\<open>include/nfs_file_handle.h\<close>.  A
  handle is five bytes (version, flags, the number of the export in network byte order, the length
  of the rest) and the digest that the back end gives for the file.  The back end is an argument:
  the digest routine, which says whether it has failed and what it has written.
\<close>

unbundle bit_operations_syntax

subsection \<open>Handles\<close>

abbreviation (input) NFS3_FHSIZE :: nat where "NFS3_FHSIZE \<equiv> 64"
abbreviation (input) NFS4_FHSIZE :: nat where "NFS4_FHSIZE \<equiv> 128"
abbreviation (input) GANESHA_FH_VERSION :: byte where "GANESHA_FH_VERSION \<equiv> 0x43"
abbreviation (input) FILE_HANDLE_V4_FLAG_DS :: byte where "FILE_HANDLE_V4_FLAG_DS \<equiv> 0x01"
abbreviation (input) FH_FSAL_BIG_ENDIAN :: byte where "FH_FSAL_BIG_ENDIAN \<equiv> 0x40"

text \<open>The length that goes over the wire, and the buffer.\<close>

record nfs_fh =
  fh_len :: nat
  fh_val :: "byte list option"

text \<open>The fields of \<^verbatim>\<open>file_handle_v3_t\<close> and \<^verbatim>\<open>file_handle_v4_t\<close>, which have the same offsets.\<close>

definition fhversion :: "byte list \<Rightarrow> byte" where "fhversion h = h ! 0"
definition fhflags1 :: "byte list \<Rightarrow> byte" where "fhflags1 h = h ! 1"
definition fs_len :: "byte list \<Rightarrow> nat" where "fs_len h = unat (h ! 4)"
definition fsopaque :: "byte list \<Rightarrow> byte list" where "fsopaque h = take (fs_len h) (drop 5 h)"

text \<open>\<^verbatim>\<open>ntohs\<close> of the field with the number of the export.\<close>

definition exportid :: "byte list \<Rightarrow> 16 word" where
  "exportid h = (push_bit 8 (ucast (h ! 2)) OR ucast (h ! 3))"

datatype object_file_type_t =
    NO_FILE_TYPE | REGULAR_FILE | CHARACTER_FILE | BLOCK_FILE | SYMBOLIC_LINK | SOCKET_FILE | FIFO_FILE
  | DIRECTORY | EXTENDED_ATTR

definition nfs3_sizeof_handle :: "byte list \<Rightarrow> nat" where
  "nfs3_sizeof_handle h =
    (let hsize = 5 + fs_len h;
         aligned_hsize = (hsize + 3) div 4 * 4
     in if aligned_hsize \<le> NFS3_FHSIZE then aligned_hsize else hsize)"

definition nfs4_sizeof_handle :: "byte list \<Rightarrow> nat" where
  "nfs4_sizeof_handle h = 5 + fs_len h"

subsection \<open>Making handles\<close>

definition blit :: "nat \<Rightarrow> byte list \<Rightarrow> byte list \<Rightarrow> byte list" where
  "blit i xs h = take i h @ xs @ drop (i + length xs) h"

text \<open>
  \<open>handle_digest n\<close> is whether writing at most \<open>n\<close> bytes has failed, and the bytes.  If it fails, a
  buffer that was allocated is freed and any other one keeps what has been written.
\<close>

definition FSALToFhandle ::
  "nat \<Rightarrow> (byte list \<Rightarrow> nat) \<Rightarrow> bool \<Rightarrow> (nat \<Rightarrow> bool \<times> byte list) \<Rightarrow> bool \<Rightarrow> 16 word \<Rightarrow> bool \<times> nfs_fh" where
  "FSALToFhandle fhsize sizeof allocate handle_digest big_endian export_id =
    (let h = replicate fhsize 0;
         (failed, digest) = handle_digest (fhsize - 5);
         h = blit 5 digest h
     in if failed then
          (False, if allocate then \<lparr>fh_len = 0, fh_val = None\<rparr> else \<lparr>fh_len = fhsize, fh_val = Some h\<rparr>)
        else
          (let h = h[0 := GANESHA_FH_VERSION];
               h = (if big_endian then h[1 := FH_FSAL_BIG_ENDIAN] else h);
               h = h[4 := word_of_nat (length digest)];
               h = h[2 := ucast (drop_bit 8 export_id), 3 := ucast export_id]
           in (True, \<lparr>fh_len = sizeof h, fh_val = Some h\<rparr>)))"

definition nfs4_FSALToFhandle ::
  "bool \<Rightarrow> (nat \<Rightarrow> bool \<times> byte list) \<Rightarrow> bool \<Rightarrow> 16 word \<Rightarrow> bool \<times> nfs_fh" where
  "nfs4_FSALToFhandle = FSALToFhandle NFS4_FHSIZE nfs4_sizeof_handle"

definition nfs3_FSALToFhandle ::
  "bool \<Rightarrow> (nat \<Rightarrow> bool \<times> byte list) \<Rightarrow> bool \<Rightarrow> 16 word \<Rightarrow> bool \<times> nfs_fh" where
  "nfs3_FSALToFhandle = FSALToFhandle NFS3_FHSIZE nfs3_sizeof_handle"

subsection \<open>Checking handles\<close>

text \<open>\<open>None\<close> is the null pointer.\<close>

definition nfs4_Is_Fh_Empty :: "nfs_fh option \<Rightarrow> nfsstat4" where
  "nfs4_Is_Fh_Empty fh =
    (case fh of
       None \<Rightarrow> NFS4ERR_NOFILEHANDLE
     | Some fh \<Rightarrow> if fh_len fh = 0 then NFS4ERR_NOFILEHANDLE else NFS4_OK)"

definition nfs4_Is_Fh_DSHandle :: "nfs_fh option \<Rightarrow> bool" where
  "nfs4_Is_Fh_DSHandle fh =
    (case fh of
       None \<Rightarrow> False
     | Some fh \<Rightarrow> fhflags1 (the (fh_val fh)) AND FILE_HANDLE_V4_FLAG_DS \<noteq> 0)"

definition nfs4_Is_Fh_Invalid :: "nfs_fh option \<Rightarrow> nfsstat4" where
  "nfs4_Is_Fh_Invalid fh =
    (case fh of
       None \<Rightarrow> NFS4ERR_BADHANDLE
     | Some fh \<Rightarrow>
        (case fh_val fh of
           None \<Rightarrow> NFS4ERR_BADHANDLE
         | Some h \<Rightarrow>
            if fh_len fh = 0 \<or> fhversion h \<noteq> GANESHA_FH_VERSION \<or> fh_len fh < 5 \<or> fh_len fh > NFS4_FHSIZE
               \<or> fh_len fh \<noteq> nfs4_sizeof_handle h
            then NFS4ERR_BADHANDLE else NFS4_OK))"

definition nfs3_Is_Fh_Invalid :: "nfs_fh option \<Rightarrow> nfsstat3" where
  "nfs3_Is_Fh_Invalid fh3 =
    (case fh3 of
       None \<Rightarrow> NFS3ERR_BADHANDLE
     | Some fh \<Rightarrow>
        (case fh_val fh of
           None \<Rightarrow> NFS3ERR_BADHANDLE
         | Some h \<Rightarrow>
            if fh_len fh = 0 \<or> fhversion h \<noteq> GANESHA_FH_VERSION \<or> fh_len fh < 5 \<or> fh_len fh > NFS3_FHSIZE
               \<or> fh_len fh \<noteq> nfs3_sizeof_handle h
            then NFS3ERR_BADHANDLE else NFS3_OK))"

definition nfs3_FhandleToExportId :: "nfs_fh option \<Rightarrow> int" where
  "nfs3_FhandleToExportId fh3 =
    (if nfs3_Is_Fh_Invalid fh3 \<noteq> NFS4_OK then - 1
     else (case fh3 of None \<Rightarrow> - 1 | Some fh \<Rightarrow> uint (exportid (the (fh_val fh)))))"

text \<open>A handle inside a request of the lock manager.\<close>

definition nlm4_FhandleToExportId :: "(nat \<times> byte list option) option \<Rightarrow> int" where
  "nlm4_FhandleToExportId pfh3 =
    (case pfh3 of
       None \<Rightarrow> nfs3_FhandleToExportId None
     | Some (n_len, n_bytes) \<Rightarrow> nfs3_FhandleToExportId (Some \<lparr>fh_len = n_len, fh_val = n_bytes\<rparr>))"

text \<open>
  The number of the export in the handle has been used to find the export of the request, which the
  code asserts; the two routines of that export are arguments.
\<close>

definition nfs3_FhandleToCache ::
  "(byte list \<Rightarrow> byte \<Rightarrow> fsal_status_t \<times> byte list) \<Rightarrow> (byte list \<Rightarrow> fsal_status_t \<times> 'obj option) \<Rightarrow>
   (fsal_errors_t \<Rightarrow> bool) \<Rightarrow> nfs_fh option \<Rightarrow> nfsstat3 \<times> bool \<times> 'obj option" where
  "nfs3_FhandleToCache extract_handle create_handle nfs_RetryableError fh3 =
    (if nfs3_Is_Fh_Invalid fh3 \<noteq> NFS3_OK then (nfs3_Is_Fh_Invalid fh3, False, None)
     else
       (let h = the (fh_val (the fh3));
            (fsal_status, desc) = extract_handle (fsopaque h) (fhflags1 h);
            (fsal_status, obj) = (if \<not> FSAL_IS_ERROR fsal_status then create_handle desc else (fsal_status, None))
        in if FSAL_IS_ERROR fsal_status
           then (nfs3_Errno_verbose (major fsal_status), nfs_RetryableError (major fsal_status), obj)
           else (NFS3_OK, False, obj)))"

subsection \<open>Checks at the start of an operation\<close>

definition wrong_type :: "object_file_type_t \<Rightarrow> object_file_type_t \<Rightarrow> object_file_type_t \<Rightarrow> nfsstat4" where
  "wrong_type required_type link_type filetype =
    (if required_type = DIRECTORY then
       (if link_type = SYMBOLIC_LINK then NFS4ERR_SYMLINK else NFS4ERR_NOTDIR)
     else if required_type = SYMBOLIC_LINK then NFS4ERR_INVAL
     else if filetype = DIRECTORY then NFS4ERR_ISDIR
     else NFS4ERR_INVAL)"

text \<open>
  The current file handle and file type are arguments.  The assertion that a request with a file
  handle has a current object is an invariant of the compound loop, which is not modelled here.
\<close>

definition nfs4_sanity_check_FH ::
  "nfs_fh \<Rightarrow> object_file_type_t \<Rightarrow> object_file_type_t \<Rightarrow> bool \<Rightarrow> nfsstat4" where
  "nfs4_sanity_check_FH currentFH current_filetype required_type ds_allowed =
    (if nfs4_Is_Fh_Empty (Some currentFH) \<noteq> NFS4_OK then nfs4_Is_Fh_Empty (Some currentFH)
     else if nfs4_Is_Fh_Invalid (Some currentFH) \<noteq> NFS4_OK then nfs4_Is_Fh_Invalid (Some currentFH)
     else if required_type \<noteq> NO_FILE_TYPE \<and> current_filetype \<noteq> required_type
     then wrong_type required_type current_filetype current_filetype
     else if nfs4_Is_Fh_DSHandle (Some currentFH) \<and> \<not> ds_allowed then NFS4ERR_INVAL
     else NFS4_OK)"

text \<open>What a saved handle may be: any file, only a file of a type, or a file that is not of a type
  (zero, the number of the type, and its negation).\<close>

datatype required = Any_type | Must_be object_file_type_t | Must_not_be object_file_type_t

definition nfs4_sanity_check_saved_FH ::
  "nfs_fh \<Rightarrow> object_file_type_t \<Rightarrow> object_file_type_t \<Rightarrow> required \<Rightarrow> bool \<Rightarrow> nfsstat4" where
  "nfs4_sanity_check_saved_FH savedFH saved_filetype current_filetype required_type ds_allowed =
    (if nfs4_Is_Fh_Empty (Some savedFH) \<noteq> NFS4_OK then nfs4_Is_Fh_Empty (Some savedFH)
     else if nfs4_Is_Fh_Invalid (Some savedFH) \<noteq> NFS4_OK then nfs4_Is_Fh_Invalid (Some savedFH)
     else if nfs4_Is_Fh_DSHandle (Some savedFH) \<and> \<not> ds_allowed then NFS4ERR_INVAL
     else (case required_type of
         Any_type \<Rightarrow> NFS4_OK
       | Must_not_be t \<Rightarrow> if saved_filetype = t \<and> t = DIRECTORY then NFS4ERR_ISDIR else NFS4_OK
       | Must_be t \<Rightarrow>
           if saved_filetype \<noteq> t then wrong_type t current_filetype saved_filetype else NFS4_OK))"

subsection \<open>Lemmas\<close>

lemma length_blit: "i + length xs \<le> length h \<Longrightarrow> length (blit i xs h) = length h"
  by (simp add: blit_def)

lemma export_bytes: "(push_bit 8 (ucast (ucast (drop_bit 8 e :: 16 word) :: byte)) OR ucast (ucast e :: byte)) = (e :: 16 word)"
  by (rule bit_word_eqI) (auto simp: bit_simps)

text \<open>What a handle that was made holds.\<close>

lemma FSALToFhandle_made:
  assumes "handle_digest (fhsize - 5) = (False, d)" "length d + 5 \<le> fhsize" "length d < 256"
  obtains h where "FSALToFhandle fhsize sizeof allocate handle_digest big_endian e = (True, \<lparr>fh_len = sizeof h, fh_val = Some h\<rparr>)"
    "length h = fhsize" "fhversion h = GANESHA_FH_VERSION" "fhflags1 h = (if big_endian then FH_FSAL_BIG_ENDIAN else 0)"
    "exportid h = e" "fs_len h = length d" "fsopaque h = d"
proof -
  let ?b = "blit 5 d (replicate fhsize 0)"
  let ?h = "(if big_endian then (?b[0 := GANESHA_FH_VERSION])[1 := FH_FSAL_BIG_ENDIAN] else ?b[0 := GANESHA_FH_VERSION])
      [4 := word_of_nat (length d), 2 := ucast (drop_bit 8 e), 3 := ucast e]"
  have b: "length ?b = fhsize" "?b ! 1 = 0" "drop 5 ?b = d @ replicate (fhsize - 5 - length d) 0"
    using assms(2) by (simp_all add: length_blit) (simp_all add: blit_def nth_append)
  have len: "length ?h = fhsize" using b(1) by simp
  have h: "?h ! 0 = GANESHA_FH_VERSION" "?h ! 1 = (if big_endian then FH_FSAL_BIG_ENDIAN else 0)"
    "?h ! 2 = ucast (drop_bit 8 e)" "?h ! 3 = ucast e" "?h ! 4 = word_of_nat (length d)"
    using assms(2) b(1,2) by simp_all
  have n: "fs_len ?h = length d" using assms(3) by (simp add: fs_len_def h(5) unat_of_nat)
  have "drop 5 ?h = drop 5 ?b" by (simp add: drop_update_cancel)
  then have o: "fsopaque ?h = d" by (simp add: fsopaque_def n b(3))
  have "exportid ?h = e" by (simp add: exportid_def h(3,4) export_bytes)
  moreover have "FSALToFhandle fhsize sizeof allocate handle_digest big_endian e = (True, \<lparr>fh_len = sizeof ?h, fh_val = Some ?h\<rparr>)"
    using assms(1) by (simp add: FSALToFhandle_def Let_def)
  ultimately show thesis using that len h(1,2) n o by (simp add: fhversion_def fhflags1_def)
qed

lemma nfs3_sizeof_bounds:
  "5 + fs_len h \<le> nfs3_sizeof_handle h" "nfs3_sizeof_handle h \<le> 5 + fs_len h + 3"
  "5 + fs_len h \<le> NFS3_FHSIZE \<Longrightarrow> nfs3_sizeof_handle h \<le> NFS3_FHSIZE \<and> nfs3_sizeof_handle h mod 4 = 0"
proof -
  define n where "n = 5 + fs_len h"
  have "n \<le> (n + 3) div 4 * 4" "(n + 3) div 4 * 4 \<le> n + 3" by linarith+
  moreover have "n \<le> 64 \<Longrightarrow> (n + 3) div 4 * 4 \<le> 64" by presburger
  ultimately show "5 + fs_len h \<le> nfs3_sizeof_handle h" "nfs3_sizeof_handle h \<le> 5 + fs_len h + 3"
    "5 + fs_len h \<le> NFS3_FHSIZE \<Longrightarrow> nfs3_sizeof_handle h \<le> NFS3_FHSIZE \<and> nfs3_sizeof_handle h mod 4 = 0"
    by (simp_all add: nfs3_sizeof_handle_def Let_def flip: n_def)
qed

subsection \<open>Properties\<close>

text \<open>C21: the handles made for a file, of both versions, pass the checks of the server, and the number of the
  export and the digest of the file are read back from them; the length of an NFSv3 handle is a
  multiple of four.\<close>

theorem fhandle_roundtrip:
  assumes "dig4 123 = (False, d4)" "length d4 \<le> 123" "dig3 59 = (False, d3)" "length d3 \<le> 59"
  shows "(\<exists>fh h. nfs4_FSALToFhandle allocate dig4 big_endian e = (True, fh) \<and> fh_val fh = Some h
      \<and> nfs4_sanity_check_FH fh ty NO_FILE_TYPE False = NFS4_OK \<and> exportid h = e \<and> fsopaque h = d4)
    \<and> (\<exists>fh h. nfs3_FSALToFhandle allocate dig3 big_endian e = (True, fh) \<and> fh_val fh = Some h
      \<and> nfs3_Is_Fh_Invalid (Some fh) = NFS3_OK \<and> nfs3_FhandleToExportId (Some fh) = uint e
      \<and> fsopaque h = d3 \<and> fh_len fh mod 4 = 0)"
proof -
  obtain h where "nfs4_FSALToFhandle allocate dig4 big_endian e = (True, \<lparr>fh_len = nfs4_sizeof_handle h, fh_val = Some h\<rparr>)"
    and h: "fhversion h = GANESHA_FH_VERSION" "fhflags1 h = (if big_endian then FH_FSAL_BIG_ENDIAN else 0)"
      "exportid h = e" "fs_len h = length d4" "fsopaque h = d4"
    unfolding nfs4_FSALToFhandle_def
    using FSALToFhandle_made [of dig4 NFS4_FHSIZE d4 nfs4_sizeof_handle allocate big_endian e] assms(1,2) by auto
  moreover have "nfs4_sanity_check_FH \<lparr>fh_len = nfs4_sizeof_handle h, fh_val = Some h\<rparr> ty NO_FILE_TYPE False = NFS4_OK"
    using h assms(2) by (simp add: nfs4_sanity_check_FH_def nfs4_Is_Fh_Empty_def nfs4_Is_Fh_Invalid_def
        nfs4_Is_Fh_DSHandle_def nfs4_sizeof_handle_def)
  moreover obtain k where "nfs3_FSALToFhandle allocate dig3 big_endian e = (True, \<lparr>fh_len = nfs3_sizeof_handle k, fh_val = Some k\<rparr>)"
    and k: "fhversion k = GANESHA_FH_VERSION" "exportid k = e" "fs_len k = length d3" "fsopaque k = d3"
    unfolding nfs3_FSALToFhandle_def
    using FSALToFhandle_made [of dig3 NFS3_FHSIZE d3 nfs3_sizeof_handle allocate big_endian e] assms(3,4) by auto
  moreover have "nfs3_Is_Fh_Invalid (Some \<lparr>fh_len = nfs3_sizeof_handle k, fh_val = Some k\<rparr>) = NFS3_OK"
    "nfs3_sizeof_handle k mod 4 = 0"
    using nfs3_sizeof_bounds [of k] assms(4) k(1,3) by (auto simp: nfs3_Is_Fh_Invalid_def)
  ultimately show ?thesis by (simp add: nfs3_FhandleToExportId_def)
qed

theorem fhandle_roundtrip_witness:
  "(\<exists>fh h. nfs4_FSALToFhandle True (\<lambda>_. (False, [7, 8, 9])) False 513 = (True, fh) \<and> fh_val fh = Some h
      \<and> exportid h = 513 \<and> fsopaque h = [7, 8, 9])
   \<and> (\<exists>fh h. nfs3_FSALToFhandle True (\<lambda>_. (False, [7])) False 513 = (True, fh) \<and> fh_val fh = Some h
      \<and> nfs3_FhandleToExportId (Some fh) = 513 \<and> fsopaque h = [7] \<and> fh_len fh mod 4 = 0)"
proof -
  have "uint (513 :: 16 word) = 513" by simp
  then show ?thesis
    using fhandle_roundtrip [of "\<lambda>_. (False, [7, 8, 9])" "[7, 8, 9]" "\<lambda>_. (False, [7])" "[7]" True False 513 REGULAR_FILE] by auto
qed

text \<open>C22: in every handle the server accepts, the part that is given to the back end lies within the bytes that
  came over the wire, which are at most 64 for NFSv3 and 128 for NFSv4; NFSv4 handles have nothing
  after it and NFSv3 handles at most three bytes.\<close>

theorem fhandle_in_bounds:
  assumes "fh_val fh = Some h" "fh_len fh \<le> length h"
  shows "(nfs4_Is_Fh_Invalid (Some fh) = NFS4_OK \<longrightarrow>
      5 + fs_len h = fh_len fh \<and> fh_len fh \<le> NFS4_FHSIZE \<and> length (fsopaque h) = fs_len h)
    \<and> (nfs3_Is_Fh_Invalid (Some fh) = NFS3_OK \<longrightarrow>
      5 + fs_len h \<le> fh_len fh \<and> fh_len fh \<le> 5 + fs_len h + 3 \<and> fh_len fh \<le> NFS3_FHSIZE
      \<and> length (fsopaque h) = fs_len h)"
  using assms nfs3_sizeof_bounds(1,2) [of h]
  by (auto simp: nfs4_Is_Fh_Invalid_def nfs3_Is_Fh_Invalid_def nfs4_sizeof_handle_def fsopaque_def split: if_splits)

theorem fhandle_in_bounds_witness:
  "length (fsopaque [0x43, 0, 0, 1, 2, 7, 8, 0]) = 2
   \<and> nfs3_Is_Fh_Invalid (Some \<lparr>fh_len = 8, fh_val = Some [0x43, 0, 0, 1, 2, 7, 8, 0]\<rparr>) = NFS3_OK"
proof -
  have "nfs3_Is_Fh_Invalid (Some \<lparr>fh_len = 8, fh_val = Some [0x43, 0, 0, 1, 2, 7, 8, 0]\<rparr>) = NFS3_OK"
    by (simp add: nfs3_Is_Fh_Invalid_def fhversion_def nfs3_sizeof_handle_def fs_len_def)
  then show ?thesis
    using fhandle_in_bounds [of "\<lparr>fh_len = 8, fh_val = Some [0x43, 0, 0, 1, 2, 7, 8, 0]\<rparr>" "[0x43, 0, 0, 1, 2, 7, 8, 0]"]
    by (simp add: fs_len_def)
qed

text \<open>A saved handle that must not be of some type is refused only if that type is a directory: a file of any
  other forbidden type is accepted; and whether a handle that should be a directory is reported as
  a symbolic link depends on the current handle and not on the saved one.\<close>

theorem saved_FH_forbidden_type:
  assumes ok: "nfs4_Is_Fh_Empty (Some fh) = NFS4_OK" "nfs4_Is_Fh_Invalid (Some fh) = NFS4_OK" "\<not> nfs4_Is_Fh_DSHandle (Some fh)"
  shows "(nfs4_sanity_check_saved_FH fh t current (Must_not_be t) ds \<noteq> NFS4_OK \<longleftrightarrow> t = DIRECTORY)
    \<and> (nfs4_sanity_check_saved_FH fh SYMBOLIC_LINK current (Must_be DIRECTORY) ds = NFS4ERR_SYMLINK \<longleftrightarrow>
        current = SYMBOLIC_LINK)"
  using ok by (simp add: nfs4_sanity_check_saved_FH_def wrong_type_def)

theorem saved_FH_forbidden_type_witness:
  "nfs4_sanity_check_saved_FH \<lparr>fh_len = 6, fh_val = Some [0x43, 0, 0, 1, 1, 7]\<rparr> SYMBOLIC_LINK REGULAR_FILE
     (Must_not_be SYMBOLIC_LINK) False = NFS4_OK"
  using saved_FH_forbidden_type [of "\<lparr>fh_len = 6, fh_val = Some [0x43, 0, 0, 1, 1, 7]\<rparr>" SYMBOLIC_LINK REGULAR_FILE False]
  by (simp add: nfs4_Is_Fh_Empty_def nfs4_Is_Fh_Invalid_def nfs4_Is_Fh_DSHandle_def fhversion_def fhflags1_def
      nfs4_sizeof_handle_def fs_len_def)

end
