(* ===== verification/Stateid_Check.thy ===== *)
theory Stateid_Check
  imports State_Theorems File_Handle
begin

text \<open>
  From a stateid of a request to the state it names: \<^verbatim>\<open>nfs4_Check_Stateid\<close> and \<^verbatim>\<open>update_stateid\<close> of
  \<^verbatim>\<open>SAL/nfs4_state_id.c\<close>, the lookup of clients by number of \<^verbatim>\<open>SAL/nfs4_clientid.c\<close>, and the sequence
  numbers of owners with their saved answers, \<^verbatim>\<open>SAL/nfs4_owner.c\<close>.  What these functions only read
  (the epoch of the server, the table of confirmed clients, which lock states have locks) and the
  comparison of handles by the back end are fields of \<open>check_env\<close>.
\<close>

unbundle bit_operations_syntax

subsection \<open>Requests\<close>

record compound_data_t =
  minorversion :: uint32
  currentFH :: nfs_fh
  current_obj :: nat
  current_filetype :: object_file_type_t
  current_stateid :: stateid4
  current_stateid_valid :: bool
  preserved_clientid :: "nat option"

record 'fs check_env =
  chk_sal :: "'fs sal_env"
  server_epoch :: uint64
  ht_confirmed_client_id :: "uint64 \<Rightarrow> nat option"
  handle_cmp :: "nat \<Rightarrow> nat \<Rightarrow> bool"
  has_locks :: "nat \<Rightarrow> bool"

abbreviation (input) STATEID_SPECIAL_ALL_0 :: uint32 where "STATEID_SPECIAL_ALL_0 \<equiv> 2"
abbreviation (input) STATEID_SPECIAL_ALL_1 :: uint32 where "STATEID_SPECIAL_ALL_1 \<equiv> 4"
abbreviation (input) STATEID_SPECIAL_CURRENT :: uint32 where "STATEID_SPECIAL_CURRENT \<equiv> 8"
abbreviation (input) STATEID_SPECIAL_FREE :: uint32 where "STATEID_SPECIAL_FREE \<equiv> 0x100"
abbreviation (input) STATEID_SPECIAL_CLOSE_40 :: uint32 where "STATEID_SPECIAL_CLOSE_40 \<equiv> 0x40"
abbreviation (input) STATEID_SPECIAL_CLOSE_41 :: uint32 where "STATEID_SPECIAL_CLOSE_41 \<equiv> 0x80"
abbreviation (input) STATEID_SPECIAL_FOR_LOCK :: uint32 where "STATEID_SPECIAL_FOR_LOCK \<equiv> STATEID_SPECIAL_CURRENT"
abbreviation (input) seqid_all_one :: uint32 where "seqid_all_one \<equiv> 0xFFFFFFFF"
abbreviation (input) all_zero :: stateid_other_t where "all_zero \<equiv> (0, 0)"
abbreviation (input) all_ones :: stateid_other_t where "all_ones \<equiv> (- 1, - 1)"

subsection \<open>Clients\<close>

datatype clientid_status_t =
    CLIENT_ID_SUCCESS | CLIENT_ID_INSERT_MALLOC_ERROR | CLIENT_ID_INVALID_ARGUMENT | CLIENT_ID_EXPIRED | CLIENT_ID_STALE

fun clientid_error_to_nfsstat :: "clientid_status_t \<Rightarrow> nfsstat4" where
  "clientid_error_to_nfsstat CLIENT_ID_SUCCESS = NFS4_OK"
| "clientid_error_to_nfsstat CLIENT_ID_INSERT_MALLOC_ERROR = NFS4ERR_RESOURCE"
| "clientid_error_to_nfsstat CLIENT_ID_INVALID_ARGUMENT = NFS4ERR_SERVERFAULT"
| "clientid_error_to_nfsstat CLIENT_ID_EXPIRED = NFS4ERR_EXPIRED"
| "clientid_error_to_nfsstat CLIENT_ID_STALE = NFS4ERR_STALE_CLIENTID"

definition inc_client_id_ref :: "nat \<Rightarrow> 'fs sal \<Rightarrow> 'fs sal" where
  "inc_client_id_ref c s = upd_client c (\<lambda>x. x\<lparr>cid_refcount := cid_refcount x + 1\<rparr>) s"

text \<open>The record is freed with its last reference; what is in a table keeps one.\<close>

definition dec_client_id_ref :: "nat \<Rightarrow> 'fs sal \<Rightarrow> 'fs sal" where
  "dec_client_id_ref c s = upd_client c (\<lambda>x. x\<lparr>cid_refcount := cid_refcount x - 1\<rparr>) s"

definition nfs_client_id_get ::
  "uint64 \<Rightarrow> (uint64 \<Rightarrow> nat option) \<Rightarrow> uint64 \<Rightarrow> 'fs sal \<Rightarrow> clientid_status_t \<times> nat option \<times> 'fs sal" where
  "nfs_client_id_get epoch ht clientid s =
    (if drop_bit 32 clientid \<noteq> epoch AND 0xFFFFFFFF then (CLIENT_ID_STALE, None, s)
     else (case ht clientid of
         None \<Rightarrow> (CLIENT_ID_EXPIRED, None, s)
       | Some c \<Rightarrow>
          (let s = inc_client_id_ref c s in
           if cid_confirmed (clients s c) = STALE_CLIENT_ID then (CLIENT_ID_STALE, None, dec_client_id_ref c s)
           else (CLIENT_ID_SUCCESS, Some c, s))))"

definition nfs_client_id_get_confirmed ::
  "'fs check_env \<Rightarrow> uint64 \<Rightarrow> 'fs sal \<Rightarrow> clientid_status_t \<times> nat option \<times> 'fs sal" where
  "nfs_client_id_get_confirmed env clientid s =
    nfs_client_id_get (server_epoch env) (ht_confirmed_client_id env) clientid s"

definition client_reserve :: "'fs check_env \<Rightarrow> nat \<Rightarrow> 'fs sal \<Rightarrow> bool \<times> 'fs sal" where
  "client_reserve env c s =
    (case reserve_lease (lease_lifetime (chk_sal env)) (clock s) (clients s c) of
       (ok, x) \<Rightarrow> (ok, upd_client c (\<lambda>_. x) s))"

definition client_update :: "nat \<Rightarrow> 'fs sal \<Rightarrow> 'fs sal" where
  "client_update c s = upd_client c (update_lease (clock s)) s"

text \<open>The reservation of the lease of another client, if there is one, is released.\<close>

definition drop_preserved :: "compound_data_t \<Rightarrow> 'fs sal \<Rightarrow> compound_data_t \<times> 'fs sal" where
  "drop_preserved data s =
    (case preserved_clientid data of
       None \<Rightarrow> (data, s)
     | Some c \<Rightarrow> (data\<lparr>preserved_clientid := None\<rparr>, client_update c s))"

subsection \<open>Checking a stateid\<close>

text \<open>
  The state has not been found, or its file or owner is gone.  A close whose client is known is
  taken for a repeated one.
\<close>

definition Check_not_found ::
  "'fs check_env \<Rightarrow> uint64 \<Rightarrow> uint32 \<Rightarrow> nat option \<Rightarrow> compound_data_t \<Rightarrow> 'fs sal \<Rightarrow>
   nfsstat4 \<times> nat option \<times> compound_data_t \<times> 'fs sal" where
  "Check_not_found env clientid flags state2 data s =
    (let failure = (\<lambda>status data s. (status, None, data\<lparr>current_stateid_valid := False\<rparr>,
           case state2 of None \<Rightarrow> s | Some a \<Rightarrow> dec_nfs4_state_ref a s)) in
     case nfs_client_id_get_confirmed env clientid s of
       (rc, None, s) \<Rightarrow> failure (clientid_error_to_nfsstat rc) data s
     | (rc, Some c, s) \<Rightarrow>
         if flags AND (STATEID_SPECIAL_CLOSE_40 OR STATEID_SPECIAL_CLOSE_41) \<noteq> 0 then
           (let (data, s) = drop_preserved data s;
                (ok, s) = client_reserve env c s
            in if \<not> ok then failure NFS4ERR_EXPIRED data s
               else if flags AND STATEID_SPECIAL_CLOSE_40 \<noteq> 0
               then (NFS4_OK, state2, data\<lparr>current_stateid_valid := False\<rparr>, client_update c s)
               else (NFS4_OK, state2, data\<lparr>current_stateid_valid := False, preserved_clientid := Some c\<rparr>, s))
         else if state2 = None then failure NFS4ERR_BAD_STATEID data (dec_client_id_ref c s)
         else
           (case client_reserve env c s of
              (False, s) \<Rightarrow> failure NFS4ERR_EXPIRED data (dec_client_id_ref c s)
            | (True, s) \<Rightarrow> failure NFS4ERR_STALE data (dec_client_id_ref c (client_update c s))))"

definition Check_lease ::
  "'fs check_env \<Rightarrow> nat \<Rightarrow> compound_data_t \<Rightarrow> 'fs sal \<Rightarrow> bool \<times> compound_data_t \<times> 'fs sal" where
  "Check_lease env c data s =
    (if preserved_clientid data = Some c then (True, data, s)
     else
       (let (data, s) = drop_preserved data s;
            (ok, s) = client_reserve env c s
        in if ok then (True, data\<lparr>preserved_clientid := Some c\<rparr>, s) else (False, data, s)))"

text \<open>The difference of the sequence numbers is a signed 32-bit number.\<close>

definition Check_seqid :: "state_t \<Rightarrow> uint32 \<Rightarrow> uint32 \<Rightarrow> bool \<Rightarrow> uint32 \<Rightarrow> nfsstat4" where
  "Check_seqid x seqid owner_seqid check_seqid so_seq =
    (if state_type x = STATE_TYPE_LAYOUT \<or> seqid \<noteq> 0 then
       (let diff = sint (seqid - state_seqid x) in
        if diff < 0 then
          (if check_seqid \<and> (diff = - 1 \<or> state_seqid x = 1 \<and> seqid = seqid_all_one) \<and> owner_seqid = so_seq
           then NFS4ERR_REPLAY else NFS4ERR_OLD_STATEID)
        else if diff = 0 \<and> check_seqid \<and> owner_seqid = so_seq then NFS4ERR_REPLAY
        else if diff > 0 then NFS4ERR_BAD_STATEID
        else NFS4_OK)
     else NFS4_OK)"

definition Check_free :: "'fs check_env \<Rightarrow> nat \<Rightarrow> state_t \<Rightarrow> bool" where
  "Check_free env a x \<longleftrightarrow> state_type x = STATE_TYPE_LOCK \<and> \<not> has_locks env a"

text \<open>The state has been found, with a reference to its file and to its owner.\<close>

definition Check_found ::
  "'fs check_env \<Rightarrow> stateid4 \<Rightarrow> nat option \<Rightarrow> uint32 \<Rightarrow> uint32 \<Rightarrow> bool \<Rightarrow> nat \<Rightarrow> nat \<Rightarrow> nat \<Rightarrow>
   compound_data_t \<Rightarrow> 'fs sal \<Rightarrow> nfsstat4 \<times> nat option \<times> compound_data_t \<times> 'fs sal" where
  "Check_found env stateid fsal_obj flags owner_seqid check_seqid a obj2 owner2 data s =
    (let put = (\<lambda>s. add_owner_ref owner2 (- 1) (add_obj_ref obj2 (- 1) s));
         failure = (\<lambda>status data s.
           (status, None, data\<lparr>current_stateid_valid := False\<rparr>, put (dec_nfs4_state_ref a s)))
     in case Check_lease env (so_clientrec (nfs4_owners s owner2)) data s of
          (False, data, s) \<Rightarrow> failure NFS4ERR_EXPIRED data s
        | (True, data, s) \<Rightarrow>
            if (case fsal_obj of None \<Rightarrow> False | Some obj \<Rightarrow> \<not> handle_cmp env obj obj2)
            then failure NFS4ERR_BAD_STATEID data s
            else
              (let status = Check_seqid (st s a) (sid_seqid stateid) owner_seqid check_seqid
                     (so_seqid (nfs4_owners s owner2))
               in if status = NFS4ERR_REPLAY
                  then (status, Some a, data\<lparr>current_stateid_valid := False\<rparr>, put s)
                  else if status \<noteq> NFS4_OK then failure status data s
                  else if flags AND STATEID_SPECIAL_FREE \<noteq> 0 \<and> \<not> Check_free env a (st s a)
                  then failure NFS4ERR_LOCKS_HELD data s
                  else (NFS4_OK, Some a,
                    data\<lparr>current_stateid_valid := True, current_stateid := stateid\<lparr>sid_seqid := state_seqid (st s a)\<rparr>\<rparr>,
                    put s)))"

definition Check_it ::
  "'fs check_env \<Rightarrow> stateid4 \<Rightarrow> nat option \<Rightarrow> uint32 \<Rightarrow> uint32 \<Rightarrow> bool \<Rightarrow> compound_data_t \<Rightarrow> 'fs sal \<Rightarrow>
   nfsstat4 \<times> nat option \<times> compound_data_t \<times> 'fs sal" where
  "Check_it env stateid fsal_obj flags owner_seqid check_seqid data s =
    (let clientid = fst (sid_other stateid) in
     if drop_bit 32 clientid \<noteq> server_epoch env AND 0xFFFFFFFF
     then (NFS4ERR_STALE_STATEID, None, data\<lparr>current_stateid_valid := False\<rparr>, s)
     else
       (case nfs4_State_Get_Pointer (sid_other stateid) s of
          (state2, s) \<Rightarrow>
            (case get_state_obj_export_owner_refs (chk_sal env) True False True state2 s of
               (True, Some obj2, _, Some owner2, s) \<Rightarrow>
                 Check_found env stateid fsal_obj flags owner_seqid check_seqid (the state2) obj2 owner2 data s
             | (_, _, _, _, s) \<Rightarrow> Check_not_found env clientid flags state2 data s)))"

text \<open>The special stateid for the current one is replaced by it in the arguments, which are part of the result.\<close>

definition nfs4_Check_Stateid ::
  "'fs check_env \<Rightarrow> stateid4 \<Rightarrow> nat option \<Rightarrow> uint32 \<Rightarrow> uint32 \<Rightarrow> bool \<Rightarrow> compound_data_t \<Rightarrow> 'fs sal \<Rightarrow>
   stateid4 \<times> nfsstat4 \<times> nat option \<times> compound_data_t \<times> 'fs sal" where
  "nfs4_Check_Stateid env stateid fsal_obj flags owner_seqid check_seqid data s =
    (let special = (stateid, NFS4_OK, None, data\<lparr>current_stateid_valid := False\<rparr>, s);
         bad = (stateid, NFS4ERR_BAD_STATEID, None, data\<lparr>current_stateid_valid := False\<rparr>, s)
     in if sid_other stateid = all_zero then
          (if sid_seqid stateid = 0 \<and> flags AND STATEID_SPECIAL_ALL_0 \<noteq> 0 then special
           else if sid_seqid stateid = 1 \<and> flags AND STATEID_SPECIAL_CURRENT \<noteq> 0 then
             (if \<not> current_stateid_valid data then bad
              else (current_stateid data,
                Check_it env (current_stateid data) fsal_obj flags owner_seqid check_seqid data s))
           else bad)
        else if sid_other stateid = all_ones then
          (if sid_seqid stateid = seqid_all_one \<and> flags AND STATEID_SPECIAL_ALL_1 \<noteq> 0 then special else bad)
        else (stateid, Check_it env stateid fsal_obj flags owner_seqid check_seqid data s))"

text \<open>Sequence numbers go from the largest one back to one.\<close>

definition next_seqid :: "uint32 \<Rightarrow> uint32" where
  "next_seqid n = (if n + 1 = 0 then 1 else n + 1)"

definition update_stateid :: "nat \<Rightarrow> compound_data_t \<Rightarrow> 'fs sal \<Rightarrow> stateid4 \<times> compound_data_t \<times> 'fs sal" where
  "update_stateid a data s =
    (let s = upd_st a (state_seqid_update next_seqid) s;
         resp = \<lparr>sid_seqid = state_seqid (st s a), sid_other = stateid_other (st s a)\<rparr>
     in (resp, data\<lparr>current_stateid := resp, current_stateid_valid := True\<rparr>, s))"

subsection \<open>Sequence numbers of owners\<close>

text \<open>The result is whether the request is to be executed, and the answer if it is not.\<close>

definition Check_nfs4_seqid ::
  "nat option \<Rightarrow> uint32 \<Rightarrow> nat \<Rightarrow> nat \<Rightarrow> nfs_resop4 \<Rightarrow> 'fs sal \<Rightarrow> bool \<times> nfs_resop4" where
  "Check_nfs4_seqid owner seqid argop obj resp s =
    (case owner of
       None \<Rightarrow> (True, resp)
     | Some w \<Rightarrow>
        (let x = nfs4_owners s w in
         if so_last_entry x = None then (True, resp)
         else if seqid = so_seqid x + 1 then (True, resp)
         else
           (let resp = resp\<lparr>resp_status := NFS4ERR_BAD_SEQID\<rparr> in
            if so_seqid x \<noteq> seqid then (False, resp)
            else if argop \<noteq> so_argop x then (False, resp)
            else if so_last_entry x \<noteq> Some obj then (False, resp)
            else (False, so_resp x))))"

definition Copy_nfs4_state_req :: "nat option \<Rightarrow> uint32 \<Rightarrow> nat \<Rightarrow> nat \<Rightarrow> nfs_resop4 \<Rightarrow> 'fs sal \<Rightarrow> 'fs sal" where
  "Copy_nfs4_state_req owner seqid argop obj resp s =
    (case owner of
       None \<Rightarrow> s
     | Some w \<Rightarrow>
        upd_owner w (\<lambda>x. x\<lparr>so_resp := resp, so_argop := argop, so_last_entry := Some obj, so_seqid := seqid\<rparr>) s)"

definition get_state_owner_ref :: "nat \<Rightarrow> 'fs sal \<Rightarrow> nat option \<times> 'fs sal" where
  "get_state_owner_ref a s =
    (case state_owner (st s a) of None \<Rightarrow> (None, s) | Some w \<Rightarrow> (Some w, add_owner_ref w 1 s))"

end
