(* ===== verification/Stateid_Theorems.thy ===== *)
theory Stateid_Theorems
  imports Stateid_Check
begin

text \<open>
  What the check of a stateid answers, and what it leaves: on every path the references it has
  taken are given back but the one to the state it returns, and only leases and the state of the back
  end change.  A stateid that was just handed out is accepted, the one before it is old.
\<close>

unbundle bit_operations_syntax

subsection \<open>What changes\<close>

definition only_clients :: "'fs sal \<Rightarrow> 'fs sal \<Rightarrow> bool" where
  "only_clients s s' \<longleftrightarrow> (\<exists>cl fs. s' = s\<lparr>clients := cl, fsal := fs\<rparr>)"

lemma only_clientsI [intro]:
  "only_clients s (s\<lparr>clients := cl, fsal := fs\<rparr>)" "only_clients s (s\<lparr>clients := cl\<rparr>)"
  "only_clients s (s\<lparr>fsal := fs\<rparr>)" "only_clients s s"
proof -
  have "s\<lparr>clients := cl\<rparr> = s\<lparr>clients := cl, fsal := fsal s\<rparr>" "s\<lparr>fsal := fs\<rparr> = s\<lparr>clients := clients s, fsal := fs\<rparr>"
    "s = s\<lparr>clients := clients s, fsal := fsal s\<rparr>" by simp_all
  then show "only_clients s (s\<lparr>clients := cl, fsal := fs\<rparr>)" "only_clients s (s\<lparr>clients := cl\<rparr>)"
    "only_clients s (s\<lparr>fsal := fs\<rparr>)" "only_clients s s"
    unfolding only_clients_def by blast+
qed

lemma client_changes:
  "inc_client_id_ref c s = s\<lparr>clients := (clients s)(c := (clients s c)\<lparr>cid_refcount := cid_refcount (clients s c) + 1\<rparr>)\<rparr>"
  "dec_client_id_ref c s = s\<lparr>clients := (clients s)(c := (clients s c)\<lparr>cid_refcount := cid_refcount (clients s c) - 1\<rparr>)\<rparr>"
  "client_update c s = s\<lparr>clients := (clients s)(c := update_lease (clock s) (clients s c))\<rparr>"
  by (simp_all add: inc_client_id_ref_def dec_client_id_ref_def client_update_def upd_client_def)

lemma client_reserve_cases:
  assumes "client_reserve env c s = (ok, s')"
  shows "ok = valid_lease (lease_lifetime (chk_sal env)) (clock s) (clients s c)" "\<exists>cl. s' = s\<lparr>clients := cl\<rparr>"
  using assms reserve_lease_valid [of "lease_lifetime (chk_sal env)" "clock s" "clients s c"]
  by (auto simp: client_reserve_def upd_client_def split: prod.splits)

lemma drop_preserved_cases:
  assumes "drop_preserved data s = (data', s')"
  obtains cl where "s' = s\<lparr>clients := cl\<rparr>" "\<And>c. preserved_clientid data \<noteq> Some c \<Longrightarrow> cl c = clients s c"
    "data' = data\<lparr>preserved_clientid := None\<rparr>"
proof (cases "preserved_clientid data")
  case None
  then have "s' = s" "data' = data\<lparr>preserved_clientid := None\<rparr>" using assms by (simp_all add: drop_preserved_def)
  moreover have "s = s\<lparr>clients := clients s\<rparr>" by simp
  ultimately show thesis using that by metis
next
  case (Some c)
  then show thesis
    using that [of "(clients s)(c := update_lease (clock s) (clients s c))"] assms
    by (simp add: drop_preserved_def client_changes split: if_splits)
qed

lemma Check_lease_cases:
  assumes "Check_lease env c data s = (ok, data', s')"
  obtains cl where "s' = s\<lparr>clients := cl\<rparr>"
    "ok = (preserved_clientid data = Some c \<or> valid_lease (lease_lifetime (chk_sal env)) (clock s) (clients s c))"
    "ok \<Longrightarrow> data' = data\<lparr>preserved_clientid := Some c\<rparr>"
proof (cases "preserved_clientid data = Some c")
  case True
  then have "s' = s" "ok" "data' = data\<lparr>preserved_clientid := Some c\<rparr>" using assms by (simp_all add: Check_lease_def)
  moreover have "s = s\<lparr>clients := clients s\<rparr>" by simp
  ultimately show thesis using that True by metis
next
  case False
  obtain data1 s1 where d: "drop_preserved data s = (data1, s1)" by fastforce
  obtain cl where s1: "s1 = s\<lparr>clients := cl\<rparr>" "cl c = clients s c" "data1 = data\<lparr>preserved_clientid := None\<rparr>"
    using drop_preserved_cases [OF d] False by metis
  obtain ok1 s2 where r: "client_reserve env c s1 = (ok1, s2)" by fastforce
  obtain cl' where s2: "s2 = s1\<lparr>clients := cl'\<rparr>" "ok1 = valid_lease (lease_lifetime (chk_sal env)) (clock s) (clients s c)"
    using client_reserve_cases [OF r] s1 by auto
  show thesis using assms that [of cl'] False d r s1 s2 by (auto simp: Check_lease_def split: if_splits)
qed

subsection \<open>The state has been found\<close>

lemma Check_seqid_cases:
  "Check_seqid x n oseq chk so_seq \<in> {NFS4_OK, NFS4ERR_REPLAY, NFS4ERR_OLD_STATEID, NFS4ERR_BAD_STATEID}"
  "Check_seqid x n oseq chk so_seq = NFS4_OK \<Longrightarrow> n = state_seqid x \<or> n = 0 \<and> state_type x \<noteq> STATE_TYPE_LAYOUT"
  "Check_seqid x n oseq chk so_seq = NFS4ERR_REPLAY \<Longrightarrow> chk \<and> oseq = so_seq"
proof -
  have "n = state_seqid x" if "sint (n - state_seqid x) = 0"
  proof -
    have "n - state_seqid x = word_of_int (sint (n - state_seqid x))" by simp
    also have "\<dots> = 0" by (simp only: that) simp
    finally show ?thesis by simp
  qed
  then show "Check_seqid x n oseq chk so_seq = NFS4_OK \<Longrightarrow> n = state_seqid x \<or> n = 0 \<and> state_type x \<noteq> STATE_TYPE_LAYOUT"
    by (auto simp: Check_seqid_def Let_def split: if_splits)
qed (auto simp: Check_seqid_def Let_def split: if_splits)

lemma Check_found_cases:
  assumes "Check_found env sid obj flags oseq chk a obj2 w data s = (status, r, data', s')"
  obtains (refused) cl where "r = None" "status \<noteq> NFS4_OK" "status \<noteq> NFS4ERR_REPLAY" "\<not> current_stateid_valid data'"
      "s' = add_owner_ref w (- 1) (add_obj_ref obj2 (- 1) (dec_nfs4_state_ref a (s\<lparr>clients := cl\<rparr>)))"
    | (repeated) cl where "r = Some a" "status = NFS4ERR_REPLAY" "chk" "oseq = so_seqid (nfs4_owners s w)"
      "Check_seqid (st s a) (sid_seqid sid) oseq chk (so_seqid (nfs4_owners s w)) = NFS4ERR_REPLAY"
      "\<And>f. obj = Some f \<Longrightarrow> handle_cmp env f obj2"
      "preserved_clientid data' = Some (so_clientrec (nfs4_owners s w))"
      "s' = add_owner_ref w (- 1) (add_obj_ref obj2 (- 1) (s\<lparr>clients := cl\<rparr>))"
    | (accepted) cl where "r = Some a" "status = NFS4_OK"
      "Check_seqid (st s a) (sid_seqid sid) oseq chk (so_seqid (nfs4_owners s w)) = NFS4_OK"
      "sid_seqid sid = state_seqid (st s a) \<or> sid_seqid sid = 0 \<and> state_type (st s a) \<noteq> STATE_TYPE_LAYOUT"
      "\<And>f. obj = Some f \<Longrightarrow> handle_cmp env f obj2" "preserved_clientid data' = Some (so_clientrec (nfs4_owners s w))"
      "s' = add_owner_ref w (- 1) (add_obj_ref obj2 (- 1) (s\<lparr>clients := cl\<rparr>))"
proof -
  let ?c = "so_clientrec (nfs4_owners s w)"
  obtain ok data1 s1 where l: "Check_lease env ?c data s = (ok, data1, s1)" using prod_cases3 by blast
  obtain cl where cl: "s1 = s\<lparr>clients := cl\<rparr>" "ok \<Longrightarrow> data1 = data\<lparr>preserved_clientid := Some ?c\<rparr>"
    using Check_lease_cases [OF l] by metis
  let ?q = "Check_seqid (st s a) (sid_seqid sid) oseq chk (so_seqid (nfs4_owners s w))"
  note def = assms [unfolded Check_found_def Let_def l prod.case]
  consider "\<not> ok" | "ok" "\<exists>f. obj = Some f \<and> \<not> handle_cmp env f obj2"
    | "ok" "\<And>f. obj = Some f \<Longrightarrow> handle_cmp env f obj2" by blast
  then show thesis
  proof cases
    case 1
    with def cl(1) show thesis by (intro refused [of cl]) auto
  next
    case 2
    with def cl(1) show thesis by (intro refused [of cl]) auto
  next
    case 3
    then have hc: "(case obj of None \<Rightarrow> False | Some f \<Rightarrow> \<not> handle_cmp env f obj2) = False" by (cases obj) simp_all
    note def' = def [unfolded hc, simplified cl(1) 3(1), simplified]
    consider (replay) "?q = NFS4ERR_REPLAY" | (bad) "?q \<noteq> NFS4ERR_REPLAY" "?q \<noteq> NFS4_OK" | (ok) "?q = NFS4_OK" by blast
    then show thesis
    proof cases
      case replay
      with def' Check_seqid_cases(3) [OF replay] cl(2) 3 show thesis by (intro repeated [of cl]) auto
    next
      case bad
      with def' show thesis by (intro refused [of cl]) auto
    next
      case ok
      show thesis
      proof (cases "flags AND STATEID_SPECIAL_FREE \<noteq> 0 \<and> \<not> Check_free env a (st s a)")
        case True
        with ok def' show thesis by (intro refused [of cl]) auto
      next
        case False
        with ok def' Check_seqid_cases(2) [OF ok] cl(2) 3 show thesis by (intro accepted [of cl]) auto
      qed
    qed
  qed
qed

subsection \<open>The whole check\<close>

lemma get_refs_found:
  assumes "get_state_obj_export_owner_refs e True False True (Some a) s = (True, Some o2, ex, Some w, s')"
  obtains fs x where "s' = add_owner_ref w 1 (add_obj_ref o2 1 (s\<lparr>fsal := fs\<rparr>))" "state_owner (st s a) = Some w"
    "state_export (st s a) = Some x" "create_handle e x (state_obj (st s a)) (fsal s) = (Some o2, fs)"
proof -
  obtain r s1 where get: "get_state_obj_ref e a s = (r, s1)" by fastforce
  with assms have "r = Some o2" "s' = add_owner_ref w 1 s1" "state_owner (st s1 a) = Some w"
    by (auto simp: get_state_obj_export_owner_refs_def split: option.splits if_splits)
  with get that show thesis by (auto simp: get_state_obj_ref_def split: option.splits prod.splits)
qed

lemma get_refs_failed:
  assumes "get_state_obj_export_owner_refs e True False True state2 s = (ok, obj2, ex, own, s')"
    and "\<not> (ok \<and> obj2 \<noteq> None \<and> own \<noteq> None)" and "\<And>a. state2 = Some a \<Longrightarrow> state_owner (st s a) \<noteq> None"
  shows "\<exists>fs. s' = s\<lparr>fsal := fs\<rparr>"
proof (cases state2)
  case None
  then have "s' = s\<lparr>fsal := fsal s\<rparr>" using assms(1) by (simp add: get_state_obj_export_owner_refs_def)
  then show ?thesis ..
next
  case (Some a)
  obtain w where w: "state_owner (st s a) = Some w" using assms(3) Some by blast
  obtain r s1 where get: "get_state_obj_ref e a s = (r, s1)" by fastforce
  show ?thesis
  proof (cases r)
    case None
    then have "s' = s1" using assms(1) get Some by (simp add: get_state_obj_export_owner_refs_def)
    then show ?thesis using get_state_obj_ref_None get None by blast
  next
    case (Some o2)
    then obtain fs where "s1 = add_obj_ref o2 1 (s\<lparr>fsal := fs\<rparr>)"
      using get_state_obj_ref_cases [OF get] by (metis option.inject option.distinct(1))
    then have "st s1 = st s" by simp
    then show ?thesis using assms(1,2) \<open>state2 = Some a\<close> get Some w by (auto simp: get_state_obj_export_owner_refs_def)
  qed
qed

lemma refs_given_back:
  assumes "state_refcount (st s a) \<ge> 1"
  shows "add_owner_ref w (- 1) (add_obj_ref ob (- 1) (dec_nfs4_state_ref a
      ((add_owner_ref w 1 (add_obj_ref ob 1 ((inc_state_t_ref a s)\<lparr>fsal := fs\<rparr>)))\<lparr>clients := cl\<rparr>))) = s\<lparr>clients := cl, fsal := fs\<rparr>"
    "add_owner_ref w (- 1) (add_obj_ref ob (- 1)
      ((add_owner_ref w 1 (add_obj_ref ob 1 ((inc_state_t_ref a s)\<lparr>fsal := fs\<rparr>)))\<lparr>clients := cl\<rparr>)) =
     (inc_state_t_ref a s)\<lparr>clients := cl, fsal := fs\<rparr>"
    "dec_nfs4_state_ref a ((inc_state_t_ref a s)\<lparr>clients := cl, fsal := fs\<rparr>) = s\<lparr>clients := cl, fsal := fs\<rparr>"
  using assms
  by (simp_all add: inc_state_t_ref_def dec_nfs4_state_ref_def free_state_def sal_parts Let_def fun_upd_idem)

lemma Check_not_found_cases:
  assumes "Check_not_found env clientid flags state2 data s = (status, r, data', s')"
    and "flags AND (STATEID_SPECIAL_CLOSE_40 OR STATEID_SPECIAL_CLOSE_41) = 0"
  shows "r = None" "status \<noteq> NFS4_OK" "status \<noteq> NFS4ERR_REPLAY"
    "\<exists>cl. s' = (case state2 of None \<Rightarrow> s\<lparr>clients := cl\<rparr> | Some a \<Rightarrow> dec_nfs4_state_ref a (s\<lparr>clients := cl\<rparr>))"
proof -
  let ?last = "\<lambda>cl. case state2 of None \<Rightarrow> s\<lparr>clients := cl\<rparr> | Some a \<Rightarrow> dec_nfs4_state_ref a (s\<lparr>clients := cl\<rparr>)"
  obtain rc c s1 where g: "nfs_client_id_get_confirmed env clientid s = (rc, c, s1)" using prod_cases3 by blast
  have "s1 = s \<or> (\<exists>cl. s1 = s\<lparr>clients := cl\<rparr>)" and rc: "c = None \<Longrightarrow> rc = CLIENT_ID_STALE \<or> rc = CLIENT_ID_EXPIRED"
    using g by (auto simp: nfs_client_id_get_confirmed_def nfs_client_id_get_def client_changes Let_def split: if_splits option.splits)
  moreover have "s = s\<lparr>clients := clients s\<rparr>" by simp
  ultimately obtain cl where s1: "s1 = s\<lparr>clients := cl\<rparr>" by metis
  have "r = None \<and> status \<noteq> NFS4_OK \<and> status \<noteq> NFS4ERR_REPLAY \<and> (\<exists>cl. s' = ?last cl)"
  proof (cases c)
    case None
    then show ?thesis using assms g s1 rc by (auto simp: Check_not_found_def)
  next
    case (Some x)
    show ?thesis
    proof (cases state2)
      case None
      then show ?thesis using assms g s1 Some by (auto simp: Check_not_found_def client_changes)
    next
      case (Some a)
      obtain ok s2 where "client_reserve env x s1 = (ok, s2)" by fastforce
      moreover from client_reserve_cases(2) [OF this] obtain cl' where "s2 = s\<lparr>clients := cl'\<rparr>" using s1 by auto
      ultimately show ?thesis using assms g \<open>c = Some x\<close> Some by (auto simp: Check_not_found_def client_changes split: bool.splits)
    qed
  qed
  then show "r = None" "status \<noteq> NFS4_OK" "status \<noteq> NFS4ERR_REPLAY" "\<exists>cl. s' = ?last cl" by blast+
qed

text \<open>What the check says about the state it returns, in the state of the tables before it.\<close>

definition stateid_names ::
  "'fs check_env \<Rightarrow> stateid4 \<Rightarrow> nat option \<Rightarrow> uint32 \<Rightarrow> bool \<Rightarrow> nfsstat4 \<Rightarrow> nat \<Rightarrow> compound_data_t \<Rightarrow> 'fs sal \<Rightarrow> bool" where
  "stateid_names env sid obj oseq chk status a data' s \<longleftrightarrow>
    ht_state_id s (sid_other sid) = Some a
    \<and> drop_bit 32 (fst (sid_other sid)) = server_epoch env AND 0xFFFFFFFF
    \<and> (\<exists>w x o2 fs. state_owner (st s a) = Some w \<and> state_export (st s a) = Some x
        \<and> create_handle (chk_sal env) x (state_obj (st s a)) (fsal s) = (Some o2, fs)
        \<and> preserved_clientid data' = Some (so_clientrec (nfs4_owners s w))
        \<and> (\<forall>f. obj = Some f \<longrightarrow> handle_cmp env f o2)
        \<and> status = Check_seqid (st s a) (sid_seqid sid) oseq chk (so_seqid (nfs4_owners s w))
        \<and> (status = NFS4_OK
             \<and> (sid_seqid sid = state_seqid (st s a) \<or> sid_seqid sid = 0 \<and> state_type (st s a) \<noteq> STATE_TYPE_LAYOUT)
           \<or> status = NFS4ERR_REPLAY \<and> chk \<and> oseq = so_seqid (nfs4_owners s w)))"

lemma Check_it_outcome:
  assumes inv: "table_inv (chk_sal env) H s"
    and flags: "flags AND (STATEID_SPECIAL_CLOSE_40 OR STATEID_SPECIAL_CLOSE_41) = 0"
    and res: "Check_it env sid obj flags oseq chk data s = (status, r, data', s')"
  shows "case r of
      None \<Rightarrow> status \<noteq> NFS4_OK \<and> status \<noteq> NFS4ERR_REPLAY \<and> only_clients s s'
    | Some a \<Rightarrow> stateid_names env sid obj oseq chk status a data' s \<and> only_clients (inc_state_t_ref a s) s'"
proof (cases "drop_bit 32 (fst (sid_other sid)) = server_epoch env AND 0xFFFFFFFF")
  case False
  then show ?thesis using res by (auto simp: Check_it_def)
next
  case epoch: True
  show ?thesis
  proof (cases "ht_state_id s (sid_other sid)")
    case None
    then have "Check_not_found env (fst (sid_other sid)) flags None data s = (status, r, data', s')"
      using res epoch by (simp add: Check_it_def nfs4_State_Get_Pointer_def get_state_obj_export_owner_refs_def)
    from Check_not_found_cases [OF this flags] show ?thesis by auto
  next
    case (Some a)
    let ?s = "inc_state_t_ref a s"
    have tab: "in_table s a" using Some table_invD(1) [OF inv Some] by (simp add: in_table_def)
    have ref: "state_refcount (st s a) \<ge> 1"
      using table_invD(7) [OF inv table_inv_allocated [OF inv tab]] tab by simp
    have own: "state_owner (st ?s b) \<noteq> None" if "Some a = Some b" for b
      using that table_inv_attached [OF inv tab] by (simp add: attached_def)
    obtain ok obj2 ex w s1 where refs: "get_state_obj_export_owner_refs (chk_sal env) True False True (Some a) ?s = (ok, obj2, ex, w, s1)"
      using prod_cases5 by blast
    show ?thesis
    proof (cases "ok \<and> obj2 \<noteq> None \<and> w \<noteq> None")
      case False
      then have "Check_not_found env (fst (sid_other sid)) flags (Some a) data s1 = (status, r, data', s')"
        using res epoch Some refs
        by (cases ok; cases obj2; cases w) (simp_all add: Check_it_def nfs4_State_Get_Pointer_def Let_def)
      note nf = Check_not_found_cases [OF this flags]
      obtain fs where s1: "s1 = ?s\<lparr>fsal := fs\<rparr>" using get_refs_failed [OF refs False own] by blast
      have swap: "?s\<lparr>fsal := fs, clients := cl\<rparr> = ?s\<lparr>clients := cl, fsal := fs\<rparr>" for cl by simp
      obtain cl where "s' = dec_nfs4_state_ref a (?s\<lparr>clients := cl, fsal := fs\<rparr>)" using nf(4) unfolding s1 swap by auto
      then have "s' = s\<lparr>clients := cl, fsal := fs\<rparr>" using refs_given_back(3) [OF ref] by simp
      with nf(1-3) show ?thesis by auto
    next
      case True
      then obtain o2 w' where t: "ok" "obj2 = Some o2" "w = Some w'" by auto
      then have cf: "Check_found env sid obj flags oseq chk a o2 w' data s1 = (status, r, data', s')"
        using res epoch Some refs by (simp add: Check_it_def nfs4_State_Get_Pointer_def)
      have refs': "get_state_obj_export_owner_refs (chk_sal env) True False True (Some a) ?s = (True, Some o2, ex, Some w', s1)"
        using refs t by simp
      obtain fs x where s1: "s1 = add_owner_ref w' 1 (add_obj_ref o2 1 (?s\<lparr>fsal := fs\<rparr>))" and
        a: "state_owner (st s a) = Some w'" "state_export (st s a) = Some x"
          "create_handle (chk_sal env) x (state_obj (st s a)) (fsal s) = (Some o2, fs)"
        using get_refs_found [OF refs'] by auto
      have w: "so_clientrec (nfs4_owners s1 w') = so_clientrec (nfs4_owners s w')" "so_seqid (nfs4_owners s1 w') = so_seqid (nfs4_owners s w')"
        "state_seqid (st s1 a) = state_seqid (st s a)" "state_type (st s1 a) = state_type (st s a)"
        "Check_seqid (st s1 a) k m c q = Check_seqid (st s a) k m c q" for k m c q
        by (simp_all add: s1 add_owner_ref_def upd_owner_def Check_seqid_def Let_def)
      from cf show ?thesis
      proof (cases rule: Check_found_cases)
        case (refused cl)
        then show ?thesis using refs_given_back(1) [OF ref, where w = w' and ob = o2 and fs = fs and cl = cl] by (auto simp: s1)
      next
        case (repeated cl)
        then show ?thesis
          using refs_given_back(2) [OF ref, where w = w' and ob = o2 and fs = fs and cl = cl] Some a epoch by (auto simp: s1 [symmetric] stateid_names_def w)
      next
        case (accepted cl)
        then show ?thesis
          using refs_given_back(2) [OF ref, where w = w' and ob = o2 and fs = fs and cl = cl] Some a epoch by (auto simp: stateid_names_def w) (auto simp: s1)
      qed
    qed
  qed
qed

text \<open>The minor version and the file of a compound stay the same.\<close>

definition same_call :: "compound_data_t \<Rightarrow> compound_data_t \<Rightarrow> bool" where
  "same_call data data' \<longleftrightarrow> minorversion data' = minorversion data \<and> current_obj data' = current_obj data"

lemma Check_lease_call: "Check_lease env c data s = (ok, data', s') \<Longrightarrow> same_call data data'"
  by (auto simp: Check_lease_def drop_preserved_def same_call_def Let_def split: if_splits option.splits prod.splits)

lemma Check_found_call:
  "Check_found env sid obj flags oseq chk a obj2 w data s = (status, r, data', s') \<Longrightarrow> same_call data data'"
proof -
  assume res: "Check_found env sid obj flags oseq chk a obj2 w data s = (status, r, data', s')"
  obtain ok data1 s1 where l: "Check_lease env (so_clientrec (nfs4_owners s w)) data s = (ok, data1, s1)"
    using prod_cases3 by blast
  have "same_call data1 data'" using res by (auto simp: Check_found_def l same_call_def Let_def split: bool.splits if_splits)
  with Check_lease_call [OF l] show ?thesis by (simp add: same_call_def)
qed

lemma Check_not_found_call:
  "Check_not_found env clientid flags state2 data s = (status, r, data', s') \<Longrightarrow> same_call data data'"
  by (auto simp: Check_not_found_def drop_preserved_def same_call_def Let_def split: if_splits option.splits prod.splits bool.splits)

lemma Check_Stateid_call:
  assumes "nfs4_Check_Stateid env sid obj flags oseq chk data s = (sid', status, r, data', s')"
  shows "same_call data data'"
proof -
  have it: "same_call data data'" if "Check_it env k obj flags oseq chk data s = (status, r, data', s')" for k
    using that unfolding Check_it_def Let_def
    by (auto dest: Check_found_call Check_not_found_call simp: same_call_def [of data "data\<lparr>current_stateid_valid := False\<rparr>"]
        split: if_splits prod.splits option.splits bool.splits)
  show ?thesis using assms it by (auto simp: nfs4_Check_Stateid_def same_call_def Let_def split: if_splits)
qed

definition lease_ok :: "'fs check_env \<Rightarrow> nat \<Rightarrow> compound_data_t \<Rightarrow> 'fs sal \<Rightarrow> bool" where
  "lease_ok env c data s \<longleftrightarrow>
    preserved_clientid data = Some c \<or> valid_lease (lease_lifetime (chk_sal env)) (clock s) (clients s c)"

lemma Check_it_found:
  assumes "table_inv (chk_sal env) H s" "resolves (chk_sal env)" "in_table s a"
    and sid: "sid_other sid = stateid_other (st s a)" "drop_bit 32 (fst (sid_other sid)) = server_epoch env AND 0xFFFFFFFF"
    and own: "state_owner (st s a) = Some w" "lease_ok env (so_clientrec (nfs4_owners s w)) data s"
    and obj: "state_obj (st s a) = handle_digest (chk_sal env) f" "handle_cmp env f f"
    and flags: "flags AND STATEID_SPECIAL_FREE = 0"
  shows "\<exists>data' s'. Check_it env sid (Some f) flags oseq chk data s =
    (let q = Check_seqid (st s a) (sid_seqid sid) oseq chk (so_seqid (nfs4_owners s w))
     in (q, if q = NFS4_OK \<or> q = NFS4ERR_REPLAY then Some a else None, data', s'))
    \<and> minorversion data' = minorversion data \<and> current_obj data' = current_obj data"
proof -
  let ?s = "inc_state_t_ref a s"
  obtain e where e: "state_export (st s a) = Some e" using table_inv_attached [OF assms(1,3)] by (auto simp: attached_def)
  obtain fs where "create_handle (chk_sal env) e (handle_digest (chk_sal env) f) (fsal ?s) = (Some f, fs)"
    using assms(2) unfolding resolves_def by blast
  then have refs: "get_state_obj_export_owner_refs (chk_sal env) True False True (Some a) ?s =
      (True, Some f, None, Some w, add_owner_ref w 1 (add_obj_ref f 1 (?s\<lparr>fsal := fs\<rparr>)))"
    using e own(1) obj(1) by (simp add: get_state_obj_export_owner_refs_def get_state_obj_ref_def)
  have "ht_state_id s (sid_other sid) = Some a" using assms(3) sid(1) by (simp add: in_table_def)
  then have "Check_it env sid (Some f) flags oseq chk data s =
      Check_found env sid (Some f) flags oseq chk a f w data (add_owner_ref w 1 (add_obj_ref f 1 (?s\<lparr>fsal := fs\<rparr>)))"
    using sid(2) refs by (simp add: Check_it_def nfs4_State_Get_Pointer_def)
  moreover have seq: "Check_seqid ((st s a)\<lparr>state_refcount := n\<rparr>) k oseq chk q = Check_seqid (st s a) k oseq chk q" for n k q
    by (simp add: Check_seqid_def Let_def)
  let ?s1 = "add_owner_ref w 1 (add_obj_ref f 1 (?s\<lparr>fsal := fs\<rparr>))" and ?c = "so_clientrec (nfs4_owners s w)"
  obtain ok data1 s2 where l: "Check_lease env ?c data ?s1 = (ok, data1, s2)" using prod_cases3 by blast
  have "lease_ok env ?c data ?s1 = lease_ok env ?c data s"
    by (simp add: lease_ok_def add_owner_ref_def upd_owner_def inc_state_t_ref_def upd_st_def add_obj_ref_def)
  then obtain cl where "s2 = ?s1\<lparr>clients := cl\<rparr>" "ok" "data1 = data\<lparr>preserved_clientid := Some ?c\<rparr>"
    using Check_lease_cases [OF l] own(2) by (metis lease_ok_def)
  moreover have "so_clientrec (nfs4_owners ?s1 w) = ?c" "so_seqid (nfs4_owners ?s1 w) = so_seqid (nfs4_owners s w)"
    "st ?s1 a = (st s a)\<lparr>state_refcount := state_refcount (st s a) + 1\<rparr>"
    by (simp_all add: add_owner_ref_def upd_owner_def)
  ultimately show ?thesis
    using obj(2) flags l by (simp add: Check_found_def seq Let_def)
qed

lemma next_seqid_nonzero: "next_seqid n \<noteq> 0"
  by (simp add: next_seqid_def)

lemma Check_seqid_next:
  assumes "state_seqid x = next_seqid n" "n \<noteq> 0"
  shows "Check_seqid x n oseq False q = NFS4ERR_OLD_STATEID" "Check_seqid x (next_seqid n) oseq False q = NFS4_OK"
proof -
  have "n - next_seqid n = (if n + 1 = 0 then - 2 else - 1)"
    by (auto simp: next_seqid_def eq_neg_iff_add_eq_0 [symmetric])
  then have "sint (n - next_seqid n) < 0" by (auto split: if_splits)
  then show "Check_seqid x n oseq False q = NFS4ERR_OLD_STATEID" "Check_seqid x (next_seqid n) oseq False q = NFS4_OK"
    using assms by (auto simp: Check_seqid_def Let_def)
qed

lemma update_stateid_eq:
  "fst (update_stateid a data s) = \<lparr>sid_seqid = next_seqid (state_seqid (st s a)), sid_other = stateid_other (st s a)\<rparr>"
  "preserved_clientid (fst (snd (update_stateid a data s))) = preserved_clientid data"
  "snd (snd (update_stateid a data s)) = upd_st a (state_seqid_update next_seqid) s"
  by (simp_all add: update_stateid_def Let_def upd_st_def)

subsection \<open>A small system\<close>

definition small_check_env :: "unit check_env" where
  "small_check_env = \<lparr>chk_sal = small_env, server_epoch = 0, ht_confirmed_client_id = (\<lambda>_. Some 0), handle_cmp = (=),
     has_locks = (\<lambda>_. False)\<rparr>"

definition small_data :: compound_data_t where
  "small_data = \<lparr>minorversion = 0, currentFH = \<lparr>fh_len = 6, fh_val = Some [0x43, 0, 0, 1, 1, 2]\<rparr>, current_obj = 2,
     current_filetype = REGULAR_FILE, current_stateid = \<lparr>sid_seqid = 0, sid_other = (0, 0)\<rparr>, current_stateid_valid = False,
     preserved_clientid = Some 0\<rparr>"

lemma small_check:
  "sal_reach (chk_sal small_check_env) [0] one_state" "digests_prefix_free (chk_sal small_check_env)"
  "resolves (chk_sal small_check_env)" "in_table one_state 0" "stateid_other (st one_state 0) = (5, 1)"
  "state_owner (st one_state 0) = Some 3" "state_obj (st one_state 0) = handle_digest (chk_sal small_check_env) 2"
  "lease_ok small_check_env (so_clientrec (nfs4_owners one_state 3)) small_data one_state"
  "handle_cmp small_check_env 2 2" "server_epoch small_check_env = 0" "state_seqid (st one_state 0) = 0"
proof -
  have "so_clientrec (nfs4_owners one_state 3) = 0"
    unfolding one_state_def state_add_impl_eq
    by (simp add: nfs4_State_Set_def find_state_obj_def small_env_def small_sal_def new_state_def Let_def
        state_add_attach_def sal_parts prepared_def alloc_state_def nfs4_BuildStateId_Other_def)
  then show "lease_ok small_check_env (so_clientrec (nfs4_owners one_state 3)) small_data one_state"
    by (simp add: lease_ok_def small_data_def)
qed (use one_state_reach small_env_digests small_env_resolves one_state_eq state_add_success(2) [OF one_state_add] in
    \<open>simp_all add: small_check_env_def in_table_def new_state_def\<close>)

subsection \<open>Properties\<close>



text \<open>C16: the stateid that is handed out for a state in the tables is accepted by the next check, and its sequence
  number is not zero; the one that was handed out before it is then old, also when the number goes
  from the largest back to one.\<close>

theorem stateid_lifecycle:
  assumes reach: "sal_reach (chk_sal env) H s" "digests_prefix_free (chk_sal env)" "resolves (chk_sal env)"
    and a: "in_table s a" "drop_bit 32 (fst (stateid_other (st s a))) = server_epoch env AND 0xFFFFFFFF"
      "stateid_other (st s a) \<noteq> all_zero" "stateid_other (st s a) \<noteq> all_ones"
      "state_owner (st s a) = Some w" "state_obj (st s a) = handle_digest (chk_sal env) f"
    and data: "lease_ok env (so_clientrec (nfs4_owners s w)) data s"
    and env: "handle_cmp env f f" "flags AND STATEID_SPECIAL_FREE = 0"
    and upd: "update_stateid a data s = (sid, data1, s1)"
  shows "sid_seqid sid \<noteq> 0
    \<and> fst (snd (nfs4_Check_Stateid env sid (Some f) flags oseq False data1 s1)) = NFS4_OK
    \<and> fst (snd (snd (nfs4_Check_Stateid env sid (Some f) flags oseq False data1 s1))) = Some a
    \<and> (state_seqid (st s a) \<noteq> 0 \<longrightarrow>
        fst (snd (nfs4_Check_Stateid env (sid\<lparr>sid_seqid := state_seqid (st s a)\<rparr>) (Some f) flags oseq False data1 s1)) =
          NFS4ERR_OLD_STATEID)"
proof -
  note inv = sal_reach_table [OF reach(1,2)]
  let ?n = "state_seqid (st s a)"
  have u: "sid = \<lparr>sid_seqid = next_seqid ?n, sid_other = stateid_other (st s a)\<rparr>"
    "preserved_clientid data1 = preserved_clientid data" "s1 = upd_st a (state_seqid_update next_seqid) s"
    using update_stateid_eq [of a data s] by (simp_all add: upd)
  have s1: "table_inv (chk_sal env) H s1" unfolding u(3) by (rule table_inv_data [OF inv]) (simp_all add: same_state_def)
  have eqs: "in_table s1 a" "stateid_other (st s1 a) = stateid_other (st s a)" "state_owner (st s1 a) = Some w"
    "state_obj (st s1 a) = handle_digest (chk_sal env) f" "nfs4_owners s1 = nfs4_owners s" "state_seqid (st s1 a) = next_seqid ?n"
    using a by (simp_all add: u(3) upd_st_def in_table_def)
  have chk: "\<exists>data' s'. Check_it env k (Some f) flags oseq False data1 s1 =
      (let q = Check_seqid (st s1 a) (sid_seqid k) oseq False (so_seqid (nfs4_owners s1 w))
       in (q, if q = NFS4_OK \<or> q = NFS4ERR_REPLAY then Some a else None, data', s'))
      \<and> minorversion data' = minorversion data1 \<and> current_obj data' = current_obj data1"
    if "sid_other k = stateid_other (st s a)" for k
    using that a(2) data by (intro Check_it_found [OF s1 reach(3) eqs(1) _ _ eqs(3) _ eqs(4) env]) (simp_all add: eqs(2,5) lease_ok_def u(2,3) upd_st_def)
  have dispatch: "snd (nfs4_Check_Stateid env k (Some f) flags oseq False data1 s1) = Check_it env k (Some f) flags oseq False data1 s1"
    if "sid_other k = stateid_other (st s a)" for k using that a(3,4) by (simp add: nfs4_Check_Stateid_def)
  have new: "Check_seqid (st s1 a) (next_seqid ?n) oseq False q = NFS4_OK" for q
    by (simp add: Check_seqid_def eqs(6) Let_def)
  have old: "?n \<noteq> 0 \<Longrightarrow> Check_seqid (st s1 a) ?n oseq False q = NFS4ERR_OLD_STATEID" for q
    using Check_seqid_next(1) [OF eqs(6)] .
  show ?thesis
    using chk [of sid] chk [of "sid\<lparr>sid_seqid := ?n\<rparr>"] dispatch [of sid] dispatch [of "sid\<lparr>sid_seqid := ?n\<rparr>"] new old
      next_seqid_nonzero [of ?n] by (auto simp: u(1) Let_def)
qed

theorem stateid_lifecycle_witness:
  "fst (snd (nfs4_Check_Stateid small_check_env (fst (update_stateid 0 small_data one_state)) (Some 2) 0 0 False
     (fst (snd (update_stateid 0 small_data one_state))) (snd (snd (update_stateid 0 small_data one_state))))) = NFS4_OK"
  using stateid_lifecycle [OF small_check(1-4) _ _ _ small_check(6,7,8,9), of 0 "fst (update_stateid 0 small_data one_state)"
      "fst (snd (update_stateid 0 small_data one_state))" "snd (snd (update_stateid 0 small_data one_state))" 0]
  by (simp add: small_check(5,10))

end
