(* ===== verification/Share_Reservation.thy ===== *)
theory Share_Reservation
  imports State_Safety
begin

text \<open>
  Share reservations, \<^verbatim>\<open>SAL/state_share.c\<close>, and the requests that use them: the open itself
  (\<^verbatim>\<open>open4_do_open\<close>, for back ends without the extended operations), OPEN_DOWNGRADE and CLOSE.  The
  five counters of a file are 32-bit words that wrap.  The functions of the back end and the checks
  that are made elsewhere (\<^verbatim>\<open>fsal_access\<close>, \<^verbatim>\<open>fsal_open\<close>, \<^verbatim>\<open>fsal_reopen2\<close>, \<^verbatim>\<open>share_op\<close>,
  \<^verbatim>\<open>state_deleg_conflict\<close>) are fields
  of \<open>open_env\<close>.
\<close>

unbundle bit_operations_syntax

subsection \<open>Constants and environment\<close>

abbreviation (input) OPEN4_SHARE_ACCESS_NONE :: uint32 where "OPEN4_SHARE_ACCESS_NONE \<equiv> 0"
abbreviation (input) OPEN4_SHARE_ACCESS_READ :: uint32 where "OPEN4_SHARE_ACCESS_READ \<equiv> 1"
abbreviation (input) OPEN4_SHARE_ACCESS_WRITE :: uint32 where "OPEN4_SHARE_ACCESS_WRITE \<equiv> 2"
abbreviation (input) OPEN4_SHARE_ACCESS_BOTH :: uint32 where "OPEN4_SHARE_ACCESS_BOTH \<equiv> 3"
abbreviation (input) OPEN4_SHARE_DENY_NONE :: uint32 where "OPEN4_SHARE_DENY_NONE \<equiv> 0"
abbreviation (input) OPEN4_SHARE_DENY_READ :: uint32 where "OPEN4_SHARE_DENY_READ \<equiv> 1"
abbreviation (input) OPEN4_SHARE_DENY_WRITE :: uint32 where "OPEN4_SHARE_DENY_WRITE \<equiv> 2"
abbreviation (input) OPEN4_SHARE_DENY_BOTH :: uint32 where "OPEN4_SHARE_DENY_BOTH \<equiv> 3"
abbreviation (input) FSAL_O_READ :: uint32 where "FSAL_O_READ \<equiv> 0x0001"
abbreviation (input) FSAL_O_WRITE :: uint32 where "FSAL_O_WRITE \<equiv> 0x0002"
abbreviation (input) FSAL_O_RECLAIM :: uint32 where "FSAL_O_RECLAIM \<equiv> 0x0008"
abbreviation (input) FSAL_O_DENY_READ :: uint32 where "FSAL_O_DENY_READ \<equiv> 0x0100"
abbreviation (input) FSAL_O_DENY_WRITE_MAND :: uint32 where "FSAL_O_DENY_WRITE_MAND \<equiv> 0x0400"

datatype share_bypass_modes = SHARE_BYPASS_NONE | SHARE_BYPASS_READ | SHARE_BYPASS_V3_WRITE

record fsal_share_param_t =
  param_share_access :: uint32
  param_share_deny :: uint32
  param_share_reclaim :: bool

record 'fs open_env =
  sal_env :: "'fs sal_env"
  fso_share_support :: "nat \<Rightarrow> bool"
  share_op :: "nat \<Rightarrow> fsal_share_param_t \<Rightarrow> 'fs \<Rightarrow> fsal_status_t \<times> 'fs"
  has_state_hdl :: "nat \<Rightarrow> bool"
  fsal_access :: "nat \<Rightarrow> bool \<Rightarrow> bool \<Rightarrow> bool \<Rightarrow> 'fs \<Rightarrow> fsal_status_t \<times> 'fs"
  state_deleg_conflict :: "nat \<Rightarrow> bool \<Rightarrow> 'fs \<Rightarrow> bool \<times> 'fs"
  fsal_open :: "nat \<Rightarrow> uint32 \<Rightarrow> 'fs \<Rightarrow> fsal_status_t \<times> 'fs"
  fsal_reopen2 :: "nat \<Rightarrow> nat \<Rightarrow> uint32 \<Rightarrow> bool \<Rightarrow> 'fs \<Rightarrow> fsal_status_t \<times> 'fs"
  fsal_close :: "nat \<Rightarrow> 'fs \<Rightarrow> fsal_status_t \<times> 'fs"

subsection \<open>Counters\<close>

text \<open>\<^verbatim>\<open>(x & m) != 0\<close>, as the number 0 or 1.\<close>

definition flag :: "uint32 \<Rightarrow> uint32 \<Rightarrow> uint32" where
  "flag x m = of_bool (x AND m \<noteq> 0)"

definition state_share_update_counter ::
  "uint32 \<Rightarrow> uint32 \<Rightarrow> uint32 \<Rightarrow> uint32 \<Rightarrow> bool \<Rightarrow> sal_share_t \<Rightarrow> sal_share_t" where
  "state_share_update_counter old_access old_deny new_access new_deny v4 c =
    (let access_read_inc = flag new_access OPEN4_SHARE_ACCESS_READ - flag old_access OPEN4_SHARE_ACCESS_READ;
         access_write_inc = flag new_access OPEN4_SHARE_ACCESS_WRITE - flag old_access OPEN4_SHARE_ACCESS_WRITE;
         deny_read_inc = flag new_deny OPEN4_SHARE_DENY_READ - flag old_deny OPEN4_SHARE_DENY_READ;
         deny_write_inc = flag new_deny OPEN4_SHARE_DENY_WRITE - flag old_deny OPEN4_SHARE_DENY_WRITE
     in c\<lparr>share_access_read := share_access_read c + access_read_inc,
          share_access_write := share_access_write c + access_write_inc,
          share_deny_read := share_deny_read c + deny_read_inc,
          share_deny_write := share_deny_write c + deny_write_inc,
          share_deny_write_v4 := (if v4 then share_deny_write_v4 c + deny_write_inc else share_deny_write_v4 c)\<rparr>)"

definition state_share_get_share_access :: "sal_share_t \<Rightarrow> uint32" where
  "state_share_get_share_access c =
    (let a = OPEN4_SHARE_ACCESS_NONE;
         a = (if share_access_read c > 0 then a OR OPEN4_SHARE_ACCESS_READ else a)
     in if share_access_write c > 0 then a OR OPEN4_SHARE_ACCESS_WRITE else a)"

definition state_share_get_share_deny :: "sal_share_t \<Rightarrow> uint32" where
  "state_share_get_share_deny c =
    (let d = OPEN4_SHARE_DENY_NONE;
         d = (if share_deny_read c > 0 then d OR OPEN4_SHARE_DENY_READ else d)
     in if share_deny_write c > 0 then d OR OPEN4_SHARE_DENY_WRITE else d)"

definition state_share_check_conflict ::
  "sal_share_t \<Rightarrow> uint32 \<Rightarrow> uint32 \<Rightarrow> share_bypass_modes \<Rightarrow> state_status_t" where
  "state_share_check_conflict c access deny bypass =
    (if access AND OPEN4_SHARE_ACCESS_READ \<noteq> 0 \<and> share_deny_read c > 0 \<and> bypass \<noteq> SHARE_BYPASS_READ
     then STATE_SHARE_DENIED
     else if access AND OPEN4_SHARE_ACCESS_WRITE \<noteq> 0
        \<and> (share_deny_write_v4 c > 0 \<or> bypass \<noteq> SHARE_BYPASS_V3_WRITE \<and> share_deny_write c > 0)
     then STATE_SHARE_DENIED
     else if deny AND OPEN4_SHARE_DENY_READ \<noteq> 0 \<and> share_access_read c > 0 then STATE_SHARE_DENIED
     else if deny AND OPEN4_SHARE_DENY_WRITE \<noteq> 0 \<and> share_access_write c > 0 then STATE_SHARE_DENIED
     else STATE_SUCCESS)"

definition upd_share :: "nat \<Rightarrow> (sal_share_t \<Rightarrow> sal_share_t) \<Rightarrow> 'fs sal \<Rightarrow> 'fs sal" where
  "upd_share obj f s = upd_file obj (share_state_update f) s"

subsection \<open>Changing the reservation of a state\<close>

definition do_share_op ::
  "'fs open_env \<Rightarrow> nat \<Rightarrow> nat \<Rightarrow> fsal_share_param_t \<Rightarrow> 'fs sal \<Rightarrow> state_status_t \<times> 'fs sal" where
  "do_share_op env ctx obj share s =
    (if \<not> fso_share_support env ctx then (STATE_SUCCESS, s)
     else case share_op env obj share (fsal s) of
       (fsal_status, fs) \<Rightarrow> (state_error_convert fsal_status, s\<lparr>fsal := fs\<rparr>))"

text \<open>
  What \<^verbatim>\<open>state_share_add\<close>, \<^verbatim>\<open>state_share_remove\<close>, \<^verbatim>\<open>state_share_upgrade\<close> and \<^verbatim>\<open>state_share_downgrade\<close>
  have in common: the counters change from the old to the new reservation, the union is pushed
  to the back end if it has changed, and the counters are changed back if that fails.
\<close>

definition state_share_change ::
  "'fs open_env \<Rightarrow> nat \<Rightarrow> nat \<Rightarrow> uint32 \<Rightarrow> uint32 \<Rightarrow> uint32 \<Rightarrow> uint32 \<Rightarrow> bool \<Rightarrow> 'fs sal \<Rightarrow>
   state_status_t \<times> 'fs sal" where
  "state_share_change env ctx obj old_access old_deny new_access new_deny reclaim s =
    (let c = share_state (files s obj);
         old_entry_access = state_share_get_share_access c;
         old_entry_deny = state_share_get_share_deny c;
         s = upd_share obj (state_share_update_counter old_access old_deny new_access new_deny True) s;
         c = share_state (files s obj);
         new_entry_access = state_share_get_share_access c;
         new_entry_deny = state_share_get_share_deny c
     in if new_entry_access \<noteq> old_entry_access \<or> new_entry_deny \<noteq> old_entry_deny then
          (case do_share_op env ctx obj \<lparr>param_share_access = new_entry_access, param_share_deny = new_entry_deny,
              param_share_reclaim = reclaim\<rparr> s of
             (status, s) \<Rightarrow>
               if status \<noteq> STATE_SUCCESS
               then (status, upd_share obj
                      (state_share_update_counter new_access new_deny old_access old_deny True) s)
               else (status, s))
        else (STATE_SUCCESS, s))"

definition share_of :: "'fs sal \<Rightarrow> nat \<Rightarrow> state_share" where
  "share_of s a = (case state_data (st s a) of
      Share_data d \<Rightarrow> d
    | _ \<Rightarrow> \<lparr>share_access = 0, share_deny = 0, share_access_prev = 0, share_deny_prev = 0\<rparr>)"

definition set_share :: "nat \<Rightarrow> (state_share \<Rightarrow> state_share) \<Rightarrow> 'fs sal \<Rightarrow> 'fs sal" where
  "set_share a f s = upd_st a (state_data_update (\<lambda>_. Share_data (f (share_of s a)))) s"

definition state_share_set_prev :: "nat \<Rightarrow> uint32 \<Rightarrow> uint32 \<Rightarrow> 'fs sal \<Rightarrow> 'fs sal" where
  "state_share_set_prev a access deny s =
    set_share a (\<lambda>d. d\<lparr>share_access_prev := share_access_prev d OR push_bit (unat access) 1,
                       share_deny_prev := share_deny_prev d OR push_bit (unat deny) 1\<rparr>) s"

definition state_share_add ::
  "'fs open_env \<Rightarrow> nat \<Rightarrow> nat \<Rightarrow> nat \<Rightarrow> bool \<Rightarrow> 'fs sal \<Rightarrow> state_status_t \<times> 'fs sal" where
  "state_share_add env ctx obj a reclaim s =
    (let d = share_of s a in
     case state_share_change env ctx obj OPEN4_SHARE_ACCESS_NONE OPEN4_SHARE_DENY_NONE
         (share_access d) (share_deny d) reclaim s of
       (status, s) \<Rightarrow>
         if status \<noteq> STATE_SUCCESS then (status, s)
         else (status, state_share_set_prev a (share_access d) (share_deny d) s))"

definition state_share_remove ::
  "'fs open_env \<Rightarrow> nat \<Rightarrow> nat \<Rightarrow> nat \<Rightarrow> 'fs sal \<Rightarrow> state_status_t \<times> 'fs sal" where
  "state_share_remove env ctx obj a s =
    (let d = share_of s a in
     state_share_change env ctx obj (share_access d) (share_deny d)
       OPEN4_SHARE_ACCESS_NONE OPEN4_SHARE_DENY_NONE False s)"

definition state_share_upgrade ::
  "'fs open_env \<Rightarrow> nat \<Rightarrow> nat \<Rightarrow> uint32 \<Rightarrow> uint32 \<Rightarrow> nat \<Rightarrow> bool \<Rightarrow> 'fs sal \<Rightarrow> state_status_t \<times> 'fs sal" where
  "state_share_upgrade env ctx obj access deny a reclaim s =
    (let d = share_of s a;
         new_access = access OR share_access d;
         new_deny = deny OR share_deny d in
     case state_share_change env ctx obj (share_access d) (share_deny d) new_access new_deny reclaim s of
       (status, s) \<Rightarrow>
         if status \<noteq> STATE_SUCCESS then (status, s)
         else
           (let s = set_share a (\<lambda>d. d\<lparr>share_access := new_access, share_deny := new_deny\<rparr>) s
            in (status, state_share_set_prev a access deny s)))"

definition state_share_downgrade ::
  "'fs open_env \<Rightarrow> nat \<Rightarrow> nat \<Rightarrow> uint32 \<Rightarrow> uint32 \<Rightarrow> nat \<Rightarrow> 'fs sal \<Rightarrow> state_status_t \<times> 'fs sal" where
  "state_share_downgrade env ctx obj access deny a s =
    (let d = share_of s a in
     case state_share_change env ctx obj (share_access d) (share_deny d) access deny False s of
       (status, s) \<Rightarrow>
         if status \<noteq> STATE_SUCCESS then (status, s)
         else (status, set_share a (\<lambda>d. d\<lparr>share_access := access, share_deny := deny\<rparr>) s))"

subsection \<open>Anonymous input and output\<close>

definition state_share_anonymous_io_start ::
  "'fs open_env \<Rightarrow> nat \<Rightarrow> uint32 \<Rightarrow> share_bypass_modes \<Rightarrow> 'fs sal \<Rightarrow> state_status_t \<times> 'fs sal" where
  "state_share_anonymous_io_start env obj access bypass s =
    (let status = state_share_check_conflict (share_state (files s obj)) access OPEN4_SHARE_DENY_NONE bypass in
     if status \<noteq> STATE_SUCCESS then (STATE_LOCKED, s)
     else case state_deleg_conflict env obj (access AND OPEN4_SHARE_ACCESS_WRITE \<noteq> 0) (fsal s) of
       (conflict, fs) \<Rightarrow>
         (let s = s\<lparr>fsal := fs\<rparr> in
          if conflict then (STATE_FSAL_DELAY, s)
          else
            (let s = upd_file obj (\<lambda>f. f\<lparr>anon_ops := anon_ops f + 1\<rparr>) s
             in (status, upd_share obj (state_share_update_counter OPEN4_SHARE_ACCESS_NONE OPEN4_SHARE_DENY_NONE
                    access OPEN4_SHARE_DENY_NONE False) s))))"

definition state_share_anonymous_io_done :: "nat \<Rightarrow> uint32 \<Rightarrow> 'fs sal \<Rightarrow> 'fs sal" where
  "state_share_anonymous_io_done obj access s =
    upd_file obj (\<lambda>f. f\<lparr>anon_ops := anon_ops f - 1\<rparr>)
      (upd_share obj (state_share_update_counter access OPEN4_SHARE_DENY_NONE OPEN4_SHARE_ACCESS_NONE
         OPEN4_SHARE_DENY_NONE False) s)"

subsection \<open>OPEN\<close>

text \<open>The permission check: reading a file may also be allowed by the right to execute it.\<close>

definition open4_access ::
  "'fs open_env \<Rightarrow> nat \<Rightarrow> uint32 \<Rightarrow> bool \<Rightarrow> 'fs sal \<Rightarrow> nfsstat4 option \<times> 'fs sal" where
  "open4_access env obj access skip_permission s =
    (if skip_permission then (None, s)
     else
       (case fsal_access env obj (access AND OPEN4_SHARE_ACCESS_READ \<noteq> 0)
           (access AND OPEN4_SHARE_ACCESS_WRITE \<noteq> 0) False (fsal s) of
          (status, fs) \<Rightarrow>
            (let s = s\<lparr>fsal := fs\<rparr> in
             if \<not> FSAL_IS_ERROR status then (None, s)
             else if major status \<noteq> ERR_FSAL_ACCESS then (Some (nfs4_Errno_verbose (major status)), s)
             else if access AND OPEN4_SHARE_ACCESS_WRITE \<noteq> 0 then (Some (nfs4_Errno_verbose (major status)), s)
             else (case fsal_access env obj False False True (fsal s) of
                 (status, fs) \<Rightarrow>
                   (if FSAL_IS_ERROR status then Some (nfs4_Errno_verbose (major status)) else None,
                    s\<lparr>fsal := fs\<rparr>)))))"

text \<open>
  The part after the checks.  The result is the status, the open state on success, and whether
  it is new.
\<close>

definition open4_share ::
  "'fs open_env \<Rightarrow> nat \<Rightarrow> nat \<Rightarrow> uint32 \<Rightarrow> uint32 \<Rightarrow> uint32 \<Rightarrow> nat \<Rightarrow> bool \<Rightarrow> 'fs sal \<Rightarrow>
   nfsstat4 \<times> nat option \<times> bool \<times> 'fs sal" where
  "open4_share env ctx obj access deny openflags a new s =
    (case fsal_open env obj openflags (fsal s) of
       (status, fs) \<Rightarrow>
         (let s = s\<lparr>fsal := fs\<rparr> in
          if FSAL_IS_ERROR status then (nfs4_Errno_verbose (major status), None, new, s)
          else
            (case (let reclaim = (openflags AND FSAL_O_RECLAIM \<noteq> 0) in
                   if new then state_share_add env ctx obj a reclaim s
                   else state_share_upgrade env ctx obj access deny a reclaim s) of
               (status, s) \<Rightarrow>
                 if status \<noteq> STATE_SUCCESS then
                   (case fsal_close env obj (fsal s) of
                      (_, fs) \<Rightarrow>
                        (let s = s\<lparr>fsal := fs\<rparr>
                         in (nfs4_Errno_state status, None, new, if new then s else dec_nfs4_state_ref a s)))
                 else (NFS4_OK, Some a, new, s))))"

definition open4_do_open ::
  "'fs open_env \<Rightarrow> nat \<Rightarrow> nat \<Rightarrow> uint32 \<Rightarrow> uint32 \<Rightarrow> nat \<Rightarrow> uint32 \<Rightarrow> bool \<Rightarrow> state_refer option \<Rightarrow>
   'fs sal \<Rightarrow> nfsstat4 \<times> nat option \<times> bool \<times> 'fs sal" where
  "open4_do_open env ctx obj share_acc share_den owner openflags skip_permission refer s =
    (case open4_access env obj share_acc skip_permission s of
       (Some status, s) \<Rightarrow> (status, None, True, s)
     | (None, s) \<Rightarrow>
        if \<not> has_state_hdl env obj then (NFS4ERR_SERVERFAULT, None, True, s)
        else
          (let access = share_acc AND OPEN4_SHARE_ACCESS_BOTH;
               status = state_share_check_conflict (share_state (files s obj)) access share_den SHARE_BYPASS_NONE
           in if status \<noteq> STATE_SUCCESS then (nfs4_Errno_state status, None, True, s)
              else
                (case state_deleg_conflict env obj (access AND OPEN4_SHARE_ACCESS_WRITE \<noteq> 0) (fsal s) of
                   (conflict, fs) \<Rightarrow>
                     (let s = s\<lparr>fsal := fs\<rparr> in
                      if conflict then (NFS4ERR_DELAY, None, True, s)
                      else
                        (case nfs4_State_Get_Obj (sal_env env) obj owner s of
                           (None, s) \<Rightarrow>
                             (case state_add_impl (sal_env env) ctx obj STATE_TYPE_SHARE
                                 (Share_data \<lparr>share_access = access, share_deny = share_den, share_access_prev = 0,
                                    share_deny_prev = 0\<rparr>) owner None refer s of
                                (status, Some a, s) \<Rightarrow>
                                  open4_share env ctx obj access share_den openflags a True
                                    (s\<lparr>share_lockstates := (share_lockstates s)(a := [])\<rparr>)
                              | (status, None, s) \<Rightarrow> (nfs4_Errno_state status, None, True, s))
                         | (Some a, s) \<Rightarrow>
                             if state_export (st s a) \<noteq> Some ctx
                             then (NFS4ERR_INVAL, None, False, dec_nfs4_state_ref a s)
                             else open4_share env ctx obj access share_den openflags a False s)))))"

subsection \<open>OPEN_DOWNGRADE and CLOSE\<close>

definition nfs4_do_open_downgrade ::
  "'fs open_env \<Rightarrow> nat \<Rightarrow> nat \<Rightarrow> uint32 \<Rightarrow> uint32 \<Rightarrow> nat \<Rightarrow> 'fs sal \<Rightarrow> nfsstat4 \<times> 'fs sal" where
  "nfs4_do_open_downgrade env ctx obj access deny a s =
    (let d = share_of s a in
     if share_access d AND access \<noteq> access then (NFS4ERR_INVAL, s)
     else if share_deny d AND deny \<noteq> deny then (NFS4ERR_INVAL, s)
     else if share_access_prev d AND push_bit (unat access) 1 = 0
        \<or> share_deny_prev d AND push_bit (unat deny) 1 = 0 then (NFS4ERR_INVAL, s)
     else
       (case (if support_ex (sal_env env) obj then
                (let openflags = (if access AND OPEN4_SHARE_ACCESS_READ \<noteq> 0 then FSAL_O_READ else 0);
                     openflags = (if access AND OPEN4_SHARE_ACCESS_WRITE \<noteq> 0 then openflags OR FSAL_O_WRITE else openflags);
                     openflags = (if deny AND OPEN4_SHARE_DENY_READ \<noteq> 0 then openflags OR FSAL_O_DENY_READ else openflags);
                     openflags = (if deny AND OPEN4_SHARE_DENY_WRITE \<noteq> 0 then openflags OR FSAL_O_DENY_WRITE_MAND else openflags)
                 in case fsal_reopen2 env obj a openflags True (fsal s) of
                      (fsal_status, fs) \<Rightarrow> (state_error_convert fsal_status, s\<lparr>fsal := fs\<rparr>))
              else state_share_downgrade env ctx obj access deny a s) of
          (status, s) \<Rightarrow> (if status \<noteq> STATE_SUCCESS then NFS4ERR_SERVERFAULT else NFS4_OK, s)))"

text \<open>The end of CLOSE, once the open state is known to have no locks; a failure of the share operation is logged.\<close>

definition close_share :: "'fs open_env \<Rightarrow> nat \<Rightarrow> nat \<Rightarrow> nat \<Rightarrow> 'fs sal \<Rightarrow> 'fs sal" where
  "close_share env ctx obj a s =
    (let s = fold (state_del_locked (sal_env env)) (share_lockstates s a) s;
         s = (if state_type (st s a) = STATE_TYPE_SHARE \<and> \<not> support_ex (sal_env env) obj
              then snd (state_share_remove env ctx obj a s) else s)
     in state_del_locked (sal_env env) a s)"

end
