(* ===== verification/Share_Invariant.thy ===== *)
theory Share_Invariant
  imports State_Theorems Share_Reservation
begin

text \<open>
  The invariant of opens: the counters of a file are the numbers of opens with each bit, and opens
  of the same file never meet the deny mode of another one.  What each kind of change does to it.
\<close>

unbundle bit_operations_syntax

subsection \<open>Counters and sums\<close>

lemma and_flags: "(x :: uint32) AND 1 \<noteq> 0 \<longleftrightarrow> bit x 0" "x AND 2 \<noteq> 0 \<longleftrightarrow> bit x 1"
proof -
  show "x AND 1 \<noteq> 0 \<longleftrightarrow> bit x 0" by (simp add: and_one_eq bit_0 odd_iff_mod_2_eq_one)
  have "x AND 2 = of_bool (bit x 1) * 2"
    by (rule bit_word_eqI) (auto simp: bit_simps bit_0 bit_Suc less_Suc_eq numeral_2_eq_2 split: nat.splits)
  then show "x AND 2 \<noteq> 0 \<longleftrightarrow> bit x 1" by simp
qed

lemma flag_bit: "flag x 1 = of_bool (bit x 0)" "flag x 2 = of_bool (bit x 1)"
  unfolding flag_def and_flags by (rule refl)+

text \<open>A reservation meets the deny mode of another one.\<close>

definition denies :: "uint32 \<Rightarrow> uint32 \<Rightarrow> bool" where
  "denies deny access \<longleftrightarrow> access AND deny AND OPEN4_SHARE_ACCESS_BOTH \<noteq> 0"

lemma denies_bit: "denies deny access \<longleftrightarrow> bit access 0 \<and> bit deny 0 \<or> bit access 1 \<and> bit deny 1"
proof -
  have "(3 :: uint32) = 1 OR 2" by simp
  then have "access AND deny AND 3 = (access AND deny AND 1) OR (access AND deny AND 2)"
    by (simp only: bit.conj_disj_distrib)
  then have "denies deny access \<longleftrightarrow> (access AND deny) AND 1 \<noteq> 0 \<or> (access AND deny) AND 2 \<noteq> 0"
    by (simp only: denies_def or_eq_0_iff and.assoc) blast
  then show ?thesis unfolding and_flags by (simp add: bit_and_iff)
qed

text \<open>A sum of flags that is zero has only zeros, unless it has gone round.\<close>

lemma sum_flags_zero:
  fixes p :: "'a \<Rightarrow> bool"
  assumes "finite S" "card S + length xs < 2 ^ 32"
    and "(\<Sum>a\<in>S. of_bool (p a)) + (\<Sum>x\<leftarrow>xs. of_bool (q x)) = (0 :: uint32)"
  shows "\<forall>a\<in>S. \<not> p a"
proof -
  let ?n = "card {a \<in> S. p a} + length (filter q xs)"
  have "(\<Sum>x\<leftarrow>xs. of_bool (q x)) = (of_nat (length (filter q xs)) :: uint32)" by (induction xs) auto
  moreover have "(\<Sum>a\<in>S. of_bool (p a)) = (of_nat (card {a \<in> S. p a}) :: uint32)"
    using assms(1) by (simp add: of_bool_def sum.If_cases Collect_conj_eq Int_commute)
  ultimately have zero: "(of_nat ?n :: uint32) = 0" using assms(3) by simp
  have "?n \<le> card S + length xs"
    using assms(1) by (intro add_mono card_mono) auto
  then have "?n < 2 ^ LENGTH(32)" using assms(2) by simp
  then have "?n = 0" using zero of_nat_neq_0 [of ?n, where 'a = 32] by (metis neq0_conv)
  then show ?thesis using assms(1) by auto
qed

text \<open>
  The counters \<open>c\<close> count the reservations \<open>g a\<close> of the opens \<open>a \<in> S\<close> and the anonymous
  accesses \<open>xs\<close> in progress.
\<close>

definition counted :: "sal_share_t \<Rightarrow> nat set \<Rightarrow> (nat \<Rightarrow> state_share) \<Rightarrow> uint32 list \<Rightarrow> bool" where
  "counted c S g xs \<longleftrightarrow>
    share_access_read c = (\<Sum>a\<in>S. of_bool (bit (share_access (g a)) 0)) + (\<Sum>x\<leftarrow>xs. of_bool (bit x 0))
    \<and> share_access_write c = (\<Sum>a\<in>S. of_bool (bit (share_access (g a)) 1)) + (\<Sum>x\<leftarrow>xs. of_bool (bit x 1))
    \<and> share_deny_read c = (\<Sum>a\<in>S. of_bool (bit (share_deny (g a)) 0))
    \<and> share_deny_write c = (\<Sum>a\<in>S. of_bool (bit (share_deny (g a)) 1))
    \<and> share_deny_write_v4 c = share_deny_write c"

lemmas update_counter = state_share_update_counter_def flag_bit Let_def

lemma update_counter_revert:
  "state_share_update_counter na nd oa od v4 (state_share_update_counter oa od na nd v4 c) = c"
  by (simp add: update_counter)

lemma counted_cong:
  assumes "counted c S g xs" "\<And>a. a \<in> S \<Longrightarrow> share_access (h a) = share_access (g a) \<and> share_deny (h a) = share_deny (g a)"
  shows "counted c S h xs"
  using assms unfolding counted_def by (simp cong: sum.cong)

lemma counted_add:
  assumes "counted c S g xs" "finite S" "a \<notin> S"
  shows "counted (state_share_update_counter 0 0 (share_access (g a)) (share_deny (g a)) True c) (insert a S) g xs"
  using assms by (simp add: counted_def update_counter algebra_simps)

lemma counted_del:
  assumes "counted c S g xs" "finite S" "a \<in> S"
  shows "counted (state_share_update_counter (share_access (g a)) (share_deny (g a)) 0 0 True c) (S - {a}) g xs"
  using assms by (simp add: counted_def update_counter sum.remove [OF assms(2,3)] algebra_simps)

lemma counted_change:
  assumes "counted c S g xs" "finite S" "a \<in> S" "\<And>b. b \<noteq> a \<Longrightarrow> h b = g b"
  shows "counted (state_share_update_counter (share_access (g a)) (share_deny (g a)) (share_access (h a))
    (share_deny (h a)) True c) S h xs"
proof -
  let ?c = "state_share_update_counter (share_access (g a)) (share_deny (g a)) 0 0 True c"
  have "counted ?c (S - {a}) h xs"
    using counted_cong [OF counted_del [OF assms(1-3)], of h] assms(4) by simp
  from counted_add [OF this, of a] assms(2,3)
  have "counted (state_share_update_counter 0 0 (share_access (h a)) (share_deny (h a)) True ?c) S h xs"
    by (simp add: insert_absorb)
  moreover have "state_share_update_counter 0 0 (share_access (h a)) (share_deny (h a)) True ?c =
      state_share_update_counter (share_access (g a)) (share_deny (g a)) (share_access (h a)) (share_deny (h a)) True c"
    by (simp add: update_counter)
  ultimately show ?thesis by simp
qed

lemma counted_anon:
  "counted c S g xs \<Longrightarrow> counted (state_share_update_counter 0 0 x 0 False c) S g (x # xs)"
  by (simp add: counted_def update_counter)

lemma counted_anon_done:
  assumes "counted c S g xs" "x \<in> set xs"
  shows "counted (state_share_update_counter x 0 0 0 False c) S g (remove1 x xs)"
proof -
  have "(\<Sum>y\<leftarrow>xs. f y) = f x + (\<Sum>y\<leftarrow>remove1 x xs. f y)" for f :: "uint32 \<Rightarrow> uint32"
    using assms(2) by (simp add: sum_list_map_remove1)
  then show ?thesis using assms(1) by (simp add: counted_def update_counter)
qed

text \<open>What a successful check says about the opens that are counted.\<close>

lemma check_conflict_success:
  assumes "state_share_check_conflict c access deny SHARE_BYPASS_NONE = STATE_SUCCESS"
    and "counted c S g xs" "finite S" "card S + length xs < 2 ^ 32" "a \<in> S"
  shows "\<not> denies (share_deny (g a)) access" "\<not> denies deny (share_access (g a))"
proof -
  note zero = sum_flags_zero [OF assms(3,4)]
  note c = assms(1) [unfolded state_share_check_conflict_def and_flags, simplified]
  have z: "(x :: uint32) > 0 \<longleftrightarrow> x \<noteq> 0" for x by (rule word_neq_0_conv [symmetric])
  have sums: "(\<Sum>a\<in>S. of_bool (p a)) = (0 :: uint32) \<Longrightarrow> \<not> p a" for p :: "nat \<Rightarrow> bool"
    using sum_flags_zero [of S "[]" p] assms(3-5) by simp
  show "\<not> denies (share_deny (g a)) access"
    using c assms(2) sums [of "\<lambda>a. bit (share_deny (g a)) 0"] sums [of "\<lambda>a. bit (share_deny (g a)) 1"]
    by (auto simp: denies_bit counted_def z split: if_splits)
  show "\<not> denies deny (share_access (g a))"
    using c assms(2,5) zero [of "\<lambda>a. bit (share_access (g a)) 0" "\<lambda>x. bit x 0"]
      zero [of "\<lambda>a. bit (share_access (g a)) 1" "\<lambda>x. bit x 1"]
    by (auto simp: denies_bit counted_def z split: if_splits)
qed

subsection \<open>The invariant of opens\<close>

definition opens :: "'fs sal \<Rightarrow> nat \<Rightarrow> nat set" where
  "opens s f = {a \<in> set (list_of_states (files s f)). state_type (st s a) = STATE_TYPE_SHARE}"

text \<open>Open states belong to open owners; lock states, which are those listed at open states, to lock owners.\<close>

definition lockstates_ok :: "'fs sal_env \<Rightarrow> 'fs sal \<Rightarrow> bool" where
  "lockstates_ok e s \<longleftrightarrow>
    (\<forall>a. distinct (share_lockstates s a))
    \<and> (\<forall>a b. b \<in> set (share_lockstates s a) \<longrightarrow> in_table s b \<and> state_type (st s b) = STATE_TYPE_LOCK)
    \<and> (\<forall>a w. in_table s a \<longrightarrow> state_owner (st s a) = Some w \<longrightarrow>
         (state_type (st s a) = STATE_TYPE_SHARE \<longrightarrow> so_type (owners (own_env e) w) = STATE_OPEN_OWNER_NFSV4)
         \<and> (state_type (st s a) = STATE_TYPE_LOCK \<longrightarrow> so_type (owners (own_env e) w) = STATE_LOCK_OWNER_NFSV4))"

lemma lockstates_ok_same:
  assumes "lockstates_ok e s" "\<And>a. in_table s' a \<longleftrightarrow> in_table s a" "\<And>a. in_table s a \<Longrightarrow> same_state (st s' a) (st s a)"
    "share_lockstates s' = share_lockstates s"
  shows "lockstates_ok e s'"
  using assms(1,3) unfolding lockstates_ok_def assms(2,4) same_state_def by (metis (no_types))

definition shares_ok :: "(nat \<Rightarrow> uint32 list) \<Rightarrow> 'fs sal \<Rightarrow> bool" where
  "shares_ok An s \<longleftrightarrow>
    (\<forall>f. counted (share_state (files s f)) (opens s f) (share_of s) (An f))
    \<and> (\<forall>f a b. a \<in> opens s f \<longrightarrow> b \<in> opens s f \<longrightarrow> a \<noteq> b \<longrightarrow>
         \<not> denies (share_deny (share_of s b)) (share_access (share_of s a)))"

text \<open>\<open>H\<close> are the references held within a request, \<open>An\<close> the anonymous accesses in progress on each file.\<close>

definition open_inv :: "'fs open_env \<Rightarrow> nat list \<Rightarrow> (nat \<Rightarrow> uint32 list) \<Rightarrow> 'fs sal \<Rightarrow> bool" where
  "open_inv env H An s \<longleftrightarrow>
    table_inv (sal_env env) H s \<and> list_inv (sal_env env) s \<and> lockstates_ok (sal_env env) s \<and> shares_ok An s"

text \<open>
  What is relied on of the back end: it finds files again by their digest, digests are not
  prefixes of one another, and opening a file and recording its shares do not fail.
\<close>

definition good_env :: "'fs open_env \<Rightarrow> bool" where
  "good_env env \<longleftrightarrow> digests_prefix_free (sal_env env) \<and> resolves (sal_env env)
    \<and> (\<forall>obj fl fs. \<not> FSAL_IS_ERROR (fst (fsal_open env obj fl fs)))
    \<and> (\<forall>obj p fs. \<not> FSAL_IS_ERROR (fst (share_op env obj p fs)))"

lemma finite_opens [simp]: "finite (opens s f)"
  by (simp add: opens_def)

lemma opens_simps [simp]:
  "opens (s\<lparr>share_lockstates := x\<rparr>) f = opens s f" "opens (s\<lparr>fsal := fs\<rparr>) f = opens s f"
  by (simp_all add: opens_def)

lemma shares_ok_same:
  assumes "shares_ok An s" "\<And>f. opens s' f = opens s f" "\<And>f. share_state (files s' f) = share_state (files s f)"
    "\<And>f a. a \<in> opens s f \<Longrightarrow> share_access (share_of s' a) = share_access (share_of s a)
       \<and> share_deny (share_of s' a) = share_deny (share_of s a)"
  shows "shares_ok An s'"
  unfolding shares_ok_def assms(2,3)
proof (intro conjI allI impI)
  fix f a b
  show "counted (share_state (files s f)) (opens s f) (share_of s') (An f)"
    using assms(1,4) counted_cong unfolding shares_ok_def by blast
  show "\<not> denies (share_deny (share_of s' b)) (share_access (share_of s' a))"
    if "a \<in> opens s f" "b \<in> opens s f" "a \<noteq> b"
    using assms(1) assms(4) [OF that(1)] assms(4) [OF that(2)] that unfolding shares_ok_def by metis
qed

lemma opens_in_table:
  "list_inv e s \<Longrightarrow> a \<in> opens s f \<longleftrightarrow>
     in_table s a \<and> state_obj (st s a) = handle_digest e f \<and> state_type (st s a) = STATE_TYPE_SHARE"
  using list_invD(3) [of e s a f] by (auto simp: opens_def)

text \<open>Only the back end, or things that are not about states, change.\<close>

lemma open_inv_frame:
  assumes "open_inv env H An s" "st s' = st s" "allocated s' = allocated s" "next_state s' = next_state s"
    "ht_state_id s' = ht_state_id s" "ht_state_obj s' = ht_state_obj s" "exp_state_list s' = exp_state_list s"
    "\<And>w. so_state_list (nfs4_owners s' w) = so_state_list (nfs4_owners s w)"
    "\<And>f. list_of_states (files s' f) = list_of_states (files s f)"
    "\<And>f. share_state (files s' f) = share_state (files s f)" "share_lockstates s' = share_lockstates s"
  shows "open_inv env H An s'"
proof -
  note e = assms(2-)
  note inv = assms(1) [unfolded open_inv_def]
  have t: "in_table s' a \<longleftrightarrow> in_table s a" for a by (simp add: in_table_def e)
  have o: "opens s' f = opens s f" for f by (simp add: opens_def e)
  have "table_inv (sal_env env) H s'" using inv table_inv_frame [OF _ assms(2-6)] by blast
  moreover have "list_inv (sal_env env) s'"
    by (rule list_inv_same [OF inv [THEN conjunct2, THEN conjunct1]]) (simp_all add: t e same_state_def)
  moreover have "lockstates_ok (sal_env env) s'"
    by (rule lockstates_ok_same [OF inv [THEN conjunct2, THEN conjunct2, THEN conjunct1]]) (simp_all add: t e same_state_def)
  moreover have "shares_ok An s'"
    by (rule shares_ok_same [of An s]) (use inv in \<open>simp_all add: o e share_of_def\<close>)
  ultimately show ?thesis by (simp add: open_inv_def)
qed

lemma open_inv_fsal [simp]: "open_inv env H An (s\<lparr>fsal := fs\<rparr>) \<longleftrightarrow> open_inv env H An s"
  by (auto elim: open_inv_frame)

text \<open>The sequence number of a stateid changes.\<close>

lemma open_inv_seqid:
  assumes "open_inv env H An s"
  shows "open_inv env H An (upd_st a (state_seqid_update f) s)" (is "open_inv env H An ?s")
proof -
  note inv = assms [unfolded open_inv_def]
  have same: "same_state (st ?s b) (st s b)" "in_table ?s b \<longleftrightarrow> in_table s b" "share_of ?s b = share_of s b" for b
    by (auto simp: upd_st_def same_state_def in_table_def share_of_def)
  have "table_inv (sal_env env) H ?s" by (rule table_inv_data [of _ _ s]) (use inv in \<open>simp_all add: same_state_def\<close>)
  moreover have "list_inv (sal_env env) ?s" by (rule list_inv_same [of _ s]) (use inv same in \<open>simp_all add: upd_st_def\<close>)
  moreover have "lockstates_ok (sal_env env) ?s"
    by (rule lockstates_ok_same [of _ s]) (use inv same in \<open>simp_all add: upd_st_def\<close>)
  moreover have "shares_ok An ?s"
  proof (rule shares_ok_same [of An s])
    show "opens ?s g = opens s g" for g by (auto simp: opens_def upd_st_def)
  qed (use inv same in \<open>simp_all add: upd_st_def\<close>)
  ultimately show ?thesis by (simp add: open_inv_def)
qed

lemma shares_ok_refcount:
  assumes "shares_ok An s" "st s' = (st s)(a := (st s a)\<lparr>state_refcount := n\<rparr>)" "files s' = files s"
  shows "shares_ok An s'"
  by (rule shares_ok_same [OF assms(1)]) (auto simp: opens_def share_of_def assms)

lemma lockstates_ok_refcount:
  assumes "lockstates_ok e s" "st s' = (st s)(a := (st s a)\<lparr>state_refcount := n\<rparr>)" "ht_state_id s' = ht_state_id s"
    "share_lockstates s' = share_lockstates s"
  shows "lockstates_ok e s'"
  by (rule lockstates_ok_same [OF assms(1)]) (simp_all add: in_table_def same_state_def assms(2-4))

lemma share_lockstates_refs [simp]:
  "share_lockstates (inc_state_t_ref a s) = share_lockstates s"
  "share_lockstates (dec_nfs4_state_ref a s) = share_lockstates s"
  by (simp_all add: inc_state_t_ref_def dec_nfs4_state_ref_def free_state_def upd_st_def Let_def)

lemma open_inv_inc:
  assumes "open_inv env H An s" "in_table s a"
  shows "open_inv env (a # H) An (inc_state_t_ref a s)"
proof -
  note inv = assms(1) [unfolded open_inv_def]
  have "table_inv (sal_env env) (a # H) (inc_state_t_ref a s)"
    using inv table_inv_allocated assms(2) by (blast intro: table_inv_inc)
  then show ?thesis unfolding open_inv_def
    using inv list_inv_inc shares_ok_refcount [OF _ inc_state_t_ref_simps(1,6)]
      lockstates_ok_refcount [OF _ inc_state_t_ref_simps(1,4) share_lockstates_refs(1)] by blast
qed

lemma open_inv_dec:
  assumes "open_inv env (a # H) An s"
  shows "open_inv env H An (dec_nfs4_state_ref a s)"
proof -
  note inv = assms [unfolded open_inv_def]
  have "table_inv (sal_env env) H (dec_nfs4_state_ref a s)"
    using table_inv_dec [of "sal_env env" "a # H" s a] inv by simp
  then show ?thesis unfolding open_inv_def
    using inv list_inv_dec shares_ok_refcount [OF _ dec_nfs4_state_ref_simps(1,6)]
      lockstates_ok_refcount [OF _ dec_nfs4_state_ref_simps(1,4) share_lockstates_refs(2)] by blast
qed

subsection \<open>Changing a reservation\<close>

text \<open>The state after the reservation of \<open>a\<close> has become \<open>d\<close>.\<close>

definition reserve ::
  "nat \<Rightarrow> uint32 \<Rightarrow> uint32 \<Rightarrow> nat \<Rightarrow> state_share \<Rightarrow> 'fs \<Rightarrow> 'fs sal \<Rightarrow> 'fs sal" where
  "reserve obj oa od a d fs s =
    (upd_st a (state_data_update (\<lambda>_. Share_data d))
      (upd_share obj (state_share_update_counter oa od (share_access d) (share_deny d) True) s))\<lparr>fsal := fs\<rparr>"

lemma share_of_simps [simp]:
  "share_of (s\<lparr>fsal := fs\<rparr>) a = share_of s a" "share_of (upd_share obj f s) a = share_of s a"
  "share_of (upd_st b (state_data_update (\<lambda>_. Share_data d)) s) a = (if a = b then d else share_of s a)"
  by (simp_all add: share_of_def upd_share_def upd_file_def upd_st_def)

lemma upd_fsal [simp]:
  "upd_st a f (s\<lparr>fsal := fs\<rparr>) = (upd_st a f s)\<lparr>fsal := fs\<rparr>"
  "upd_st a (state_data_update h) (upd_st a (state_data_update k) s) = upd_st a (state_data_update (\<lambda>x. h (k x))) s"
  by (simp_all add: upd_st_def comp_def)

lemma share_change_success:
  assumes "good_env env"
  obtains fs where "state_share_change env ctx obj oa od na nd reclaim s =
    (STATE_SUCCESS, (upd_share obj (state_share_update_counter oa od na nd True) s)\<lparr>fsal := fs\<rparr>)"
proof -
  let ?s = "upd_share obj (state_share_update_counter oa od na nd True) s"
  have "\<exists>fs. do_share_op env ctx obj p ?s = (STATE_SUCCESS, ?s\<lparr>fsal := fs\<rparr>)" for p
  proof (cases "fso_share_support env ctx")
    case False
    have "?s = ?s\<lparr>fsal := fsal ?s\<rparr>" by simp
    with False show ?thesis unfolding do_share_op_def by metis
  next
    case True
    obtain st fs where op: "share_op env obj p (fsal ?s) = (st, fs)" by fastforce
    then have "\<not> FSAL_IS_ERROR st" using assms by (metis fst_conv good_env_def)
    with True op show ?thesis by (auto simp: do_share_op_def state_error_convert_def FSAL_IS_ERROR_def)
  qed
  note push = this
  have "\<exists>fs. state_share_change env ctx obj oa od na nd reclaim s = (STATE_SUCCESS, ?s\<lparr>fsal := fs\<rparr>)"
  proof -
    obtain fs where p: "do_share_op env ctx obj \<lparr>param_share_access = state_share_get_share_access (share_state (files ?s obj)),
        param_share_deny = state_share_get_share_deny (share_state (files ?s obj)), param_share_reclaim = reclaim\<rparr> ?s =
        (STATE_SUCCESS, ?s\<lparr>fsal := fs\<rparr>)" using push by blast
    have "?s = ?s\<lparr>fsal := fsal ?s\<rparr>" by simp
    then show ?thesis unfolding state_share_change_def Let_def p by (auto intro: exI [of _ fs] exI [of _ "fsal ?s"])
  qed
  then show thesis using that by blast
qed

lemma state_share_add_success:
  assumes "good_env env"
  obtains d fs where "state_share_add env ctx obj a reclaim s = (STATE_SUCCESS, reserve obj 0 0 a d fs s)"
    "share_access d = share_access (share_of s a)" "share_deny d = share_deny (share_of s a)"
proof -
  obtain fs where c: "state_share_change env ctx obj 0 0 (share_access (share_of s a)) (share_deny (share_of s a)) reclaim s =
      (STATE_SUCCESS, (upd_share obj (state_share_update_counter 0 0 (share_access (share_of s a))
         (share_deny (share_of s a)) True) s)\<lparr>fsal := fs\<rparr>)"
    using share_change_success [OF assms] by metis
  show thesis
    by (rule that [of "(share_of s a)\<lparr>share_access_prev := share_access_prev (share_of s a) OR push_bit (unat (share_access (share_of s a))) 1,
        share_deny_prev := share_deny_prev (share_of s a) OR push_bit (unat (share_deny (share_of s a))) 1\<rparr>" fs])
       (simp_all add: state_share_add_def c reserve_def state_share_set_prev_def set_share_def Let_def)
qed

lemma state_share_upgrade_success:
  assumes "good_env env"
  obtains d fs where "state_share_upgrade env ctx obj access deny a reclaim s =
      (STATE_SUCCESS, reserve obj (share_access (share_of s a)) (share_deny (share_of s a)) a d fs s)"
    "share_access d = access OR share_access (share_of s a)" "share_deny d = deny OR share_deny (share_of s a)"
proof -
  let ?x = "share_of s a"
  let ?a = "access OR share_access ?x" and ?d = "deny OR share_deny ?x"
  obtain fs where c: "state_share_change env ctx obj (share_access ?x) (share_deny ?x) ?a ?d reclaim s =
      (STATE_SUCCESS, (upd_share obj (state_share_update_counter (share_access ?x) (share_deny ?x) ?a ?d True) s)\<lparr>fsal := fs\<rparr>)"
    using share_change_success [OF assms] by metis
  show thesis
    by (rule that [of "?x\<lparr>share_access := ?a, share_deny := ?d,
        share_access_prev := share_access_prev ?x OR push_bit (unat access) 1,
        share_deny_prev := share_deny_prev ?x OR push_bit (unat deny) 1\<rparr>" fs])
       (simp_all add: state_share_upgrade_def c reserve_def state_share_set_prev_def set_share_def Let_def)
qed

lemma state_share_downgrade_success:
  assumes "good_env env"
  obtains d fs where "state_share_downgrade env ctx obj access deny a s =
      (STATE_SUCCESS, reserve obj (share_access (share_of s a)) (share_deny (share_of s a)) a d fs s)"
    "share_access d = access" "share_deny d = deny"
proof -
  let ?x = "share_of s a"
  obtain fs where c: "state_share_change env ctx obj (share_access ?x) (share_deny ?x) access deny False s =
      (STATE_SUCCESS, (upd_share obj (state_share_update_counter (share_access ?x) (share_deny ?x) access deny True) s)\<lparr>fsal := fs\<rparr>)"
    using share_change_success [OF assms] by metis
  show thesis
    by (rule that [of "?x\<lparr>share_access := access, share_deny := deny\<rparr>" fs])
       (simp_all add: state_share_downgrade_def c reserve_def set_share_def Let_def)
qed

lemma reserve_simps [simp]:
  "st (reserve obj oa od a d fs s) = (st s)(a := (st s a)\<lparr>state_data := Share_data d\<rparr>)"
  "allocated (reserve obj oa od a d fs s) = allocated s" "next_state (reserve obj oa od a d fs s) = next_state s"
  "ht_state_id (reserve obj oa od a d fs s) = ht_state_id s" "ht_state_obj (reserve obj oa od a d fs s) = ht_state_obj s"
  "exp_state_list (reserve obj oa od a d fs s) = exp_state_list s" "nfs4_owners (reserve obj oa od a d fs s) = nfs4_owners s"
  "list_of_states (files (reserve obj oa od a d fs s) f) = list_of_states (files s f)"
  "share_lockstates (reserve obj oa od a d fs s) = share_lockstates s"
  "share_state (files (reserve obj oa od a d fs s) f) =
    (if f = obj then state_share_update_counter oa od (share_access d) (share_deny d) True (share_state (files s f))
     else share_state (files s f))"
  "share_of (reserve obj oa od a d fs s) = (share_of s)(a := d)"
  by (simp_all add: reserve_def upd_st_def upd_share_def upd_file_def share_of_def fun_eq_iff)

lemma opens_reserve [simp]: "opens (reserve obj oa od a d fs s) f = opens s f"
  by (auto simp: opens_def)

text \<open>The tables and lists do not depend on the data of a state.\<close>

lemma reserve_tables:
  fixes obj oa od a d fs
  assumes "table_inv e H s" "list_inv e s" "lockstates_ok e s"
  defines "s' \<equiv> reserve obj oa od a d fs s"
  shows "table_inv e H s'" "list_inv e s'" "lockstates_ok e s'"
proof -
  have same: "same_state (st s' b) (st s b)" for b by (simp add: s'_def same_state_def)
  have tab: "in_table s' b \<longleftrightarrow> in_table s b" for b by (simp add: s'_def in_table_def)
  have "table_inv e H (upd_st a (state_data_update (\<lambda>_. Share_data d)) s)"
    by (rule table_inv_data [OF assms(1)]) (simp_all add: same_state_def)
  then show "table_inv e H s'" by (rule table_inv_frame) (simp_all add: s'_def upd_st_def)
  show "list_inv e s'" by (rule list_inv_same [OF assms(2)]) (use same tab in \<open>simp_all add: s'_def\<close>)
  show "lockstates_ok e s'"
    by (rule lockstates_ok_same [OF assms(3)]) (use same tab in \<open>simp_all add: s'_def\<close>)
qed

text \<open>A new reservation that does not meet the others keeps the invariant; so does a changed one.\<close>

lemma opens_one_file:
  assumes "list_inv e s" "resolves e" "a \<in> opens s f" "a \<in> opens s g"
  shows "f = g"
  using assms(3,4) resolves_inj [OF assms(2), of f g] by (simp add: opens_in_table [OF assms(1)])

lemma shares_okD:
  assumes "shares_ok An s"
  shows "counted (share_state (files s f)) (opens s f) (share_of s) (An f)"
    "a \<in> opens s f \<Longrightarrow> b \<in> opens s f \<Longrightarrow> a \<noteq> b \<Longrightarrow> \<not> denies (share_deny (share_of s b)) (share_access (share_of s a))"
  using assms unfolding shares_ok_def by blast+

lemma shares_ok_change:
  assumes ok: "shares_ok An s" "list_inv e s" "resolves e" "a \<in> opens s obj"
    and fits: "\<And>b. b \<in> opens s obj \<Longrightarrow> b \<noteq> a \<Longrightarrow>
      \<not> denies (share_deny (share_of s b)) (share_access d) \<and> \<not> denies (share_deny d) (share_access (share_of s b))"
  shows "shares_ok An (reserve obj (share_access (share_of s a)) (share_deny (share_of s a)) a d fs s)"
    (is "shares_ok An ?s")
proof -
  have one: "a \<in> opens s f \<Longrightarrow> f = obj" for f using opens_one_file [OF ok(2,3)] ok(4) by blast
  show ?thesis unfolding shares_ok_def
  proof (intro conjI allI impI)
    fix f b c
    show "counted (share_state (files ?s f)) (opens ?s f) (share_of ?s) (An f)"
    proof (cases "f = obj")
      case True
      have "((share_of s)(a := d)) x = share_of s x" if "x \<noteq> a" for x using that by simp
      from counted_change [where h = "(share_of s)(a := d)", OF shares_okD(1) [OF ok(1)] finite_opens ok(4) this] True
      show ?thesis by simp
    next
      case False
      then show ?thesis
        using counted_cong [OF shares_okD(1) [OF ok(1)], of f "share_of ?s"] one by fastforce
    qed
    assume "b \<in> opens ?s f" "c \<in> opens ?s f" "b \<noteq> c"
    then show "\<not> denies (share_deny (share_of ?s c)) (share_access (share_of ?s b))"
      using shares_okD(2) [OF ok(1), of b f c] fits [of b] fits [of c] one [of f] by (auto split: if_splits)
  qed
qed

text \<open>A new state.\<close>

lemma add_in_table:
  assumes "table_inv e H s" "state_add_impl e ctx obj ty data owner None refer s = (STATE_SUCCESS, Some a, s1)"
  shows "\<not> in_table s a" "in_table s1 b \<longleftrightarrow> b = a \<or> in_table s b"
proof -
  note r = state_add_success [OF assms(2)]
  have "\<not> allocated s a" using table_invD(4) [OF assms(1), of a] r(1) by auto
  then show "\<not> in_table s a" and "in_table s1 b \<longleftrightarrow> b = a \<or> in_table s b"
    using table_inv_allocated [OF assms(1)] table_invD(2) [OF assms(1), of _ a] r(5)
    by (cases "b = a"; auto simp: in_table_def r(2,6))+
qed

lemma lockstates_ok_add:
  assumes inv: "table_inv e H s" "lockstates_ok e s"
    and add: "state_add e ctx obj ty data owner None refer s = (STATE_SUCCESS, Some a, s1)"
    and s2: "st s2 = st s1" "ht_state_id s2 = ht_state_id s1"
      "\<And>b. share_lockstates s2 b \<in> {[], share_lockstates s b} \<or> ty = STATE_TYPE_LOCK \<and> share_lockstates s2 b = share_lockstates s b @ [a]"
  shows "lockstates_ok e s2"
proof -
  have add': "state_add_impl e ctx obj ty data owner None refer s = (STATE_SUCCESS, Some a, s1)"
    and kind: "ty = STATE_TYPE_SHARE \<longrightarrow> so_type (owners (own_env e) owner) = STATE_OPEN_OWNER_NFSV4"
      "ty = STATE_TYPE_LOCK \<longrightarrow> so_type (owners (own_env e) owner) = STATE_LOCK_OWNER_NFSV4"
    using add by (auto simp: state_add_def Let_def split: if_splits)
  note r = state_add_success [OF add'] and t = add_in_table [OF inv(1) add']
  have k: "in_table s2 x \<longleftrightarrow> x = a \<or> in_table s x" for x using t(2) [of x] by (simp add: in_table_def s2)
  note old = inv(2) [unfolded lockstates_ok_def]
  have "a \<notin> set (share_lockstates s b)" for b using old t(1) by blast
  then have dist: "distinct (share_lockstates s2 b)" for b using s2(3) [of b] old by auto
  have lists: "in_table s2 c \<and> state_type (st s2 c) = STATE_TYPE_LOCK" if "c \<in> set (share_lockstates s2 b)" for b c
  proof -
    have "c \<in> set (share_lockstates s b) \<or> ty = STATE_TYPE_LOCK \<and> c = a" using that s2(3) [of b] by auto
    then show ?thesis using old t(1) by (auto simp: k s2(1) r(2))
  qed
  have "(state_type (st s2 b) = STATE_TYPE_SHARE \<longrightarrow> so_type (owners (own_env e) w) = STATE_OPEN_OWNER_NFSV4)
      \<and> (state_type (st s2 b) = STATE_TYPE_LOCK \<longrightarrow> so_type (owners (own_env e) w) = STATE_LOCK_OWNER_NFSV4)"
    if "in_table s2 b" "state_owner (st s2 b) = Some w" for b w
    using that kind old by (cases "b = a") (auto simp: k s2(1) r(2))
  with dist lists show ?thesis unfolding lockstates_ok_def by blast
qed

lemma opens_add:
  assumes "table_inv e H s" "list_inv e s"
    "state_add_impl e ctx obj ty data owner None refer s = (STATE_SUCCESS, Some a, s1)"
  shows "opens s1 f = (if f = obj \<and> ty = STATE_TYPE_SHARE then insert a (opens s f) else opens s f)"
proof -
  note r = state_add_success [OF assms(3)]
  have "a \<notin> set (list_of_states (files s f))"
    using add_in_table(1) [OF assms(1,3)] list_invD(3) [OF assms(2)] by blast
  then show ?thesis unfolding opens_def by (auto simp: r(2,11))
qed

text \<open>A new lock state does not touch the opens.\<close>

lemma open_inv_new_lock:
  assumes inv: "open_inv env H An s" and good: "good_env env"
    and add: "state_add (sal_env env) ctx obj STATE_TYPE_LOCK data owner None refer s = (STATE_SUCCESS, Some a, s1)"
    and new: "\<And>b. allocated s b \<Longrightarrow>
      stateid_other (st s b) \<noteq> stateid_other (new_state (sal_env env) ctx obj STATE_TYPE_LOCK data owner refer s)"
  shows "open_inv env (a # H) An (s1\<lparr>share_lockstates := (share_lockstates s1)(p := share_lockstates s1 p @ [a])\<rparr>)"
    (is "open_inv env (a # H) An ?s2")
proof -
  note i = inv [unfolded open_inv_def]
  have add': "state_add_impl (sal_env env) ctx obj STATE_TYPE_LOCK data owner None refer s = (STATE_SUCCESS, Some a, s1)"
    using add by (auto simp: state_add_def Let_def split: if_splits)
  note r = state_add_success [OF add']
  have g: "digests_prefix_free (sal_env env)" "resolves (sal_env env)" using good by (simp_all add: good_env_def)
  have "table_inv (sal_env env) (a # H) s1" using table_inv_add [OF _ g(1) add' new] i by simp
  then have t: "table_inv (sal_env env) (a # H) ?s2" by (rule table_inv_frame) simp_all
  have "list_inv (sal_env env) s1" using list_inv_add [OF _ _ g(2) add'] i by blast
  then have l: "list_inv (sal_env env) ?s2" by (rule list_inv_same) (simp_all add: in_table_def same_state_def)
  have "lockstates_ok (sal_env env) ?s2"
    by (rule lockstates_ok_add [OF _ _ add, of H]) (use i in \<open>simp_all add: r(13)\<close>)
  moreover have "shares_ok An ?s2"
  proof (rule shares_ok_same [of An s])
    show o: "opens ?s2 f = opens s f" for f using opens_add [OF _ _ add', of H f] i by simp
    show "share_access (share_of ?s2 b) = share_access (share_of s b) \<and> share_deny (share_of ?s2 b) = share_deny (share_of s b)"
      if "b \<in> opens s f" for f b
      using that add_in_table(1) [OF _ add', of H] i by (auto simp: opens_in_table [of "sal_env env" s] share_of_def r(2))
  qed (use i in \<open>simp_all add: r(12)\<close>)
  ultimately show ?thesis using t l unfolding open_inv_def by blast
qed

text \<open>A new open state.\<close>

lemma open_new:
  fixes d fs
  assumes inv: "open_inv env H An s" and good: "good_env env"
    and add: "state_add (sal_env env) ctx obj STATE_TYPE_SHARE (Share_data x) owner None refer s =
      (STATE_SUCCESS, Some a, s1)"
    and new: "\<And>b. allocated s b \<Longrightarrow>
      stateid_other (st s b) \<noteq> stateid_other (new_state (sal_env env) ctx obj STATE_TYPE_SHARE (Share_data x) owner refer s)"
    and fits: "\<And>b. b \<in> opens s obj \<Longrightarrow>
      \<not> denies (share_deny (share_of s b)) (share_access d) \<and> \<not> denies (share_deny d) (share_access (share_of s b))"
  defines "s2 \<equiv> reserve obj 0 0 a d fs (s1\<lparr>share_lockstates := (share_lockstates s1)(a := [])\<rparr>)"
  shows "open_inv env (a # H) An s2"
proof -
  let ?s = "s1\<lparr>share_lockstates := (share_lockstates s1)(a := [])\<rparr>"
  note i = inv [unfolded open_inv_def]
  have add': "state_add_impl (sal_env env) ctx obj STATE_TYPE_SHARE (Share_data x) owner None refer s = (STATE_SUCCESS, Some a, s1)"
    using add by (auto simp: state_add_def Let_def split: if_splits)
  note r = state_add_success [OF add']
  have g: "digests_prefix_free (sal_env env)" "resolves (sal_env env)" using good by (simp_all add: good_env_def)
  have "table_inv (sal_env env) (a # H) s1" using table_inv_add [OF _ g(1) add' new] i by simp
  then have t: "table_inv (sal_env env) (a # H) ?s" by (rule table_inv_frame) simp_all
  have "list_inv (sal_env env) s1" using list_inv_add [OF _ _ g(2) add'] i by blast
  then have l: "list_inv (sal_env env) ?s" by (rule list_inv_same) (simp_all add: in_table_def same_state_def)
  have k: "lockstates_ok (sal_env env) ?s"
    by (rule lockstates_ok_add [OF _ _ add, of H]) (use i in \<open>simp_all add: r(13)\<close>)
  have o: "opens s2 f = (if f = obj then insert a (opens s f) else opens s f)" for f
    using opens_add [OF _ _ add', of H f] i by (simp add: s2_def)
  have notin: "a \<notin> opens s f" for f
    using add_in_table(1) [OF _ add', of H] i by (simp add: opens_in_table [of "sal_env env" s])
  have sh: "share_of s2 b = (if b = a then d else share_of s b)" for b by (simp add: s2_def share_of_def r(2))
  have "shares_ok An s2"
    unfolding shares_ok_def
  proof (intro conjI allI impI)
    fix f b c
    have c0: "counted (share_state (files s f)) (opens s f) (share_of s2) (An f)"
      using i notin by (intro counted_cong [OF shares_okD(1)]) (auto simp: sh)
    show "counted (share_state (files s2 f)) (opens s2 f) (share_of s2) (An f)"
      using c0 counted_add [OF c0 finite_opens notin] unfolding o by (cases "f = obj") (simp_all add: s2_def r(12))
    assume b: "b \<in> opens s2 f" and c: "c \<in> opens s2 f" and "b \<noteq> c"
    then show "\<not> denies (share_deny (share_of s2 c)) (share_access (share_of s2 b))"
      using shares_okD(2) [of An s b f c] i fits [of b] fits [of c] notin by (auto simp: o sh split: if_splits)
  qed
  then show ?thesis unfolding open_inv_def s2_def using reserve_tables [OF t l k] by blast
qed

end
