(* ===== verification/Share_Theorems.thy ===== *)
theory Share_Theorems
  imports Share_Invariant
begin

text \<open>
  The state machine of OPEN, OPEN_DOWNGRADE, CLOSE, lock states and anonymous input and output, on
  top of the tables of states, and the properties of share reservations.
\<close>

unbundle bit_operations_syntax

subsection \<open>OPEN\<close>

lemma open_inv_add_fail:
  assumes inv: "open_inv env H An s"
    and fail: "state_add_impl (sal_env env) ctx obj ty data owner None refer s = (status, r, s')" "status \<noteq> STATE_SUCCESS"
  shows "open_inv env H An s' \<and> r = None"
proof -
  note i = inv [unfolded open_inv_def]
  note f = state_add_fail_lists [OF i [THEN conjunct1] fail]
  have "table_inv (sal_env env) H s' \<and> r = None" using table_inv_add_fail [OF _ fail] i by blast
  moreover have "list_inv (sal_env env) s'"
    by (rule list_inv_same [of _ s]) (use i in \<open>simp_all add: f same_state_def\<close>)
  moreover have "lockstates_ok (sal_env env) s'"
    by (rule lockstates_ok_same [of _ s]) (use i in \<open>simp_all add: f same_state_def\<close>)
  moreover have "shares_ok An s'"
  proof (rule shares_ok_same [of An s])
    have tab: "in_table s a" if "a \<in> set (list_of_states (files s f))" for a f
      using that i list_invD(3) [of "sal_env env" s] by blast
    then show "opens s' f = opens s f" for f by (auto simp: opens_def f)
    show "share_access (share_of s' a) = share_access (share_of s a) \<and> share_deny (share_of s' a) = share_deny (share_of s a)"
      if "a \<in> opens s g" for g a using that tab by (auto simp: opens_def share_of_def f)
  qed (use i in \<open>simp_all add: f\<close>)
  ultimately show ?thesis unfolding open_inv_def by blast
qed

text \<open>The open that an open owner already has on a file.\<close>

lemma found_open:
  assumes inv: "open_inv env H An s" "good_env env"
    and find: "find_state_obj (sal_env env) (handle_digest (sal_env env) obj) (Some owner) s = Some a"
    and owner: "so_type (owners (own_env (sal_env env)) owner) = STATE_OPEN_OWNER_NFSV4"
  shows "a \<in> opens s obj"
proof -
  note i = inv(1) [unfolded open_inv_def]
  have tab: "in_table s a" "indexed_by_obj (state_type (st s a))"
    and cmp: "\<not> compare_state_obj (sal_env env) (handle_digest (sal_env env) obj) (Some owner) (state_obj (st s a)) (state_owner (st s a))"
    using find_SomeD [OF find [unfolded find_state_obj_def]] table_invD(8) [of "sal_env env" H s a] i by blast+
  have "handle_digest (sal_env env) obj = state_obj (st s a)"
    and same: "\<not> compare_nfs4_owner (own_env (sal_env env)) (Some owner) (state_owner (st s a))"
    using cmp compare_attached [OF _ table_inv_attached, of "sal_env env" H s a] i tab(1) inv(2) by (auto simp: good_env_def)
  moreover obtain w where w: "state_owner (st s a) = Some w" "so_type (owners (own_env (sal_env env)) w) = STATE_OPEN_OWNER_NFSV4"
    using same owner by (cases "state_owner (st s a)") (auto simp: compare_nfs4_owner_def Let_def split: if_splits)
  moreover have "state_type (st s a) \<noteq> STATE_TYPE_LOCK" using i tab(1) w unfolding lockstates_ok_def by auto
  ultimately show ?thesis using tab i by (simp add: opens_in_table [of "sal_env env" s] indexed_by_obj_def)
qed

lemma open4_access_fsal:
  assumes "open4_access env obj access skip s = (r, s')"
  obtains fs where "s' = s\<lparr>fsal := fs\<rparr>"
proof -
  have "\<exists>fs. s' = s\<lparr>fsal := fs\<rparr>"
  proof (cases skip)
    case True
    then show ?thesis using assms by (intro exI [of _ "fsal s"]) (simp add: open4_access_def)
  next
    case False
    then show ?thesis using assms unfolding open4_access_def by (auto simp: Let_def split: if_splits prod.splits)
  qed
  then show thesis using that by blast
qed

lemma open4_share_new:
  assumes "good_env env"
  obtains d fs where "open4_share env ctx obj access deny fl a True s = (NFS4_OK, Some a, True, reserve obj 0 0 a d fs s)"
    "share_access d = share_access (share_of s a)" "share_deny d = share_deny (share_of s a)"
proof -
  obtain x fs where op: "fsal_open env obj fl (fsal s) = (x, fs)" by fastforce
  then have ok: "\<not> FSAL_IS_ERROR x" using assms by (metis fst_conv good_env_def)
  obtain d fs' where "state_share_add env ctx obj a (fl AND FSAL_O_RECLAIM \<noteq> 0) (s\<lparr>fsal := fs\<rparr>) =
      (STATE_SUCCESS, reserve obj 0 0 a d fs' (s\<lparr>fsal := fs\<rparr>))"
    "share_access d = share_access (share_of s a)" "share_deny d = share_deny (share_of s a)"
    using state_share_add_success [OF assms] by (metis share_of_simps(1))
  moreover have "reserve obj 0 0 a d fs' (s\<lparr>fsal := fs\<rparr>) = reserve obj 0 0 a d fs' s"
    by (simp add: reserve_def upd_share_def upd_file_def upd_st_def)
  ultimately show thesis using that op ok by (simp add: open4_share_def)
qed

lemma open4_share_upgrade:
  assumes "good_env env"
  obtains d fs where "open4_share env ctx obj access deny fl a False s =
      (NFS4_OK, Some a, False, reserve obj (share_access (share_of s a)) (share_deny (share_of s a)) a d fs s)"
    "share_access d = access OR share_access (share_of s a)" "share_deny d = deny OR share_deny (share_of s a)"
proof -
  let ?oa = "share_access (share_of s a)" and ?od = "share_deny (share_of s a)"
  obtain x fs where op: "fsal_open env obj fl (fsal s) = (x, fs)" by fastforce
  then have ok: "\<not> FSAL_IS_ERROR x" using assms by (metis fst_conv good_env_def)
  obtain d fs' where "state_share_upgrade env ctx obj access deny a (fl AND FSAL_O_RECLAIM \<noteq> 0) (s\<lparr>fsal := fs\<rparr>) =
      (STATE_SUCCESS, reserve obj ?oa ?od a d fs' (s\<lparr>fsal := fs\<rparr>))"
    "share_access d = access OR ?oa" "share_deny d = deny OR ?od"
    using state_share_upgrade_success [OF assms] by (metis share_of_simps(1))
  moreover have "reserve obj ?oa ?od a d fs' (s\<lparr>fsal := fs\<rparr>) = reserve obj ?oa ?od a d fs' s"
    by (simp add: reserve_def upd_share_def upd_file_def upd_st_def)
  ultimately show thesis using that op ok by (simp add: open4_share_def)
qed

text \<open>
  The requests that can be made: the owner is an open owner, the next stateid of its client is
  not that of a state in memory, and there are fewer than \<open>2 ^ 32\<close> reservations on the file.
\<close>

definition open_ready :: "'fs open_env \<Rightarrow> (nat \<Rightarrow> uint32 list) \<Rightarrow> nat \<Rightarrow> nat \<Rightarrow> 'fs sal \<Rightarrow> bool" where
  "open_ready env An obj owner s \<longleftrightarrow>
    so_type (owners (own_env (sal_env env)) owner) = STATE_OPEN_OWNER_NFSV4
    \<and> (let c = clients s (so_clientrec (nfs4_owners s owner)) in
        \<forall>b. allocated s b \<longrightarrow> stateid_other (st s b) \<noteq> (cid_clientid c, cid_stateid_counter c + 1))
    \<and> card (opens s obj) + length (An obj) < 2 ^ 32"

text \<open>What an open that succeeds has done, and what one that is refused has left.\<close>

definition opened :: "nat \<Rightarrow> uint32 \<Rightarrow> uint32 \<Rightarrow> nat \<Rightarrow> 'fs sal \<Rightarrow> 'fs sal \<Rightarrow> bool" where
  "opened obj access deny a s s' \<longleftrightarrow>
    (\<forall>f. opens s' f = (if f = obj then insert a (opens s f) else opens s f))
    \<and> (\<forall>b. b \<noteq> a \<longrightarrow> share_of s' b = share_of s b)
    \<and> share_access (share_of s' a) = (if a \<in> opens s obj then access OR share_access (share_of s a) else access)
    \<and> share_deny (share_of s' a) = (if a \<in> opens s obj then deny OR share_deny (share_of s a) else deny)"

definition same_opens :: "'fs sal \<Rightarrow> 'fs sal \<Rightarrow> bool" where
  "same_opens s s' \<longleftrightarrow> (\<forall>f. opens s' f = opens s f)
    \<and> (\<forall>f a. a \<in> opens s f \<longrightarrow> share_of s' a = share_of s a)"

lemma open4_new_result:
  assumes inv: "open_inv env H An s" and good: "good_env env" and ready: "open_ready env An obj owner s"
    and chk: "state_share_check_conflict (share_state (files s obj)) access deny SHARE_BYPASS_NONE = STATE_SUCCESS"
    and x: "share_access x = access" "share_deny x = deny"
    and add: "state_add_impl (sal_env env) ctx obj STATE_TYPE_SHARE (Share_data x) owner None refer s = (STATE_SUCCESS, Some a, s1)"
    and res: "open4_share env ctx obj access deny fl a True (s1\<lparr>share_lockstates := (share_lockstates s1)(a := [])\<rparr>) = (status, r, new, s')"
  shows "status = NFS4_OK \<and> r = Some a \<and> open_inv env (a # H) An s' \<and> opened obj access deny a s s'"
proof -
  let ?s = "s1\<lparr>share_lockstates := (share_lockstates s1)(a := [])\<rparr>"
  note i = inv [unfolded open_inv_def]
  note e = state_add_success [OF add]
  have ok: "shares_ok An s" and small: "card (opens s obj) + length (An obj) < 2 ^ 32"
    using i ready by (simp_all add: open_ready_def)
  obtain d fs where "(status, r, new, s') = (NFS4_OK, Some a, True, reserve obj 0 0 a d fs ?s)"
    "share_access d = share_access (share_of ?s a)" "share_deny d = share_deny (share_of ?s a)"
    using open4_share_new [OF good, of ctx obj access deny fl a ?s] res by metis
  moreover have "share_of ?s a = x" by (simp add: share_of_def e(2))
  ultimately have d: "status = NFS4_OK" "r = Some a" "s' = reserve obj 0 0 a d fs ?s" "share_access d = access" "share_deny d = deny"
    using x by simp_all
  have add': "state_add (sal_env env) ctx obj STATE_TYPE_SHARE (Share_data x) owner None refer s = (STATE_SUCCESS, Some a, s1)"
    using add ready by (simp add: state_add_def open_ready_def Let_def)
  have "open_inv env (a # H) An s'"
    unfolding d(3)
  proof (rule open_new [OF inv good add'])
    show "stateid_other (st s b) \<noteq> stateid_other (new_state (sal_env env) ctx obj STATE_TYPE_SHARE (Share_data x) owner refer s)"
      if "allocated s b" for b using ready that by (simp add: open_ready_def new_state_def Let_def)
    show "\<not> denies (share_deny (share_of s b)) (share_access d) \<and> \<not> denies (share_deny d) (share_access (share_of s b))"
      if "b \<in> opens s obj" for b
      using check_conflict_success [OF chk shares_okD(1) [OF ok] finite_opens small that] by (simp add: d(4,5))
  qed
  moreover have "opened obj access deny a s s'"
  proof -
    have "a \<notin> opens s obj" using add_in_table(1) [OF _ add, of H] i by (simp add: opens_in_table [of "sal_env env" s])
    then show ?thesis using opens_add [OF _ _ add, of H] i by (auto simp: opened_def d share_of_def e(2))
  qed
  ultimately show ?thesis using d(1,2) by blast
qed

lemma open4_upgrade_result:
  assumes inv: "open_inv env H An s" and good: "good_env env"
    and small: "card (opens s obj) + length (An obj) < 2 ^ 32" and a: "a \<in> opens s obj"
    and chk: "state_share_check_conflict (share_state (files s obj)) access deny SHARE_BYPASS_NONE = STATE_SUCCESS"
    and res: "open4_share env ctx obj access deny fl a False s = (status, r, new, s')"
  shows "status = NFS4_OK \<and> r = Some a \<and> open_inv env H An s' \<and> opened obj access deny a s s'"
proof -
  note i = inv [unfolded open_inv_def]
  have ok: "shares_ok An s" using i by blast
  let ?oa = "share_access (share_of s a)" and ?od = "share_deny (share_of s a)"
  obtain d fs where "(status, r, new, s') = (NFS4_OK, Some a, False, reserve obj ?oa ?od a d fs s)"
    "share_access d = access OR ?oa" "share_deny d = deny OR ?od"
    using open4_share_upgrade [OF good, of ctx obj access deny fl a s] res by metis
  then have d: "status = NFS4_OK" "r = Some a" "s' = reserve obj ?oa ?od a d fs s" "share_access d = access OR ?oa"
    "share_deny d = deny OR ?od" by simp_all
  have fits: "\<not> denies (share_deny (share_of s b)) (share_access d) \<and> \<not> denies (share_deny d) (share_access (share_of s b))"
    if "b \<in> opens s obj" "b \<noteq> a" for b
    using check_conflict_success [OF chk shares_okD(1) [OF ok] finite_opens small that(1)]
      shares_okD(2) [OF ok, of a obj b] shares_okD(2) [OF ok, of b obj a] a that
    unfolding d(4,5) denies_bit bit_or_iff by blast
  have "open_inv env H An s'"
    unfolding open_inv_def d(3)
    using reserve_tables [of "sal_env env" H s] shares_ok_change [of An s "sal_env env" a obj d] a fits i good by (simp add: good_env_def)
  moreover have "opened obj access deny a s s'" using a by (auto simp: opened_def d)
  ultimately show ?thesis using d(1,2) by blast
qed

lemma fsal_simps [simp]:
  "open_ready env An obj owner (s\<lparr>fsal := fs\<rparr>) \<longleftrightarrow> open_ready env An obj owner s"
  "opened obj access deny a (s\<lparr>fsal := fs\<rparr>) s' \<longleftrightarrow> opened obj access deny a s s'"
  "same_opens (s\<lparr>fsal := fs\<rparr>) s' \<longleftrightarrow> same_opens s s'" "same_opens s (s\<lparr>fsal := fs\<rparr>)"
  "find_state_obj e d w (s\<lparr>fsal := fs\<rparr>) = find_state_obj e d w s"
  by (simp_all add: open_ready_def opened_def same_opens_def find_state_obj_def)

lemma same_opens_refs [simp]:
  "opens (inc_state_t_ref a s) f = opens s f" "opens (dec_nfs4_state_ref a s) f = opens s f"
  "share_of (inc_state_t_ref a s) b = share_of s b" "share_of (dec_nfs4_state_ref a s) b = share_of s b"
  by (auto simp: opens_def share_of_def)

lemma opened_refs:
  "opened obj access deny a (inc_state_t_ref b s) s' \<longleftrightarrow> opened obj access deny a s s'"
  "opened obj access deny a s (dec_nfs4_state_ref b s') \<longleftrightarrow> opened obj access deny a s s'"
  "same_opens s (dec_nfs4_state_ref b s') \<longleftrightarrow> same_opens s s'"
  "same_opens s (inc_state_t_ref b s') \<longleftrightarrow> same_opens s s'"
  by (simp_all add: opened_def same_opens_def)

lemma same_opens_add_fail:
  assumes inv: "open_inv env H An s"
    and fail: "state_add_impl (sal_env env) ctx obj ty data owner None refer s = (status, r, s')" "status \<noteq> STATE_SUCCESS"
  shows "same_opens s s'"
proof -
  note i = inv [unfolded open_inv_def]
  note f = state_add_fail_lists [OF i [THEN conjunct1] fail]
  have "in_table s a" if "a \<in> set (list_of_states (files s f))" for a f
    using that i list_invD(3) [of "sal_env env" s] by blast
  then show ?thesis by (auto simp: same_opens_def opens_def share_of_def f)
qed

definition open_result ::
  "'fs open_env \<Rightarrow> nat list \<Rightarrow> (nat \<Rightarrow> uint32 list) \<Rightarrow> nat \<Rightarrow> uint32 \<Rightarrow> uint32 \<Rightarrow> 'fs sal \<Rightarrow>
   nfsstat4 \<times> nat option \<times> bool \<times> 'fs sal \<Rightarrow> bool" where
  "open_result env H An obj access deny s res \<longleftrightarrow>
    (case res of (status, r, new, s') \<Rightarrow>
      case r of
        None \<Rightarrow> open_inv env H An s' \<and> same_opens s s'
      | Some a \<Rightarrow> status = NFS4_OK \<and> open_inv env (a # H) An s' \<and> opened obj access deny a s s')"

lemma open4_found_result:
  assumes inv: "open_inv env H An s" and good: "good_env env" and ready: "open_ready env An obj owner s"
    and chk: "state_share_check_conflict (share_state (files s obj)) access deny SHARE_BYPASS_NONE = STATE_SUCCESS"
    and find: "find_state_obj (sal_env env) (handle_digest (sal_env env) obj) (Some owner) s = Some a"
  shows "open_result env H An obj access deny s
    (if state_export (st (inc_state_t_ref a s) a) \<noteq> Some ctx
     then (NFS4ERR_INVAL, None, False, dec_nfs4_state_ref a (inc_state_t_ref a s))
     else open4_share env ctx obj access deny fl a False (inc_state_t_ref a s))"
proof -
  let ?s = "inc_state_t_ref a s"
  have a: "a \<in> opens s obj" using found_open [OF inv good find] ready by (simp add: open_ready_def)
  then have "in_table s a" using inv by (simp add: open_inv_def opens_in_table [of "sal_env env" s])
  from open_inv_inc [OF inv this] have i: "open_inv env (a # H) An ?s" .
  obtain status r new s' where res: "open4_share env ctx obj access deny fl a False ?s = (status, r, new, s')"
    using prod_cases4 by blast
  have "status = NFS4_OK \<and> r = Some a \<and> open_inv env (a # H) An s' \<and> opened obj access deny a ?s s'"
    by (rule open4_upgrade_result [OF i good _ _ _ res]) (use a chk ready in \<open>simp_all add: open_ready_def\<close>)
  moreover have "open_inv env H An (dec_nfs4_state_ref a ?s)" by (rule open_inv_dec [OF i])
  ultimately show ?thesis using res by (simp add: open_result_def opened_refs) (simp add: same_opens_def)
qed

lemma open4_created_result:
  assumes inv: "open_inv env H An s" and good: "good_env env" and ready: "open_ready env An obj owner s"
    and chk: "state_share_check_conflict (share_state (files s obj)) access deny SHARE_BYPASS_NONE = STATE_SUCCESS"
    and x: "share_access x = access" "share_deny x = deny"
  shows "open_result env H An obj access deny s
    (case state_add_impl (sal_env env) ctx obj STATE_TYPE_SHARE (Share_data x) owner None refer s of
       (status, Some a, s) \<Rightarrow>
         open4_share env ctx obj access deny fl a True (s\<lparr>share_lockstates := (share_lockstates s)(a := [])\<rparr>)
     | (status, None, s) \<Rightarrow> (nfs4_Errno_state status, None, True, s))"
proof -
  obtain st1 r1 s1 where add: "state_add_impl (sal_env env) ctx obj STATE_TYPE_SHARE (Share_data x) owner None refer s = (st1, r1, s1)"
    using prod_cases3 by blast
  show ?thesis
  proof (cases r1)
    case None
    then have "st1 \<noteq> STATE_SUCCESS" using add by (auto simp: state_add_impl_eq split: if_splits prod.splits)
    then show ?thesis
      using open_inv_add_fail [OF inv add] same_opens_add_fail [OF inv add] add None by (simp add: open_result_def)
  next
    case (Some a)
    then have ok: "state_add_impl (sal_env env) ctx obj STATE_TYPE_SHARE (Share_data x) owner None refer s = (STATE_SUCCESS, Some a, s1)"
      using add by (auto simp: state_add_impl_eq split: if_splits prod.splits)
    obtain status r new s' where res: "open4_share env ctx obj access deny fl a True
        (s1\<lparr>share_lockstates := (share_lockstates s1)(a := [])\<rparr>) = (status, r, new, s')" using prod_cases4 by blast
    from open4_new_result [OF inv good ready chk x ok res] res ok show ?thesis by (simp add: open_result_def)
  qed
qed

lemma open4_do_open_result:
  assumes inv: "open_inv env H An s" and good: "good_env env" and ready: "open_ready env An obj owner s"
  shows "open_result env H An obj (acc AND OPEN4_SHARE_ACCESS_BOTH) deny s
    (open4_do_open env ctx obj acc deny owner fl skip refer s)"
proof -
  let ?access = "acc AND OPEN4_SHARE_ACCESS_BOTH"
  obtain r0 fs0 where acc: "open4_access env obj acc skip s = (r0, s\<lparr>fsal := fs0\<rparr>)"
    using open4_access_fsal by (metis surj_pair)
  obtain cf fs where del: "state_deleg_conflict env obj (?access AND OPEN4_SHARE_ACCESS_WRITE \<noteq> 0) fs0 = (cf, fs)" by fastforce
  let ?s = "s\<lparr>fsal := fs\<rparr>"
  have same: "open_result env H An obj ?access deny s (status, None, new, s\<lparr>fsal := f\<rparr>)" for status new f
    using inv by (simp add: open_result_def)
  show ?thesis
  proof (cases "r0 = None \<and> has_state_hdl env obj \<and> \<not> cf
      \<and> state_share_check_conflict (share_state (files s obj)) ?access deny SHARE_BYPASS_NONE = STATE_SUCCESS")
    case False
    then show ?thesis using same by (auto simp: open4_do_open_def acc del Let_def split: option.split)
  next
    case True
    then have chk: "state_share_check_conflict (share_state (files ?s obj)) ?access deny SHARE_BYPASS_NONE = STATE_SUCCESS" by simp
    have i: "open_inv env H An ?s" "open_ready env An obj owner ?s" using inv ready by simp_all
    let ?x = "\<lparr>share_access = ?access, share_deny = deny, share_access_prev = 0, share_deny_prev = 0\<rparr>"
    let ?found = "find_state_obj (sal_env env) (handle_digest (sal_env env) obj) (Some owner) ?s"
    have "open_result env H An obj ?access deny ?s (open4_do_open env ctx obj acc deny owner fl skip refer s)"
    proof (cases ?found)
      case (Some a)
      then show ?thesis
        using open4_found_result [OF i(1) good i(2) chk Some, of ctx fl] True
        by (simp add: open4_do_open_def acc del nfs4_State_Get_Obj_def nfs4_State_Get_State_Obj_def Let_def)
    next
      case None
      then show ?thesis
        using open4_created_result [OF i(1) good i(2) chk, where x = ?x and ctx = ctx and refer = refer and fl = fl] True
        by (simp add: open4_do_open_def acc del nfs4_State_Get_Obj_def nfs4_State_Get_State_Obj_def Let_def)
    qed
    then show ?thesis by (simp add: open_result_def split: prod.splits option.splits)
  qed
qed

subsection \<open>CLOSE and OPEN_DOWNGRADE\<close>

lemma del_in_table:
  assumes "table_inv e H s" "digests_prefix_free e" "resolves e" "in_table s a"
  shows "in_table (state_del_locked e a s) b \<longleftrightarrow> b \<noteq> a \<and> in_table s b"
    "b \<noteq> a \<Longrightarrow> st (state_del_locked e a s) b = st s b"
    "list_of_states (files (state_del_locked e a s) f) = remove1 a (list_of_states (files s f))"
    "share_state (files (state_del_locked e a s) f) = share_state (files s f)"
    "share_lockstates (state_del_locked e a s) b =
      (if state_type (st s a) = STATE_TYPE_LOCK then remove1 a (share_lockstates s b) else share_lockstates s b)"
proof -
  obtain obj s2 where get: "get_state_obj_ref e a s = (Some obj, s2)" using resolves_get [OF assms(1,3,4)] by metis
  note d = state_del_locked_found [OF assms(1,2,4) get]
  show "in_table (state_del_locked e a s) b \<longleftrightarrow> b \<noteq> a \<and> in_table s b"
    using assms(4) table_invD(1) [OF assms(1), of "stateid_other (st s a)" b] by (cases "b = a") (auto simp: in_table_def d)
  show "b \<noteq> a \<Longrightarrow> st (state_del_locked e a s) b = st s b" by (simp add: d)
  show "list_of_states (files (state_del_locked e a s) f) = remove1 a (list_of_states (files s f))"
    "share_state (files (state_del_locked e a s) f) = share_state (files s f)" by (simp_all add: d)
  obtain s3 where obj: "get_state_obj_ref e a (s\<lparr>ht_state_id := (ht_state_id s)(stateid_other (st s a) := None),
      ht_state_obj := remove1 a (ht_state_obj s)\<rparr>) = (Some obj, s3)"
    using get by (simp add: get_state_obj_ref_tables)
  obtain w where w: "state_owner (st s a) = Some w"
    using table_inv_attached [OF assms(1,4)] by (auto simp: attached_def)
  note stages = state_del_locked_stages [OF State_Del_in_table [OF assms(1,2,4)] obj w]
  have "share_lockstates (state_del_type a obj x) b =
      (if state_type (st x a) = STATE_TYPE_LOCK then remove1 a (share_lockstates x b) else share_lockstates x b)"
    "state_type (st (state_del_owner e a w x) a) = state_type (st x a)"
    "state_type (st (state_del_file e a obj x) a) = state_type (st x a)"
    "share_lockstates (state_del_file e a obj x) = share_lockstates x"
    "share_lockstates (state_del_export a y x) = share_lockstates x" for x :: "'a sal" and y
    by (simp_all add: state_del_type_def state_del_file_def state_del_export_def sal_parts state_del_owner_def Let_def split: option.split)
  then show "share_lockstates (state_del_locked e a s) b =
      (if state_type (st s a) = STATE_TYPE_LOCK then remove1 a (share_lockstates s b) else share_lockstates s b)"
    using stages(2) by (auto simp: stages(1))
qed

lemma good_envD:
  assumes "good_env env"
  shows "digests_prefix_free (sal_env env)" "resolves (sal_env env)"
  using assms by (simp_all add: good_env_def)

lemma lockstates_ok_del:
  assumes "table_inv e H s" "digests_prefix_free e" "resolves e" "in_table s a" "lockstates_ok e s"
  shows "lockstates_ok e (state_del_locked e a s)"
proof -
  note d = del_in_table [OF assms(1-4)]
  note old = assms(5) [unfolded lockstates_ok_def]
  have "distinct (share_lockstates (state_del_locked e a s) b)" for b using old by (simp add: d)
  moreover have "c \<noteq> a \<and> c \<in> set (share_lockstates s b)" if "c \<in> set (share_lockstates (state_del_locked e a s) b)" for b c
    using that old by (auto simp: d split: if_splits)
  ultimately show ?thesis using old unfolding lockstates_ok_def by (metis (no_types) d(1,2))
qed

lemma opens_del:
  assumes "table_inv e H s" "digests_prefix_free e" "list_inv e s" "resolves e" "in_table s a"
  shows "opens (state_del_locked e a s) f = opens s f - {a}" "b \<noteq> a \<Longrightarrow> share_of (state_del_locked e a s) b = share_of s b"
proof -
  note d = del_in_table [OF assms(1,2,4,5)]
  have "distinct (list_of_states (files s f))" using list_invD(6) [OF assms(3)] .
  then show "opens (state_del_locked e a s) f = opens s f - {a}" by (auto simp: opens_def d)
  show "b \<noteq> a \<Longrightarrow> share_of (state_del_locked e a s) b = share_of s b" by (simp add: share_of_def d)
qed

lemma del_tables:
  assumes "table_inv e H s" "digests_prefix_free e" "list_inv e s" "resolves e" "lockstates_ok e s" "in_table s a"
  shows "table_inv e H (state_del_locked e a s)" "list_inv e (state_del_locked e a s)" "lockstates_ok e (state_del_locked e a s)"
  using table_inv_del [OF assms(1,2)] list_inv_del [OF assms(1-4)] table_inv_allocated [OF assms(1,6)]
    lockstates_ok_del [OF assms(1,2,4,6,5)] by blast+

lemma open_inv_del_lock:
  assumes inv: "open_inv env H An s" and good: "good_env env" and a: "in_table s a" "state_type (st s a) = STATE_TYPE_LOCK"
  shows "open_inv env H An (state_del_locked (sal_env env) a s)" "same_opens s (state_del_locked (sal_env env) a s)"
proof -
  let ?s = "state_del_locked (sal_env env) a s"
  have i: "table_inv (sal_env env) H s" "list_inv (sal_env env) s" "lockstates_ok (sal_env env) s" "shares_ok An s"
    using inv by (simp_all add: open_inv_def)
  note g = good_envD [OF good]
  have notin: "a \<notin> opens s f" for f using a(2) by (simp add: opens_def)
  have o: "opens ?s f = opens s f" for f using opens_del(1) [OF i(1) g(1) i(2) g(2) a(1), of f] notin by simp
  have sh: "share_of ?s b = share_of s b" if "b \<in> opens s f" for b f
    using opens_del(2) [OF i(1) g(1) i(2) g(2) a(1), of b] notin [of f] that by fastforce
  show "same_opens s ?s" unfolding same_opens_def using o sh by blast
  have "shares_ok An ?s"
    by (rule shares_ok_same [OF i(4)]) (simp_all add: o sh del_in_table(4) [OF i(1) g a(1)])
  then show "open_inv env H An ?s" using del_tables [OF i(1) g(1) i(2) g(2) i(3) a(1)] by (simp add: open_inv_def)
qed

lemma del_lockstates:
  assumes "open_inv env H An s" "good_env env" "distinct xs"
    "\<forall>b. b \<in> set xs \<longrightarrow> in_table s b \<and> state_type (st s b) = STATE_TYPE_LOCK"
  shows "open_inv env H An (fold (state_del_locked (sal_env env)) xs s)
    \<and> same_opens s (fold (state_del_locked (sal_env env)) xs s)"
  using assms
proof (induction xs arbitrary: s)
  case Nil
  then show ?case by (simp add: same_opens_def)
next
  case (Cons a xs)
  let ?s = "state_del_locked (sal_env env) a s"
  have a: "in_table s a" "state_type (st s a) = STATE_TYPE_LOCK" using Cons.prems(4) by auto
  note one = open_inv_del_lock [OF Cons.prems(1,2) a]
  note d = del_in_table [OF _ good_envD [OF Cons.prems(2)] a(1), of H]
  have "in_table ?s b \<and> state_type (st ?s b) = STATE_TYPE_LOCK" if "b \<in> set xs" for b
    using Cons.prems(1,3,4) that d(1,2) [of b] by (auto simp: open_inv_def)
  then have "open_inv env H An (fold (state_del_locked (sal_env env)) xs ?s)
      \<and> same_opens ?s (fold (state_del_locked (sal_env env)) xs ?s)"
    using Cons.IH [OF one(1) Cons.prems(2)] Cons.prems(3) by simp
  with one(2) show ?case by (simp add: same_opens_def)
qed

lemma open_inv_remove:
  fixes ctx
  assumes inv: "open_inv env H An s" and good: "good_env env" and a: "a \<in> opens s obj"
  defines "s' \<equiv> state_del_locked (sal_env env) a (snd (state_share_remove env ctx obj a s))"
  shows "open_inv env H An s'" "opens s' f = opens s f - {a}" "b \<noteq> a \<Longrightarrow> share_of s' b = share_of s b"
proof -
  let ?x = "share_of s a"
  let ?u = "state_share_update_counter (share_access ?x) (share_deny ?x) 0 0 True"
  obtain fs where rem: "snd (state_share_remove env ctx obj a s) = (upd_share obj ?u s)\<lparr>fsal := fs\<rparr>" (is "_ = ?s")
    using share_change_success [OF good] unfolding state_share_remove_def Let_def by (metis snd_conv)
  have i: "table_inv (sal_env env) H s" "list_inv (sal_env env) s" "lockstates_ok (sal_env env) s" "shares_ok An s"
    using inv by (simp_all add: open_inv_def)
  note g = good_envD [OF good]
  have tab: "in_table ?s a" using a i(2) by (simp add: opens_in_table in_table_def upd_share_def upd_file_def)
  have t: "table_inv (sal_env env) H ?s"
    by (rule table_inv_frame [OF i(1)]) (simp_all add: upd_share_def upd_file_def)
  have l: "list_inv (sal_env env) ?s"
    by (rule list_inv_same [OF i(2)]) (simp_all add: upd_share_def upd_file_def in_table_def same_state_def)
  have k: "lockstates_ok (sal_env env) ?s"
    by (rule lockstates_ok_same [OF i(3)]) (simp_all add: upd_share_def upd_file_def in_table_def same_state_def)
  have o: "opens ?s f = opens s f" for f by (simp add: opens_def upd_share_def upd_file_def)
  show op: "opens s' f = opens s f - {a}" for f using opens_del(1) [OF t g(1) l g(2) tab, of f] o by (simp add: s'_def rem)
  show sh: "share_of s' b = share_of s b" if "b \<noteq> a" for b
    using opens_del(2) [OF t g(1) l g(2) tab that] by (simp add: s'_def rem)
  have "shares_ok An s'"
    unfolding shares_ok_def
  proof (intro conjI allI impI)
    fix f b c
    have sc: "share_state (files s' f) = (if f = obj then ?u (share_state (files s f)) else share_state (files s f))"
      unfolding s'_def rem del_in_table(4) [OF t g tab] by (simp add: upd_share_def upd_file_def)
    have "counted (share_state (files s' f)) (opens s' f) (share_of s) (An f)"
    proof (cases "f = obj")
      case True
      then show ?thesis unfolding op sc using counted_del [OF shares_okD(1) [OF i(4)] finite_opens, of a f] a by simp
    next
      case False
      then have "a \<notin> opens s f" using opens_one_file [OF i(2) g(2) a] by blast
      then show ?thesis using shares_okD(1) [OF i(4), of f] False by (simp add: op sc)
    qed
    then show "counted (share_state (files s' f)) (opens s' f) (share_of s') (An f)"
      by (rule counted_cong) (auto simp: op sh)
    show "\<not> denies (share_deny (share_of s' c)) (share_access (share_of s' b))"
      if "b \<in> opens s' f" "c \<in> opens s' f" "b \<noteq> c"
      using that shares_okD(2) [OF i(4), of b f c] by (simp add: op sh)
  qed
  then show "open_inv env H An s'"
    using del_tables [OF t g(1) l g(2) k tab] by (simp add: open_inv_def s'_def rem)
qed

lemma open_inv_close:
  assumes inv: "open_inv env H An s" and good: "good_env env" and a: "a \<in> opens s obj" and ex: "\<not> support_ex (sal_env env) obj"
  shows "open_inv env H An (close_share env ctx obj a s)"
    "opens (close_share env ctx obj a s) f = opens s f - {a}"
    "b \<in> opens s f \<Longrightarrow> b \<noteq> a \<Longrightarrow> share_of (close_share env ctx obj a s) b = share_of s b"
proof -
  let ?s = "fold (state_del_locked (sal_env env)) (share_lockstates s a) s"
  have "open_inv env H An ?s \<and> same_opens s ?s"
    by (rule del_lockstates [OF inv good]) (use inv in \<open>simp_all add: open_inv_def lockstates_ok_def\<close>)
  then have d: "open_inv env H An ?s" "opens ?s f = opens s f" "b \<in> opens s f \<Longrightarrow> share_of ?s b = share_of s b"
    "a \<in> opens ?s obj" using a by (auto simp: same_opens_def)
  then have "close_share env ctx obj a s = state_del_locked (sal_env env) a (snd (state_share_remove env ctx obj a ?s))"
    using ex by (simp add: close_share_def Let_def opens_def)
  with open_inv_remove [OF d(1) good d(4), where ctx = ctx] d(2,3)
  show "open_inv env H An (close_share env ctx obj a s)"
    "opens (close_share env ctx obj a s) f = opens s f - {a}"
    "b \<in> opens s f \<Longrightarrow> b \<noteq> a \<Longrightarrow> share_of (close_share env ctx obj a s) b = share_of s b" by simp_all
qed

lemma open_inv_downgrade:
  assumes inv: "open_inv env H An s" and good: "good_env env" and a: "a \<in> opens s obj"
  shows "open_inv env H An (snd (nfs4_do_open_downgrade env ctx obj access deny a s))"
proof (cases "share_access (share_of s a) AND access = access \<and> share_deny (share_of s a) AND deny = deny")
  case False
  then show ?thesis using inv by (auto simp: nfs4_do_open_downgrade_def Let_def)
next
  case True
  have i: "table_inv (sal_env env) H s" "list_inv (sal_env env) s" "lockstates_ok (sal_env env) s" "shares_ok An s"
    using inv by (simp_all add: open_inv_def)
  let ?oa = "share_access (share_of s a)" and ?od = "share_deny (share_of s a)"
  obtain d fs where dg: "state_share_downgrade env ctx obj access deny a s = (STATE_SUCCESS, reserve obj ?oa ?od a d fs s)"
    "share_access d = access" "share_deny d = deny"
    using state_share_downgrade_success [OF good] by metis
  have sub: "bit access n \<Longrightarrow> bit ?oa n" "bit deny n \<Longrightarrow> bit ?od n" for n using True by (metis bit_and_iff)+
  have "\<not> denies (share_deny (share_of s b)) (share_access d) \<and> \<not> denies (share_deny d) (share_access (share_of s b))"
    if "b \<in> opens s obj" "b \<noteq> a" for b
    using that shares_okD(2) [OF i(4), of a obj b] shares_okD(2) [OF i(4), of b obj a] a sub
    unfolding dg(2,3) denies_bit by blast
  then have "shares_ok An (reserve obj ?oa ?od a d fs s)"
    using shares_ok_change [OF i(4,2) good_envD(2) [OF good] a] by blast
  then have "open_inv env H An (reserve obj ?oa ?od a d fs s)" using reserve_tables [OF i(1-3)] by (simp add: open_inv_def)
  moreover have "open_inv env H An (snd (case fsal_reopen2 env obj a fl True (fsal s) of
      (fsal_status, fs) \<Rightarrow> (state_error_convert fsal_status, s\<lparr>fsal := fs\<rparr>)))" for fl
    using inv by (simp split: prod.split)
  ultimately show ?thesis using inv dg(1) by (simp add: nfs4_do_open_downgrade_def Let_def split: prod.split)
qed

subsection \<open>Anonymous input and output\<close>

lemma open_inv_anon:
  assumes inv: "open_inv env H An s" and c: "\<And>c S g. counted c S g (An obj) \<Longrightarrow> counted (u c) S g xs"
    and s': "st s' = st s" "allocated s' = allocated s" "next_state s' = next_state s" "ht_state_id s' = ht_state_id s"
      "ht_state_obj s' = ht_state_obj s" "exp_state_list s' = exp_state_list s" "nfs4_owners s' = nfs4_owners s"
      "share_lockstates s' = share_lockstates s" "\<And>f. list_of_states (files s' f) = list_of_states (files s f)"
      "\<And>f. share_state (files s' f) = (if f = obj then u (share_state (files s f)) else share_state (files s f))"
  shows "open_inv env H (An(obj := xs)) s'"
proof -
  have i: "table_inv (sal_env env) H s" "list_inv (sal_env env) s" "lockstates_ok (sal_env env) s" "shares_ok An s"
    using inv by (simp_all add: open_inv_def)
  have "table_inv (sal_env env) H s'" using table_inv_frame [OF i(1) s'(1-5)] .
  moreover have "list_inv (sal_env env) s'"
    by (rule list_inv_same [OF i(2)]) (simp_all add: s' in_table_def same_state_def)
  moreover have "lockstates_ok (sal_env env) s'"
    by (rule lockstates_ok_same [OF i(3)]) (simp_all add: s' in_table_def same_state_def)
  moreover have "shares_ok (An(obj := xs)) s'"
  proof -
    have o: "opens s' f = opens s f" for f by (simp add: opens_def s')
    have sh: "share_of s' = share_of s" by (simp add: share_of_def fun_eq_iff s')
    show ?thesis using i(4) c unfolding shares_ok_def o sh s'(10) by simp
  qed
  ultimately show ?thesis by (simp add: open_inv_def)
qed

lemma open_inv_anon_start:
  assumes "open_inv env H An s" "state_share_anonymous_io_start env obj access bypass s = (status, s')"
  shows "open_inv env H (if status = STATE_SUCCESS then An(obj := access # An obj) else An) s'"
proof -
  let ?chk = "state_share_check_conflict (share_state (files s obj)) access OPEN4_SHARE_DENY_NONE bypass"
  obtain cf fs where del: "state_deleg_conflict env obj (access AND OPEN4_SHARE_ACCESS_WRITE \<noteq> 0) (fsal s) = (cf, fs)" by fastforce
  note def = assms(2) [unfolded state_share_anonymous_io_start_def Let_def del prod.case]
  consider "?chk \<noteq> STATE_SUCCESS" | "?chk = STATE_SUCCESS" "cf" | "?chk = STATE_SUCCESS" "\<not> cf" by blast
  then show ?thesis
  proof cases
    case 1
    with def have "status = STATE_LOCKED" "s' = s" by auto
    with assms(1) show ?thesis by simp
  next
    case 2
    with def have "status = STATE_FSAL_DELAY" "s' = s\<lparr>fsal := fs\<rparr>" by auto
    with assms(1) show ?thesis by simp
  next
    case 3
    with def have s': "status = STATE_SUCCESS" "s' = upd_share obj (state_share_update_counter 0 0 access 0 False)
        (upd_file obj (\<lambda>f. f\<lparr>anon_ops := anon_ops f + 1\<rparr>) (s\<lparr>fsal := fs\<rparr>))" by auto
    have "open_inv env H (An(obj := access # An obj)) s'"
      by (rule open_inv_anon [OF assms(1), where u = "state_share_update_counter 0 0 access 0 False"])
        (auto simp: counted_anon s' upd_share_def upd_file_def)
    with s'(1) show ?thesis by simp
  qed
qed

lemma open_inv_anon_done:
  assumes "open_inv env H An s" "access \<in> set (An obj)"
  shows "open_inv env H (An(obj := remove1 access (An obj))) (state_share_anonymous_io_done obj access s)"
  by (rule open_inv_anon [OF assms(1), where u = "state_share_update_counter access 0 0 0 False"])
     (auto simp: counted_anon_done [OF _ assms(2)] state_share_anonymous_io_done_def upd_share_def upd_file_def)

subsection \<open>The state machine of opens\<close>

definition open_init :: "'fs sal \<Rightarrow> bool" where
  "open_init s \<longleftrightarrow> sal_init s \<and> share_lockstates s = (\<lambda>_. [])
    \<and> (\<forall>f. share_state (files s f) = \<lparr>share_access_read = 0, share_access_write = 0, share_deny_read = 0,
          share_deny_write = 0, share_deny_write_v4 = 0\<rparr>)"

text \<open>The reference of the request to the state it has found or made is given back at its end.\<close>

definition end_open :: "nat option \<Rightarrow> 'fs sal \<Rightarrow> 'fs sal" where
  "end_open r s = (case r of None \<Rightarrow> s | Some a \<Rightarrow> dec_nfs4_state_ref a s)"

text \<open>
  The requests, one after the other: OPEN, OPEN_DOWNGRADE and CLOSE of the open with a stateid, a
  new lock state under an open and a failure to make one, the start and the end of an anonymous
  access, a new sequence number of a stateid, and everything that is not about opens.
\<close>

inductive open_reach :: "'fs open_env \<Rightarrow> (nat \<Rightarrow> uint32 list) \<Rightarrow> 'fs sal \<Rightarrow> bool" for env where
  start: "open_reach env (\<lambda>_. []) s" if "open_init s"
| OPEN: "open_reach env An (end_open r s')"
    if "open_reach env An s" "open_ready env An obj owner s"
      "open4_do_open env ctx obj share_acc share_den owner openflags skip refer s = (status, r, new, s')"
| OPEN_DOWNGRADE: "open_reach env An (dec_nfs4_state_ref a (snd (nfs4_do_open_downgrade env ctx obj access deny a s1)))"
    if "open_reach env An s" "nfs4_State_Get_Pointer other s = (Some a, s1)" "a \<in> opens s1 obj"
| CLOSE: "open_reach env An (dec_nfs4_state_ref a (close_share env ctx obj a s1))"
    if "open_reach env An s" "nfs4_State_Get_Pointer other s = (Some a, s1)" "a \<in> opens s1 obj"
      "\<not> support_ex (sal_env env) obj"
| LOCK: "open_reach env An (dec_nfs4_state_ref a (s1\<lparr>share_lockstates := (share_lockstates s1)(p := share_lockstates s1 p @ [a])\<rparr>))"
    if "open_reach env An s"
      "state_add (sal_env env) ctx obj STATE_TYPE_LOCK data owner None refer s = (STATE_SUCCESS, Some a, s1)"
      "\<And>b. allocated s b \<Longrightarrow>
        stateid_other (st s b) \<noteq> stateid_other (new_state (sal_env env) ctx obj STATE_TYPE_LOCK data owner refer s)"
| LOCK_fail: "open_reach env An s1"
    if "open_reach env An s" "state_add (sal_env env) ctx obj STATE_TYPE_LOCK data owner None refer s = (status, r, s1)"
      "status \<noteq> STATE_SUCCESS"
| anonymous_start: "open_reach env (if status = STATE_SUCCESS then An(obj := access # An obj) else An) s'"
    if "open_reach env An s" "state_share_anonymous_io_start env obj access bypass s = (status, s')"
| anonymous_done: "open_reach env (An(obj := remove1 access (An obj))) (state_share_anonymous_io_done obj access s)"
    if "open_reach env An s" "access \<in> set (An obj)"
| stateid: "open_reach env An (upd_st a (state_seqid_update f) s)" if "open_reach env An s"
| rest: "open_reach env An s'"
    if "open_reach env An s" "st s' = st s" "allocated s' = allocated s" "next_state s' = next_state s"
      "ht_state_id s' = ht_state_id s" "ht_state_obj s' = ht_state_obj s" "exp_state_list s' = exp_state_list s"
      "\<And>w. so_state_list (nfs4_owners s' w) = so_state_list (nfs4_owners s w)"
      "\<And>f. list_of_states (files s' f) = list_of_states (files s f)"
      "\<And>f. share_state (files s' f) = share_state (files s f)" "share_lockstates s' = share_lockstates s"

lemma open_inv_init: "open_init s \<Longrightarrow> open_inv env [] (\<lambda>_. []) s"
  using table_inv_init [of s] list_inv_init [of s]
  by (simp add: open_inv_def open_init_def lockstates_ok_def shares_ok_def opens_def counted_def in_table_def sal_init_def)

lemma open_inv_get:
  assumes inv: "open_inv env H An s" and get: "nfs4_State_Get_Pointer other s = (Some a, s1)"
  shows "open_inv env (a # H) An s1"
proof -
  have "ht_state_id s other = Some a" "s1 = inc_state_t_ref a s"
    using get by (auto simp: nfs4_State_Get_Pointer_def split: option.splits)
  then show ?thesis
    using open_inv_inc [OF inv, of a] table_invD(1) [of "sal_env env" H s other a] inv by (simp add: open_inv_def in_table_def)
qed

lemma open_reach_inv:
  assumes "open_reach env An s" "good_env env"
  shows "open_inv env [] An s"
  using assms
proof (induction rule: open_reach.induct)
  case (start s)
  then show ?case using open_inv_init by blast
next
  case (OPEN An s obj owner ctx share_acc share_den openflags skip refer status r new s')
  have "open_result env [] An obj (share_acc AND OPEN4_SHARE_ACCESS_BOTH) share_den s (status, r, new, s')"
    using open4_do_open_result [OF OPEN.IH [OF OPEN.prems] OPEN.prems OPEN.hyps(2)] OPEN.hyps(3) by metis
  then show ?case by (cases r) (simp_all add: open_result_def end_open_def open_inv_dec)
next
  case (OPEN_DOWNGRADE An s other a s1 obj ctx access deny)
  show ?case
    by (rule open_inv_dec [OF open_inv_downgrade [OF open_inv_get [OF OPEN_DOWNGRADE.IH [OF OPEN_DOWNGRADE.prems]
          OPEN_DOWNGRADE.hyps(2)] OPEN_DOWNGRADE.prems OPEN_DOWNGRADE.hyps(3)]])
next
  case (CLOSE An s other a s1 obj ctx)
  show ?case
    by (rule open_inv_dec [OF open_inv_close(1) [OF open_inv_get [OF CLOSE.IH [OF CLOSE.prems] CLOSE.hyps(2)]
          CLOSE.prems CLOSE.hyps(3,4)]])
next
  case (LOCK An s ctx obj data owner refer a s1 p)
  show ?case by (rule open_inv_dec [OF open_inv_new_lock [OF LOCK.IH [OF LOCK.prems] LOCK.prems LOCK.hyps(2,3)]])
next
  case (LOCK_fail An s ctx obj data owner refer status r s1)
  then show ?case
    using open_inv_add_fail [of env "[]" An s ctx obj STATE_TYPE_LOCK data owner refer status r s1]
    by (auto simp: state_add_def Let_def split: if_splits)
next
  case (anonymous_start An s obj access bypass status s')
  then show ?case using open_inv_anon_start by blast
next
  case (anonymous_done An s access obj)
  then show ?case using open_inv_anon_done by blast
next
  case (stateid An s a f)
  then show ?case using open_inv_seqid by blast
next
  case (rest An s s')
  show ?case by (rule open_inv_frame [OF rest.IH [OF rest.prems] rest.hyps(2-)])
qed

subsection \<open>A small system\<close>

text \<open>Owner 4 is an open owner; the back end never refuses anything.\<close>

definition small_open_env :: "unit open_env" where
  "small_open_env = \<lparr>sal_env = small_env\<lparr>own_env := (own_env small_env)\<lparr>owners := (\<lambda>i. \<lparr>so_type = STATE_OPEN_OWNER_NFSV4,
       so_owner_val = [], so_owner = So_nfs4 (of_nat i)\<rparr>)\<rparr>\<rparr>,
     fso_share_support = (\<lambda>_. False), share_op = (\<lambda>_ _ fs. (\<lparr>major = ERR_FSAL_NO_ERROR, minor = 0\<rparr>, fs)),
     has_state_hdl = (\<lambda>_. True), fsal_access = (\<lambda>_ _ _ _ fs. (\<lparr>major = ERR_FSAL_NO_ERROR, minor = 0\<rparr>, fs)),
     state_deleg_conflict = (\<lambda>_ _ fs. (False, fs)), fsal_open = (\<lambda>_ _ fs. (\<lparr>major = ERR_FSAL_NO_ERROR, minor = 0\<rparr>, fs)),
     fsal_reopen2 = (\<lambda>_ _ _ _ fs. (\<lparr>major = ERR_FSAL_NO_ERROR, minor = 0\<rparr>, fs)),
     fsal_close = (\<lambda>_ fs. (\<lparr>major = ERR_FSAL_NO_ERROR, minor = 0\<rparr>, fs))\<rparr>"

lemma small_open_good: "good_env small_open_env"
  using small_env_digests small_env_resolves
  by (simp add: good_env_def small_open_env_def digests_prefix_free_def resolves_def FSAL_IS_ERROR_def)

lemma small_open_start: "open_reach small_open_env (\<lambda>_. []) small_sal"
  by (rule start) (simp add: open_init_def sal_init_def small_sal_def)

lemma small_open_ready: "open_ready small_open_env (\<lambda>_. []) 2 4 small_sal"
  by (simp add: open_ready_def small_open_env_def small_sal_def opens_def)

text \<open>Owner 4 opens file 2 for reading and denies others to write.\<close>

definition added_open :: "unit sal" where
  "added_open = snd (snd (state_add_impl (sal_env small_open_env) 0 2 STATE_TYPE_SHARE
     (Share_data \<lparr>share_access = 1, share_deny = 2, share_access_prev = 0, share_deny_prev = 0\<rparr>) 4 None None small_sal))"

definition one_open :: "unit sal" where
  "one_open = snd (snd (snd (open4_do_open small_open_env 0 2 1 2 4 0 False None small_sal)))"

lemma added_open_eq:
  "state_add_impl (sal_env small_open_env) 0 2 STATE_TYPE_SHARE
      (Share_data \<lparr>share_access = 1, share_deny = 2, share_access_prev = 0, share_deny_prev = 0\<rparr>) 4 None None small_sal =
    (STATE_SUCCESS, Some 0, added_open)"
  unfolding added_open_def state_add_impl_eq
  by (simp add: small_open_env_def nfs4_State_Set_def find_state_obj_def small_env_def small_sal_def new_state_def Let_def)

lemma small_open_calls:
  "fsal_access small_open_env obj r w x fs = (\<lparr>major = ERR_FSAL_NO_ERROR, minor = 0\<rparr>, fs)"
  "has_state_hdl small_open_env obj" "state_deleg_conflict small_open_env obj w fs = (False, fs)"
  by (simp_all add: small_open_env_def)

lemma one_open_step:
  "open4_do_open small_open_env 0 2 1 2 4 0 False None small_sal =
    open4_share small_open_env 0 2 1 2 0 0 True (added_open\<lparr>share_lockstates := (share_lockstates added_open)(0 := [])\<rparr>)"
proof -
  have unit: "small_sal\<lparr>fsal := ()\<rparr> = small_sal" by (simp add: small_sal_def)
  have "find_state_obj e d w small_sal = None" "share_state (files small_sal f) =
      \<lparr>share_access_read = 0, share_access_write = 0, share_deny_read = 0, share_deny_write = 0, share_deny_write_v4 = 0\<rparr>"
    for e d w f by (simp_all add: find_state_obj_def small_sal_def)
  then show ?thesis
    by (simp add: open4_do_open_def open4_access_def small_open_calls FSAL_IS_ERROR_def nfs4_State_Get_Obj_def
        nfs4_State_Get_State_Obj_def state_share_check_conflict_def added_open_eq unit)
qed

lemma one_open_eq: "open4_do_open small_open_env 0 2 1 2 4 0 False None small_sal = (NFS4_OK, Some 0, True, one_open)"
  using open4_share_new [OF small_open_good] unfolding one_open_def one_open_step by (metis snd_conv)

lemma one_open_reach: "open_reach small_open_env (\<lambda>_. []) (dec_nfs4_state_ref 0 one_open)"
  using OPEN [OF small_open_start small_open_ready one_open_eq] by (simp add: end_open_def)

lemma one_open_opened: "opens (dec_nfs4_state_ref 0 one_open) 2 = {0}"
  "share_access (share_of (dec_nfs4_state_ref 0 one_open) 0) = 1" "share_deny (share_of (dec_nfs4_state_ref 0 one_open) 0) = 2"
proof -
  have "opened 2 1 2 0 small_sal one_open"
    using open4_do_open_result [OF open_reach_inv [OF small_open_start small_open_good] small_open_good small_open_ready,
        of 1 2 0 0 False None] by (simp add: one_open_eq open_result_def)
  moreover have "opens small_sal 2 = {}" by (simp add: opens_def small_sal_def)
  ultimately show "opens (dec_nfs4_state_ref 0 one_open) 2 = {0}"
    "share_access (share_of (dec_nfs4_state_ref 0 one_open) 0) = 1" "share_deny (share_of (dec_nfs4_state_ref 0 one_open) 0) = 2"
    by (simp_all add: opened_def)
qed

subsection \<open>Properties\<close>

text \<open>C3: in every state that opens, downgrades, closes, new lock states and anonymous accesses can reach, with a
  back end that does not fail, no open of a file has an access bit that another open of the file
  denies; and the five counters of each file are the numbers of opens and anonymous accesses with the
  bit, as 32-bit words.\<close>

theorem share_reservations_hold:
  assumes "open_reach env An s" "good_env env"
  shows "(\<forall>f a b. a \<in> opens s f \<longrightarrow> b \<in> opens s f \<longrightarrow> a \<noteq> b \<longrightarrow>
      share_access (share_of s a) AND share_deny (share_of s b) AND OPEN4_SHARE_ACCESS_BOTH = 0)
    \<and> (\<forall>f. counted (share_state (files s f)) (opens s f) (share_of s) (An f))"
  using open_reach_inv [OF assms] by (simp add: open_inv_def shares_ok_def denies_def)

theorem share_reservations_hold_witness:
  "open_reach small_open_env (\<lambda>_. []) (dec_nfs4_state_ref 0 one_open) \<and> opens (dec_nfs4_state_ref 0 one_open) 2 = {0}
   \<and> share_access_read (share_state (files (dec_nfs4_state_ref 0 one_open) 2)) = 1
   \<and> share_deny_write_v4 (share_state (files (dec_nfs4_state_ref 0 one_open) 2)) = 1"
  using share_reservations_hold [OF one_open_reach small_open_good] one_open_reach one_open_opened
  by (auto simp: counted_def bit_0 dest: spec [of _ 2])





text \<open>C26: if the back end fails to open the file after the open state has been made, the request fails, but the
  state stays in the tables, where the next open of the same owner finds it, with a reservation that
  no counter counts; removing that reservation takes away from the counters what was never added.\<close>

theorem open_failed_uncounted:
  assumes "open4_access env obj acc skip s = (None, s0)" "has_state_hdl env obj"
    "state_share_check_conflict (share_state (files s0 obj)) (acc AND OPEN4_SHARE_ACCESS_BOTH) deny SHARE_BYPASS_NONE = STATE_SUCCESS"
    "state_deleg_conflict env obj ((acc AND OPEN4_SHARE_ACCESS_BOTH) AND OPEN4_SHARE_ACCESS_WRITE \<noteq> 0) (fsal s0) = (False, fs)"
    "nfs4_State_Get_Obj (sal_env env) obj owner (s0\<lparr>fsal := fs\<rparr>) = (None, s1)"
    and add: "state_add_impl (sal_env env) ctx obj STATE_TYPE_SHARE (Share_data \<lparr>share_access = acc AND OPEN4_SHARE_ACCESS_BOTH,
        share_deny = deny, share_access_prev = 0, share_deny_prev = 0\<rparr>) owner None refer s1 = (STATE_SUCCESS, Some a, s2)"
    and fail: "fsal_open env obj fl (fsal s2) = (st1, fs1)" "FSAL_IS_ERROR st1"
    and inv: "table_inv (sal_env env) H s1" "digests_prefix_free (sal_env env)" "\<not> fso_share_support env ctx"
    and new: "\<And>b. allocated s1 b \<Longrightarrow> stateid_other (st s1 b) \<noteq> stateid_other (st s2 a)"
  shows "\<exists>s'. open4_do_open env ctx obj acc deny owner fl skip refer s = (nfs4_Errno_verbose (major st1), None, True, s')
    \<and> a \<in> opens s' obj \<and> fst (nfs4_State_Get_Obj (sal_env env) obj owner s') = Some a
    \<and> share_state (files s' obj) = share_state (files s1 obj)
    \<and> share_access_read (share_state (files (snd (state_share_remove env ctx obj a s')) obj)) =
        share_access_read (share_state (files s1 obj)) - of_bool (bit (acc AND OPEN4_SHARE_ACCESS_BOTH) 0)"
proof -
  note e = state_add_success [OF add]
  let ?s = "s2\<lparr>share_lockstates := (share_lockstates s2)(a := []), fsal := fs1\<rparr>"
  have s2: "table_inv (sal_env env) (a # H) s2" using table_inv_add [OF inv(1,2) add] new by (simp add: e(2))
  have "open4_do_open env ctx obj acc deny owner fl skip refer s = (nfs4_Errno_verbose (major st1), None, True, ?s)"
    using assms(1-5) add fail by (simp add: open4_do_open_def open4_share_def Let_def)
  moreover have "a \<in> opens ?s obj" by (simp add: opens_def e(2,11))
  moreover have "find_state_obj (sal_env env) (handle_digest (sal_env env) obj) (Some owner) s2 = Some a"
    using find_state_obj_Some [OF s2 inv(2), of a] by (simp add: e(2,6) in_table_def indexed_by_obj_def)
  then have "fst (nfs4_State_Get_Obj (sal_env env) obj owner ?s) = Some a"
    by (simp add: nfs4_State_Get_Obj_def nfs4_State_Get_State_Obj_def find_state_obj_def)
  moreover have "share_access_read (share_state (files (snd (state_share_remove env ctx obj a ?s)) obj)) =
      share_access_read (share_state (files s1 obj)) - of_bool (bit (acc AND OPEN4_SHARE_ACCESS_BOTH) 0)"
    using inv(3) by (simp add: state_share_remove_def state_share_change_def do_share_op_def upd_share_def upd_file_def
        e(2,12) share_of_def update_counter Let_def)
  ultimately show ?thesis using e(12) by (intro exI [of _ ?s]) simp
qed

theorem open_failed_uncounted_witness:
  "\<exists>s'. open4_do_open (small_open_env\<lparr>fsal_open := \<lambda>_ _ fs. (\<lparr>major = ERR_FSAL_IO, minor = 0\<rparr>, fs)\<rparr>) 0 2 1 2 4 0 True None
      small_sal = (NFS4ERR_IO, None, True, s')
    \<and> 0 \<in> opens s' 2 \<and> share_access_read (share_state (files s' 2)) = 0
    \<and> share_access_read (share_state (files (snd (state_share_remove
          (small_open_env\<lparr>fsal_open := \<lambda>_ _ fs. (\<lparr>major = ERR_FSAL_IO, minor = 0\<rparr>, fs)\<rparr>) 0 2 0 s')) 2)) = - 1"
proof -
  let ?env = "small_open_env\<lparr>fsal_open := \<lambda>_ _ fs. (\<lparr>major = ERR_FSAL_IO, minor = 0\<rparr>, fs)\<rparr>"
  have e: "sal_env ?env = sal_env small_open_env" "\<not> fso_share_support ?env 0"
    "state_deleg_conflict ?env obj w fs = (False, fs)" "has_state_hdl ?env obj" "digests_prefix_free (sal_env ?env)"
    for obj w fs using small_open_good by (simp_all add: small_open_env_def good_env_def)
  have unit: "small_sal\<lparr>fsal := ()\<rparr> = small_sal" by (simp add: small_sal_def)
  have init: "table_inv (sal_env ?env) [] small_sal" by (rule table_inv_init) (simp add: sal_init_def small_sal_def)
  have zero: "share_state (files small_sal f) =
      \<lparr>share_access_read = 0, share_access_write = 0, share_deny_read = 0, share_deny_write = 0, share_deny_write_v4 = 0\<rparr>"
    "\<not> allocated small_sal b" for f b by (simp_all add: small_sal_def)
  have "nfs4_State_Get_Obj (sal_env ?env) 2 4 (small_sal\<lparr>fsal := ()\<rparr>) = (None, small_sal)"
    unfolding unit by (simp add: nfs4_State_Get_Obj_def nfs4_State_Get_State_Obj_def find_state_obj_def small_sal_def)
  from open_failed_uncounted [of ?env 2 1 True small_sal small_sal 2 "()" 4 small_sal 0 None 0 added_open 0
      "\<lparr>major = ERR_FSAL_IO, minor = 0\<rparr>" "()" "[]", OF _ e(4) _ _ this _ _ _ init e(5,2)]
  obtain s' where s': "open4_do_open ?env 0 2 1 2 4 0 True None small_sal = (NFS4ERR_IO, None, True, s')"
      "0 \<in> opens s' 2" "share_state (files s' 2) = share_state (files small_sal 2)"
      "share_access_read (share_state (files (snd (state_share_remove ?env 0 2 0 s')) 2)) = - 1"
    using added_open_eq by (auto simp: e(1,3) small_open_calls open4_access_def zero state_share_check_conflict_def FSAL_IS_ERROR_def bit_0)
  then show ?thesis by (intro exI [of _ s']) (simp add: zero)
qed

end
