(* ===== verification/Nfs4_Requests.thy ===== *)
theory Nfs4_Requests
  imports Stateid_Theorems Share_Theorems
begin

text \<open>
  The handlers of OPEN_DOWNGRADE and CLOSE, \<^verbatim>\<open>Protocols/NFS/nfs4_op_open_downgrade.c\<close> and
  \<^verbatim>\<open>nfs4_op_close.c\<close>: the check of the file handle, of the stateid and of the sequence number of the
  owner, the change of the share reservation, the new stateid and the saved answer.  The return of layouts
  after the last close of an NFSv4.1 client is an argument of CLOSE.  A request that is repeated, because
  its answer was lost, gets the same answer and changes nothing again.
\<close>

unbundle bit_operations_syntax

subsection \<open>Arguments\<close>

abbreviation (input) NFS4_OP_CLOSE :: nat where "NFS4_OP_CLOSE \<equiv> 4"
abbreviation (input) NFS4_OP_OPEN_DOWNGRADE :: nat where "NFS4_OP_OPEN_DOWNGRADE \<equiv> 21"

record OPEN_DOWNGRADE4args =
  dg_stateid :: stateid4
  dg_seqid :: uint32
  dg_share_access :: uint32
  dg_share_deny :: uint32

record CLOSE4args =
  close_seqid :: uint32
  close_stateid :: stateid4

subsection \<open>OPEN_DOWNGRADE\<close>

text \<open>Once the state has been found: the part from the reference to its owner to the end.\<close>

definition open_downgrade_state ::
  "'fs open_env \<Rightarrow> nat \<Rightarrow> OPEN_DOWNGRADE4args \<Rightarrow> nat \<Rightarrow> nfs_resop4 \<Rightarrow> compound_data_t \<Rightarrow> 'fs sal \<Rightarrow>
   nfs_resop4 \<times> compound_data_t \<times> 'fs sal" where
  "open_downgrade_state env ctx args a resp data s =
    (case get_state_owner_ref a s of
       (None, s) \<Rightarrow> (resp\<lparr>resp_status := NFS4ERR_STALE\<rparr>, data, dec_nfs4_state_ref a s)
     | (Some w, s) \<Rightarrow>
        (let out = (\<lambda>resp data s. (resp, data, dec_nfs4_state_ref a (add_owner_ref w (- 1) s)));
             (go, resp) = (if minorversion data = 0
               then Check_nfs4_seqid (Some w) (dg_seqid args) NFS4_OP_OPEN_DOWNGRADE (current_obj data) resp s
               else (True, resp))
         in if \<not> go then out resp data s
            else
              (case nfs4_do_open_downgrade env ctx (current_obj data) (dg_share_access args) (dg_share_deny args) a s of
                 (status, s) \<Rightarrow>
                   if status \<noteq> NFS4_OK then out (resp\<lparr>resp_status := status\<rparr>) data s
                   else
                     (let (sid, data, s) = update_stateid a data s;
                          resp = resp\<lparr>resp_status := NFS4_OK, resp_stateid := sid\<rparr>;
                          s = (if minorversion data = 0
                               then Copy_nfs4_state_req (Some w) (dg_seqid args) NFS4_OP_OPEN_DOWNGRADE
                                 (current_obj data) resp s else s)
                      in out resp data s))))"

definition nfs4_op_open_downgrade ::
  "'fs open_env \<Rightarrow> 'fs check_env \<Rightarrow> nat \<Rightarrow> OPEN_DOWNGRADE4args \<Rightarrow> nfs_resop4 \<Rightarrow> compound_data_t \<Rightarrow> 'fs sal \<Rightarrow>
   nfs_resop4 \<times> compound_data_t \<times> 'fs sal" where
  "nfs4_op_open_downgrade env cenv ctx args resp data s =
    (let resp = resp\<lparr>resop := NFS4_OP_OPEN_DOWNGRADE, resp_status := NFS4_OK\<rparr>;
         status = nfs4_sanity_check_FH (currentFH data) (current_filetype data) NO_FILE_TYPE False
     in if status \<noteq> NFS4_OK then (resp\<lparr>resp_status := status\<rparr>, data, s)
        else if current_filetype data \<noteq> REGULAR_FILE then (resp\<lparr>resp_status := NFS4ERR_INVAL\<rparr>, data, s)
        else
          (case nfs4_Check_Stateid cenv (dg_stateid args) (Some (current_obj data)) STATEID_SPECIAL_FOR_LOCK
              (dg_seqid args) (minorversion data = 0) data s of
             (sid, rc, r, data, s) \<Rightarrow>
               if rc \<noteq> NFS4_OK \<and> rc \<noteq> NFS4ERR_REPLAY then (resp\<lparr>resp_status := rc\<rparr>, data, s)
               else (case r of
                   None \<Rightarrow> (resp, data, s)
                 | Some a \<Rightarrow> open_downgrade_state env ctx args a resp data s)))"

subsection \<open>CLOSE\<close>

text \<open>The part that is done while the state of the file is locked.\<close>

definition close_body ::
  "'fs open_env \<Rightarrow> 'fs check_env \<Rightarrow> (compound_data_t \<Rightarrow> 'fs sal \<Rightarrow> 'fs sal) \<Rightarrow> nat \<Rightarrow> nat \<Rightarrow> nfs_resop4 \<Rightarrow>
   compound_data_t \<Rightarrow> 'fs sal \<Rightarrow> nfs_resop4 \<times> compound_data_t \<times> 'fs sal" where
  "close_body env cenv cleanup_layouts ctx a resp data s =
    (if list_ex (has_locks cenv) (share_lockstates s a) then (resp\<lparr>resp_status := NFS4ERR_LOCKS_HELD\<rparr>, data, s)
     else
       (let obj = current_obj data;
            (sid, data, s) = update_stateid a data s;
            resp = resp\<lparr>resp_stateid := sid\<rparr>;
            s = close_share env ctx obj a s;
            data = data\<lparr>current_stateid_valid := False\<rparr>;
            s = (if minorversion data > 0 then cleanup_layouts data s else s)
        in if support_ex (sal_env env) obj then (resp\<lparr>resp_status := NFS4_OK\<rparr>, data, s)
           else (case fsal_close env obj (fsal s) of
               (fsal_status, fs) \<Rightarrow>
                 (let s = s\<lparr>fsal := fs\<rparr> in
                  if FSAL_IS_ERROR fsal_status \<and> major fsal_status \<noteq> ERR_FSAL_NOT_OPENED
                  then (resp\<lparr>resp_status := nfs4_Errno_verbose (major fsal_status)\<rparr>, data, s)
                  else (resp\<lparr>resp_status := NFS4_OK\<rparr>, data, s)))))"

definition close_state ::
  "'fs open_env \<Rightarrow> 'fs check_env \<Rightarrow> (compound_data_t \<Rightarrow> 'fs sal \<Rightarrow> 'fs sal) \<Rightarrow> nat \<Rightarrow> CLOSE4args \<Rightarrow> nat \<Rightarrow> nfs_resop4 \<Rightarrow>
   compound_data_t \<Rightarrow> 'fs sal \<Rightarrow> nfs_resop4 \<times> compound_data_t \<times> 'fs sal" where
  "close_state env cenv cleanup_layouts ctx args a resp data s =
    (case get_state_owner_ref a s of
       (None, s) \<Rightarrow> (resp\<lparr>resp_status := NFS4ERR_STALE\<rparr>, data, dec_nfs4_state_ref a s)
     | (Some w, s) \<Rightarrow>
        (let out2 = (\<lambda>resp data s. (resp, data, dec_nfs4_state_ref a (add_owner_ref w (- 1) s)));
             (go, resp) = (if minorversion data = 0
               then Check_nfs4_seqid (Some w) (close_seqid args) NFS4_OP_CLOSE (current_obj data) resp s
               else (True, resp))
         in if \<not> go then out2 resp data s
            else
              (case close_body env cenv cleanup_layouts ctx a resp data s of
                 (resp, data, s) \<Rightarrow>
                   (let s = (if minorversion data = 0
                             then Copy_nfs4_state_req (Some w) (close_seqid args) NFS4_OP_CLOSE (current_obj data) resp s
                             else s)
                    in out2 resp data s))))"

definition nfs4_op_close ::
  "'fs open_env \<Rightarrow> 'fs check_env \<Rightarrow> (compound_data_t \<Rightarrow> 'fs sal \<Rightarrow> 'fs sal) \<Rightarrow> nat \<Rightarrow> CLOSE4args \<Rightarrow> compound_data_t \<Rightarrow>
   'fs sal \<Rightarrow> nfs_resop4 \<times> compound_data_t \<times> 'fs sal" where
  "nfs4_op_close env cenv cleanup_layouts ctx args data s =
    (let resp = \<lparr>resop = NFS4_OP_CLOSE, resp_status = NFS4_OK, resp_stateid = \<lparr>sid_seqid = 0, sid_other = (0, 0)\<rparr>\<rparr>;
         status = nfs4_sanity_check_FH (currentFH data) (current_filetype data) REGULAR_FILE False
     in if status \<noteq> NFS4_OK then (resp\<lparr>resp_status := status\<rparr>, data, s)
        else
          (case nfs4_Check_Stateid cenv (close_stateid args) (Some (current_obj data))
              (if minorversion data = 0 then STATEID_SPECIAL_CLOSE_40 else STATEID_SPECIAL_CLOSE_41 OR STATEID_SPECIAL_CURRENT)
              (close_seqid args) (minorversion data = 0) data s of
             (sid, rc, r, data, s) \<Rightarrow>
               if rc \<noteq> NFS4_OK \<and> rc \<noteq> NFS4ERR_REPLAY then (resp\<lparr>resp_status := rc\<rparr>, data, s)
               else (case r of
                   None \<Rightarrow>
                     (resp\<lparr>resp_status := NFS4_OK, resp_stateid := \<lparr>sid_seqid = next_seqid (sid_seqid sid), sid_other = sid_other sid\<rparr>\<rparr>,
                      data, s)
                 | Some a \<Rightarrow> close_state env cenv cleanup_layouts ctx args a resp data s)))"

end
