(* ===== verification/Request_Theorems.thy ===== *)
theory Request_Theorems
  imports Nfs4_Requests
begin

text \<open>Repeated requests: OPEN_DOWNGRADE and CLOSE.\<close>

unbundle bit_operations_syntax

subsection \<open>What a downgrade changes\<close>

text \<open>The data of a state, the reservations of files and the back end.\<close>

definition only_share :: "nat \<Rightarrow> 'fs sal \<Rightarrow> 'fs sal \<Rightarrow> bool" where
  "only_share a s s' \<longleftrightarrow>
    s' = s\<lparr>st := (st s)(a := (st s a)\<lparr>state_data := state_data (st s' a)\<rparr>), files := files s', fsal := fsal s'\<rparr>"

lemma only_share_simps [simp]:
  "only_share a s (s\<lparr>fsal := fs\<rparr>)" "only_share a s s" "only_share a s (s\<lparr>files := fl, fsal := fs\<rparr>)"
  "only_share a s ((upd_st a (state_data_update (\<lambda>_. d)) (s\<lparr>files := fl\<rparr>))\<lparr>fsal := fs\<rparr>)"
  by (simp_all add: only_share_def upd_st_def)

lemma do_share_op_fsal: "\<exists>status fs. do_share_op env ctx obj p s = (status, s\<lparr>fsal := fs\<rparr>)"
proof (cases "fso_share_support env ctx")
  case True
  then show ?thesis by (auto simp: do_share_op_def split: prod.splits)
next
  case False
  then show ?thesis by (intro exI [of _ STATE_SUCCESS] exI [of _ "fsal s"]) (simp add: do_share_op_def)
qed

lemma share_change_frame:
  "\<exists>status fl fs. state_share_change env ctx obj oa od na nd reclaim s = (status, s\<lparr>files := fl, fsal := fs\<rparr>)"
proof -
  let ?s = "upd_share obj (state_share_update_counter oa od na nd True) s"
  obtain fl where s: "?s = s\<lparr>files := fl\<rparr>" by (auto simp: upd_share_def upd_file_def)
  let ?c = "share_state (files s obj)" and ?c' = "share_state (files ?s obj)"
  let ?same = "state_share_get_share_access ?c' = state_share_get_share_access ?c
      \<and> state_share_get_share_deny ?c' = state_share_get_share_deny ?c"
  let ?p = "\<lparr>param_share_access = state_share_get_share_access ?c', param_share_deny = state_share_get_share_deny ?c',
      param_share_reclaim = reclaim\<rparr>"
  obtain status fs where op: "do_share_op env ctx obj ?p ?s = (status, ?s\<lparr>fsal := fs\<rparr>)"
    using do_share_op_fsal [of env ctx obj ?p ?s] by blast
  show ?thesis
  proof (cases ?same)
    case True
    then have "state_share_change env ctx obj oa od na nd reclaim s = (STATE_SUCCESS, s\<lparr>files := fl, fsal := fsal s\<rparr>)"
      unfolding state_share_change_def Let_def by (simp add: s)
    then show ?thesis by blast
  next
    case False
    show ?thesis
    proof (cases "status = STATE_SUCCESS")
      case True
      with False op have "state_share_change env ctx obj oa od na nd reclaim s = (status, s\<lparr>files := fl, fsal := fs\<rparr>)"
        unfolding state_share_change_def Let_def by (auto simp: s)
      then show ?thesis by blast
    next
      case fail: False
      let ?r = "upd_share obj (state_share_update_counter na nd oa od True) (s\<lparr>files := fl, fsal := fs\<rparr>)"
      have "?r = s\<lparr>files := files ?r, fsal := fs\<rparr>" by (simp add: upd_share_def upd_file_def)
      moreover have "state_share_change env ctx obj oa od na nd reclaim s = (status, ?r)"
        using False op fail unfolding state_share_change_def Let_def by (auto simp: s)
      ultimately show ?thesis by metis
    qed
  qed
qed

lemma do_open_downgrade_frame: "only_share a s (snd (nfs4_do_open_downgrade env ctx obj access deny a s))"
proof -
  let ?d = "share_of s a"
  obtain status fl fs where ch: "state_share_change env ctx obj (share_access ?d) (share_deny ?d) access deny False s =
      (status, s\<lparr>files := fl, fsal := fs\<rparr>)"
    using share_change_frame [of env ctx obj "share_access ?d" "share_deny ?d" access deny False s] by blast
  have dg: "only_share a s (snd (state_share_downgrade env ctx obj access deny a s))"
    by (simp add: state_share_downgrade_def ch set_share_def)
  have ex: "only_share a s (snd (case fsal_reopen2 env obj a f True (fsal s) of
      (fsal_status, fs) \<Rightarrow> (state_error_convert fsal_status, s\<lparr>fsal := fs\<rparr>)))" for f by (simp split: prod.split)
  show ?thesis
    using dg ex unfolding nfs4_do_open_downgrade_def Let_def by (auto split: prod.split)
qed

subsection \<open>A request that has been answered\<close>

text \<open>
  The owner \<open>w\<close> of the state \<open>a\<close> has \<open>R\<close> as its last answer, to operation \<open>op\<close> with sequence number \<open>n\<close> on
  file \<open>f\<close>, and the stateid is the one of \<open>a\<close> then or now.
\<close>

definition answered ::
  "'fs check_env \<Rightarrow> stateid4 \<Rightarrow> nat \<Rightarrow> nat \<Rightarrow> nat \<Rightarrow> uint32 \<Rightarrow> nat \<Rightarrow> nfs_resop4 \<Rightarrow> 'fs sal \<Rightarrow> bool" where
  "answered cenv sid a w op n f R s \<longleftrightarrow>
    in_table s a \<and> sid_other sid = stateid_other (st s a)
    \<and> drop_bit 32 (fst (sid_other sid)) = server_epoch cenv AND 0xFFFFFFFF
    \<and> sid_other sid \<noteq> all_zero \<and> sid_other sid \<noteq> all_ones
    \<and> state_owner (st s a) = Some w \<and> state_obj (st s a) = handle_digest (chk_sal cenv) f \<and> handle_cmp cenv f f
    \<and> Check_seqid (st s a) (sid_seqid sid) n True n \<in> {NFS4_OK, NFS4ERR_REPLAY}
    \<and> so_last_entry (nfs4_owners s w) = Some f \<and> so_seqid (nfs4_owners s w) = n \<and> so_argop (nfs4_owners s w) = op
    \<and> so_resp (nfs4_owners s w) = R"

lemma answered_check:
  assumes inv: "table_inv (chk_sal cenv) H s" "resolves (chk_sal cenv)" and ans: "answered cenv sid a w op n f R s"
    and lease: "lease_ok cenv (so_clientrec (nfs4_owners s w)) data s"
    and flags: "flags AND STATEID_SPECIAL_FREE = 0" "flags AND (STATEID_SPECIAL_CLOSE_40 OR STATEID_SPECIAL_CLOSE_41) = 0"
  shows "\<exists>rc data' s'. nfs4_Check_Stateid cenv sid (Some f) flags n True data s = (sid, rc, Some a, data', s')
    \<and> rc \<in> {NFS4_OK, NFS4ERR_REPLAY} \<and> only_clients (inc_state_t_ref a s) s'
    \<and> minorversion data' = minorversion data \<and> current_obj data' = current_obj data"
proof -
  note A = ans [unfolded answered_def]
  obtain data' s' where it: "Check_it cenv sid (Some f) flags n True data s =
      (Check_seqid (st s a) (sid_seqid sid) n True n, Some a, data', s')"
    "minorversion data' = minorversion data \<and> current_obj data' = current_obj data"
    using Check_it_found [OF inv, of a sid w data f flags n True] A lease flags(1) by (auto simp: Let_def)
  have "only_clients (inc_state_t_ref a s) s'" using Check_it_outcome [OF inv(1) flags(2) it(1)] by simp
  moreover have "sid_other sid \<noteq> all_zero" "sid_other sid \<noteq> all_ones" using A by blast+
  then have "nfs4_Check_Stateid cenv sid (Some f) flags n True data s = (sid, Check_it cenv sid (Some f) flags n True data s)"
    by (simp add: nfs4_Check_Stateid_def)
  ultimately show ?thesis using it A by auto
qed

lemma answered_seqid:
  assumes "table_inv (chk_sal cenv) H s" "answered cenv sid a w op n f R s" "only_clients (inc_state_t_ref a s) s'"
  shows "get_state_owner_ref a s' = (Some w, add_owner_ref w 1 s')"
    "Check_nfs4_seqid (Some w) n op f resp (add_owner_ref w 1 s') = (False, R)"
    "only_clients s (dec_nfs4_state_ref a (add_owner_ref w (- 1) (add_owner_ref w 1 s')))"
proof -
  note A = assms(2) [unfolded answered_def]
  obtain cl fs where s': "s' = (inc_state_t_ref a s)\<lparr>clients := cl, fsal := fs\<rparr>" using assms(3) by (auto simp: only_clients_def)
  have ref: "state_refcount (st s a) \<ge> 1"
    using table_invD(7) [OF assms(1) table_inv_allocated [OF assms(1)], of a] A by simp
  show "get_state_owner_ref a s' = (Some w, add_owner_ref w 1 s')" using A by (simp add: get_state_owner_ref_def s')
  show "Check_nfs4_seqid (Some w) n op f resp (add_owner_ref w 1 s') = (False, R)"
    using A by (simp add: Check_nfs4_seqid_def s' add_owner_ref_def upd_owner_def Let_def)
  have "add_owner_ref w (- 1) (add_owner_ref w 1 s') = s'" by (simp add: add_owner_ref_def upd_owner_def)
  then show "only_clients s (dec_nfs4_state_ref a (add_owner_ref w (- 1) (add_owner_ref w 1 s')))"
    using refs_given_back(3) [OF ref, where cl = cl and fs = fs] by (auto simp: s')
qed

lemma open_downgrade_repeated:
  assumes inv: "table_inv (chk_sal cenv) H s" "resolves (chk_sal cenv)"
    and ans: "answered cenv (dg_stateid args) a w NFS4_OP_OPEN_DOWNGRADE (dg_seqid args) (current_obj data) R s"
    and data: "lease_ok cenv (so_clientrec (nfs4_owners s w)) data s" "minorversion data = 0"
      "nfs4_sanity_check_FH (currentFH data) (current_filetype data) NO_FILE_TYPE False = NFS4_OK"
      "current_filetype data = REGULAR_FILE"
  shows "fst (nfs4_op_open_downgrade env cenv ctx args resp data s) = R
    \<and> only_clients s (snd (snd (nfs4_op_open_downgrade env cenv ctx args resp data s)))"
proof -
  obtain rc data' s' where c: "nfs4_Check_Stateid cenv (dg_stateid args) (Some (current_obj data)) STATEID_SPECIAL_FOR_LOCK
      (dg_seqid args) True data s = (dg_stateid args, rc, Some a, data', s')" "rc \<in> {NFS4_OK, NFS4ERR_REPLAY}"
      "only_clients (inc_state_t_ref a s) s'" "minorversion data' = 0" "current_obj data' = current_obj data"
    using answered_check [OF inv ans data(1), of STATEID_SPECIAL_FOR_LOCK] data(2) by auto
  note q = answered_seqid [OF inv(1) ans c(3)]
  show ?thesis using data(2-4) c q by (auto simp: nfs4_op_open_downgrade_def open_downgrade_state_def Let_def)
qed

subsection \<open>A request that is executed\<close>

lemma Check_seqid_after:
  assumes "state_seqid x = next_seqid q" "k = q \<or> k = 0 \<and> state_type x \<noteq> STATE_TYPE_LAYOUT"
  shows "Check_seqid x k m True m \<in> {NFS4_OK, NFS4ERR_REPLAY}"
proof -
  have "q - next_seqid q = (if q + 1 = 0 then - 2 else - 1)" "q + 1 = 0 \<longleftrightarrow> q = 0xFFFFFFFF"
    by (auto simp: next_seqid_def eq_neg_iff_add_eq_0 [symmetric])
  then show ?thesis using assms by (auto simp: Check_seqid_def next_seqid_def Let_def split: if_splits)
qed

lemma answered_only_clients:
  assumes "only_clients s s'"
  shows "answered cenv sid a w op n f R s' = answered cenv sid a w op n f R s"
  using assms by (auto simp: only_clients_def answered_def in_table_def)

text \<open>The state after the answer has been saved and the references are given back.\<close>

definition saved :: "nat \<Rightarrow> nat \<Rightarrow> uint32 \<Rightarrow> nat \<Rightarrow> nat \<Rightarrow> nfs_resop4 \<Rightarrow> 'fs sal \<Rightarrow> 'fs sal" where
  "saved a w n op f R s =
    dec_nfs4_state_ref a (add_owner_ref w (- 1) (Copy_nfs4_state_req (Some w) n op f R (upd_st a (state_seqid_update next_seqid) s)))"

lemma saved_answered:
  assumes inv: "table_inv (chk_sal cenv) H s" and tab: "in_table s a"
    and s2: "only_share a (add_owner_ref w 1 ((inc_state_t_ref a s)\<lparr>clients := cl, fsal := fs\<rparr>)) s2"
    and sid: "sid_other sid = stateid_other (st s a)" "drop_bit 32 (fst (sid_other sid)) = server_epoch cenv AND 0xFFFFFFFF"
      "sid_other sid \<noteq> all_zero" "sid_other sid \<noteq> all_ones"
      "sid_seqid sid = state_seqid (st s a) \<or> sid_seqid sid = 0 \<and> state_type (st s a) \<noteq> STATE_TYPE_LAYOUT"
    and obj: "state_owner (st s a) = Some w" "state_obj (st s a) = handle_digest (chk_sal cenv) f" "handle_cmp cenv f f"
  shows "table_inv (chk_sal cenv) H (saved a w n op f R s2)" "answered cenv sid a w op n f R (saved a w n op f R s2)"
    "so_clientrec (nfs4_owners (saved a w n op f R s2) w) = so_clientrec (nfs4_owners s w)"
proof -
  let ?s = "saved a w n op f R s2" and ?i = "add_owner_ref w 1 ((inc_state_t_ref a s)\<lparr>clients := cl, fsal := fs\<rparr>)"
  have "\<exists>d fl fs2. s2 = ?i\<lparr>st := (st ?i)(a := (st ?i a)\<lparr>state_data := d\<rparr>), files := fl, fsal := fs2\<rparr>"
    by (intro exI) (rule s2 [unfolded only_share_def])
  then obtain d fl fs2 where s2': "s2 = ?i\<lparr>st := (st ?i)(a := (st ?i a)\<lparr>state_data := d\<rparr>), files := fl, fsal := fs2\<rparr>" by blast
  let ?x = "state_seqid_update next_seqid ((st s a)\<lparr>state_data := d\<rparr>)"
  have ref: "state_refcount (st s a) \<ge> 1"
    using table_invD(7) [OF inv table_inv_allocated [OF inv tab]] tab by simp
  have f2: "st s2 = (st s)(a := (st s a)\<lparr>state_refcount := state_refcount (st s a) + 1, state_data := d\<rparr>)"
    "allocated s2 = allocated s" "next_state s2 = next_state s" "ht_state_id s2 = ht_state_id s" "ht_state_obj s2 = ht_state_obj s"
    "nfs4_owners s2 = (nfs4_owners s)(w := (nfs4_owners s w)\<lparr>so_refcount := so_refcount (nfs4_owners s w) + 1\<rparr>)"
    by (simp_all add: s2' add_owner_ref_def upd_owner_def)
  have e: "st ?s = (st s)(a := ?x)" "allocated ?s = allocated s" "next_state ?s = next_state s"
    "ht_state_id ?s = ht_state_id s" "ht_state_obj ?s = ht_state_obj s"
    "nfs4_owners ?s w = (nfs4_owners s w)\<lparr>so_resp := R, so_argop := op, so_last_entry := Some f, so_seqid := n\<rparr>"
    using ref by (simp_all add: saved_def Copy_nfs4_state_req_def upd_owner_def add_owner_ref_def upd_st_def f2)
  have "table_inv (chk_sal cenv) H (upd_st a (\<lambda>_. ?x) s)" by (rule table_inv_data [OF inv]) (simp_all add: same_state_def)
  then show "table_inv (chk_sal cenv) H ?s" by (rule table_inv_frame) (simp_all add: e upd_st_def)
  show "so_clientrec (nfs4_owners ?s w) = so_clientrec (nfs4_owners s w)" by (simp add: e)
  have "Check_seqid (st ?s a) (sid_seqid sid) n True n \<in> {NFS4_OK, NFS4ERR_REPLAY}"
    by (rule Check_seqid_after [of _ "state_seqid (st s a)"]) (use sid(5) in \<open>simp_all add: e\<close>)
  then show "answered cenv sid a w op n f R ?s"
    using tab sid(1-4) obj unfolding answered_def by (simp add: e in_table_def)
qed

lemma open_downgrade_state_first:
  assumes inv: "table_inv (chk_sal cenv) H s" and tab: "in_table s a"
    and sid: "sid_other (dg_stateid args) = stateid_other (st s a)"
      "drop_bit 32 (fst (sid_other (dg_stateid args))) = server_epoch cenv AND 0xFFFFFFFF"
      "sid_other (dg_stateid args) \<noteq> all_zero" "sid_other (dg_stateid args) \<noteq> all_ones"
    and own: "state_owner (st s a) = Some w" "so_last_entry (nfs4_owners s w) \<noteq> None"
    and obj: "state_obj (st s a) = handle_digest (chk_sal cenv) f" "handle_cmp cenv f f"
    and rc: "rc = Check_seqid (st s a) (sid_seqid (dg_stateid args)) (dg_seqid args) True (so_seqid (nfs4_owners s w))"
      "rc = NFS4_OK \<and> (sid_seqid (dg_stateid args) = state_seqid (st s a)
          \<or> sid_seqid (dg_stateid args) = 0 \<and> state_type (st s a) \<noteq> STATE_TYPE_LAYOUT)
       \<or> rc = NFS4ERR_REPLAY \<and> dg_seqid args = so_seqid (nfs4_owners s w)"
    and s2: "s2 = (inc_state_t_ref a s)\<lparr>clients := cl, fsal := fs\<rparr>" and data: "minorversion data = 0" "current_obj data = f"
    and res: "open_downgrade_state env ctx args a resp data s2 = (resp1, data1, s1)" "resp_status resp1 = NFS4_OK"
  shows "table_inv (chk_sal cenv) H s1 \<and> answered cenv (dg_stateid args) a w NFS4_OP_OPEN_DOWNGRADE (dg_seqid args) f resp1 s1
    \<and> so_clientrec (nfs4_owners s1 w) = so_clientrec (nfs4_owners s w)"
proof -
  let ?s = "add_owner_ref w 1 s2" and ?n = "dg_seqid args"
  have ref: "state_refcount (st s a) \<ge> 1"
    using table_invD(7) [OF inv table_inv_allocated [OF inv tab]] tab by simp
  have get: "get_state_owner_ref a s2 = (Some w, ?s)" using own by (simp add: get_state_owner_ref_def s2)
  have owner: "nfs4_owners ?s w = (nfs4_owners s w)\<lparr>so_refcount := so_refcount (nfs4_owners s w) + 1\<rparr>"
    by (simp add: s2 add_owner_ref_def upd_owner_def)
  show ?thesis
  proof (cases "?n = so_seqid (nfs4_owners s w) + 1")
    case True
    then have ok: "rc = NFS4_OK" using rc(2) by auto
    have go: "Check_nfs4_seqid (Some w) ?n NFS4_OP_OPEN_DOWNGRADE f resp ?s = (True, resp)"
      using True own(2) by (simp add: Check_nfs4_seqid_def owner Let_def)
    obtain status s3 where dg: "nfs4_do_open_downgrade env ctx f (dg_share_access args) (dg_share_deny args) a ?s = (status, s3)"
      by fastforce
    then have share: "only_share a ?s s3" using do_open_downgrade_frame [of a ?s env ctx f] by (metis snd_conv)
    have "status = NFS4_OK" using res get go dg data by (auto simp: open_downgrade_state_def Let_def split: if_splits)
    then have "s1 = saved a w ?n NFS4_OP_OPEN_DOWNGRADE f resp1 s3"
      using res(1) get go dg data by (auto simp: open_downgrade_state_def saved_def update_stateid_def Let_def)
    with saved_answered [OF inv tab share [unfolded s2] sid _ own(1) obj] ok rc(2) show ?thesis by auto
  next
    case False
    then have eq: "resp1 = so_resp (nfs4_owners s w)" "so_seqid (nfs4_owners s w) = ?n"
      "so_argop (nfs4_owners s w) = NFS4_OP_OPEN_DOWNGRADE" "so_last_entry (nfs4_owners s w) = Some f"
      and s1: "s1 = dec_nfs4_state_ref a (add_owner_ref w (- 1) ?s)"
      using res get data own(2)
      by (auto simp: open_downgrade_state_def Check_nfs4_seqid_def owner Let_def split: if_splits)
    have "add_owner_ref w (- 1) ?s = s2" by (simp add: add_owner_ref_def upd_owner_def)
    then have "s1 = s\<lparr>clients := cl, fsal := fs\<rparr>" using refs_given_back(3) [OF ref, where cl = cl and fs = fs] by (simp add: s1 s2)
    moreover have "answered cenv (dg_stateid args) a w NFS4_OP_OPEN_DOWNGRADE ?n f resp1 s"
      using tab sid own obj eq rc unfolding answered_def by auto
    ultimately show ?thesis
      using answered_only_clients [OF only_clientsI(1), of cenv] table_inv_frame [OF inv, of "s\<lparr>clients := cl, fsal := fs\<rparr>"] by simp
  qed
qed

lemma open_downgrade_first:
  assumes inv: "table_inv (chk_sal cenv) H s" "resolves (chk_sal cenv)" "\<And>x y. handle_cmp cenv x y \<longleftrightarrow> x = y"
    and a: "ht_state_id s (sid_other (dg_stateid args)) = Some a" "state_owner (st s a) = Some w"
      "so_last_entry (nfs4_owners s w) \<noteq> None" "sid_other (dg_stateid args) \<noteq> all_zero" "sid_other (dg_stateid args) \<noteq> all_ones"
    and res: "nfs4_op_open_downgrade env cenv ctx args resp data s = (resp1, data1, s1)" "resp_status resp1 = NFS4_OK"
      "minorversion data = 0"
  shows "table_inv (chk_sal cenv) H s1
    \<and> answered cenv (dg_stateid args) a w NFS4_OP_OPEN_DOWNGRADE (dg_seqid args) (current_obj data) resp1 s1
    \<and> so_clientrec (nfs4_owners s1 w) = so_clientrec (nfs4_owners s w)"
proof -
  let ?resp = "resp\<lparr>resop := NFS4_OP_OPEN_DOWNGRADE, resp_status := NFS4_OK\<rparr>" and ?f = "current_obj data"
  have tab: "in_table s a" using a(1) table_invD(1) [OF inv(1) a(1)] by (simp add: in_table_def)
  obtain sid rc r data2 s2 where c: "nfs4_Check_Stateid cenv (dg_stateid args) (Some ?f) STATEID_SPECIAL_FOR_LOCK
      (dg_seqid args) True data s = (sid, rc, r, data2, s2)" using prod_cases5 by blast
  have sid: "sid = dg_stateid args" "Check_it cenv (dg_stateid args) (Some ?f) STATEID_SPECIAL_FOR_LOCK (dg_seqid args) True data s
      = (rc, r, data2, s2)" using c a(4,5) by (auto simp: nfs4_Check_Stateid_def)
  have call: "minorversion data2 = 0" "current_obj data2 = ?f" using Check_Stateid_call [OF c] res(3) by (simp_all add: same_call_def)
  note out = Check_it_outcome [OF inv(1) _ sid(2), simplified]
  have rc: "rc = NFS4_OK \<or> rc = NFS4ERR_REPLAY" "r \<noteq> None"
    using res(1,2) c out by (auto simp: nfs4_op_open_downgrade_def Let_def res(3) split: if_splits option.splits)
  then have r: "r = Some a" using out a(1) by (auto simp: stateid_names_def split: option.splits)
  obtain cl fs where s2: "s2 = (inc_state_t_ref a s)\<lparr>clients := cl, fsal := fs\<rparr>"
    and names: "stateid_names cenv (dg_stateid args) (Some ?f) (dg_seqid args) True rc a data2 s"
    using out by (auto simp: r only_clients_def)
  have obj: "state_obj (st s a) = handle_digest (chk_sal cenv) ?f"
  proof -
    obtain x fs' where "create_handle (chk_sal cenv) x (state_obj (st s a)) (fsal s) = (Some ?f, fs')"
      using names inv(3) by (auto simp: stateid_names_def)
    moreover obtain g where g: "state_obj (st s a) = handle_digest (chk_sal cenv) g"
      using table_inv_attached [OF inv(1) tab] by (auto simp: attached_def)
    moreover obtain fs'' where "create_handle (chk_sal cenv) x (handle_digest (chk_sal cenv) g) (fsal s) = (Some g, fs'')"
      using inv(2) unfolding resolves_def by blast
    ultimately show ?thesis by simp
  qed
  have st: "open_downgrade_state env ctx args a ?resp data2 s2 = (resp1, data1, s1)"
    using res rc c r by (auto simp: nfs4_op_open_downgrade_def Let_def split: if_splits)
  show ?thesis
    by (rule open_downgrade_state_first [OF inv(1) tab _ _ a(4,5,2,3) obj _ _ _ s2 call st res(2)])
       (use names a(2) table_invD(1) [OF inv(1) a(1)] inv(3) in \<open>auto simp: stateid_names_def\<close>)
qed

subsection \<open>A small system\<close>

definition small_request_env :: "unit check_env" where
  "small_request_env = small_check_env\<lparr>chk_sal := sal_env small_open_env\<rparr>"

text \<open>Owner 4 has file 2 open, and its last request, number 0, was that OPEN.\<close>

definition opened_once :: "unit sal" where
  "opened_once = Copy_nfs4_state_req (Some 4) 0 18 2
     \<lparr>resop = 18, resp_status = NFS4_OK, resp_stateid = \<lparr>sid_seqid = 1, sid_other = (5, 1)\<rparr>\<rparr> (dec_nfs4_state_ref 0 one_open)"

definition same_again :: OPEN_DOWNGRADE4args where
  "same_again = \<lparr>dg_stateid = \<lparr>sid_seqid = 0, sid_other = (5, 1)\<rparr>, dg_seqid = 1, dg_share_access = 1, dg_share_deny = 2\<rparr>"

lemma opened_once_reach: "open_reach small_open_env (\<lambda>_. []) opened_once"
  by (rule rest [OF one_open_reach]) (simp_all add: opened_once_def Copy_nfs4_state_req_def upd_owner_def)

lemma one_open_share:
  "st one_open 0 = \<lparr>state_export = Some 0, state_owner = Some 4, state_obj = handle_digest (sal_env small_open_env) 2,
     state_data = Share_data \<lparr>share_access = 1, share_deny = 2, share_access_prev = 2, share_deny_prev = 4\<rparr>,
     state_type = STATE_TYPE_SHARE, state_seqid = 0, state_refcount = 2, stateid_other = (5, 1), state_refer = None\<rparr>"
  "ht_state_id one_open (5, 1) = Some 0"
proof -
  note a = state_add_success [OF added_open_eq]
  have calls: "fsal_open small_open_env obj fl fs = (\<lparr>major = ERR_FSAL_NO_ERROR, minor = 0\<rparr>, fs)" "\<not> fso_share_support small_open_env ctx"
    for obj fl fs ctx by (simp_all add: small_open_env_def)
  have "clients small_sal c = \<lparr>cid_clientid = 5, cid_last_renew = 0, cid_confirmed = CONFIRMED_CLIENT_ID, cid_refcount = 1,
       cid_lease_reservations = 0, cid_stateid_counter = 0\<rparr>" for c by (simp add: small_sal_def)
  then have n: "st added_open 0 = \<lparr>state_export = Some 0, state_owner = Some 4, state_obj = handle_digest (sal_env small_open_env) 2,
     state_data = Share_data \<lparr>share_access = 1, share_deny = 2, share_access_prev = 0, share_deny_prev = 0\<rparr>,
     state_type = STATE_TYPE_SHARE, state_seqid = 0, state_refcount = 2, stateid_other = (5, 1), state_refer = None\<rparr>"
    "ht_state_id added_open (5, 1) = Some 0" by (simp_all add: a(2,6) new_state_def)
  show "st one_open 0 = \<lparr>state_export = Some 0, state_owner = Some 4, state_obj = handle_digest (sal_env small_open_env) 2,
     state_data = Share_data \<lparr>share_access = 1, share_deny = 2, share_access_prev = 2, share_deny_prev = 4\<rparr>,
     state_type = STATE_TYPE_SHARE, state_seqid = 0, state_refcount = 2, stateid_other = (5, 1), state_refer = None\<rparr>"
    "ht_state_id one_open (5, 1) = Some 0"
    unfolding one_open_def one_open_step
    by (simp_all add: open4_share_def calls FSAL_IS_ERROR_def state_share_add_def state_share_change_def do_share_op_def
        state_share_set_prev_def set_share_def share_of_def upd_st_def upd_share_def upd_file_def n Let_def)
qed

lemma one_open_client: "so_clientrec (nfs4_owners one_open w) = 0"
proof -
  have "so_clientrec (nfs4_owners added_open w) = 0"
    unfolding added_open_def state_add_impl_eq
    by (simp add: nfs4_State_Set_def find_state_obj_def small_open_env_def small_env_def small_sal_def new_state_def Let_def
        state_add_attach_def sal_parts prepared_def alloc_state_def nfs4_BuildStateId_Other_def)
  then show ?thesis
    unfolding one_open_def one_open_step
    by (simp add: open4_share_def small_open_env_def FSAL_IS_ERROR_def state_share_add_def state_share_change_def do_share_op_def
        state_share_set_prev_def set_share_def share_of_def upd_st_def upd_share_def upd_file_def Let_def)
qed

lemma small_request:
  "good_env small_open_env" "chk_sal small_request_env = sal_env small_open_env" "handle_cmp small_request_env x y \<longleftrightarrow> x = y"
  "server_epoch small_request_env = 0" "ht_state_id opened_once (5, 1) = Some 0" "state_owner (st opened_once 0) = Some 4"
  "so_last_entry (nfs4_owners opened_once 4) = Some 2" "so_seqid (nfs4_owners opened_once 4) = 0"
  "state_seqid (st opened_once 0) = 0" "state_type (st opened_once 0) = STATE_TYPE_SHARE" "stateid_other (st opened_once 0) = (5, 1)"
  "state_obj (st opened_once 0) = handle_digest (sal_env small_open_env) 2"
  "share_of opened_once 0 = \<lparr>share_access = 1, share_deny = 2, share_access_prev = 2, share_deny_prev = 4\<rparr>"
  "so_clientrec (nfs4_owners opened_once 4) = 0" "table_inv (sal_env small_open_env) [] opened_once"
  "minorversion small_data = 0" "current_obj small_data = 2" "current_filetype small_data = REGULAR_FILE"
  "preserved_clientid small_data = Some 0"
  using small_open_good open_reach_inv [OF opened_once_reach small_open_good]
  by (simp_all add: small_request_env_def small_check_env_def opened_once_def Copy_nfs4_state_req_def upd_owner_def
      one_open_share one_open_client share_of_def open_inv_def small_data_def)

lemma small_sanity: "nfs4_sanity_check_FH (currentFH small_data) REGULAR_FILE NO_FILE_TYPE False = NFS4_OK"
  by (simp add: small_data_def nfs4_sanity_check_FH_def nfs4_Is_Fh_Empty_def nfs4_Is_Fh_Invalid_def nfs4_Is_Fh_DSHandle_def
      fhversion_def fhflags1_def nfs4_sizeof_handle_def fs_len_def)

lemma small_downgrade:
  "resp_status (fst (nfs4_op_open_downgrade small_open_env small_request_env 0 same_again resp small_data opened_once)) = NFS4_OK"
proof -
  let ?sid = "\<lparr>sid_seqid = 0, sid_other = (5, 1)\<rparr>"
  note inv = small_request(15) [folded small_request(2)] and g = good_envD(2) [OF small_open_good, folded small_request(2)]
  have tab: "in_table opened_once 0" by (simp add: in_table_def small_request)
  have lease: "lease_ok small_request_env (so_clientrec (nfs4_owners opened_once 4)) small_data opened_once"
    by (simp add: lease_ok_def small_request)
  obtain data' s2 where it: "Check_it small_request_env ?sid (Some 2) 8 1 True small_data opened_once = (NFS4_OK, Some 0, data', s2)"
    "minorversion data' = 0" "current_obj data' = 2"
    using Check_it_found [OF inv g tab _ _ small_request(6) lease, of ?sid 2 8 1 True]
    by (auto simp: small_request Check_seqid_def Let_def)
  obtain cl fs where s2: "s2 = (inc_state_t_ref 0 opened_once)\<lparr>clients := cl, fsal := fs\<rparr>"
    using Check_it_outcome [OF inv _ it(1)] by (auto simp: only_clients_def)
  let ?s = "add_owner_ref 4 1 s2"
  have sh: "share_of ?s 0 = share_of opened_once 0"
    by (simp add: s2 share_of_def add_owner_ref_def upd_owner_def)
  obtain d fs' where "state_share_downgrade small_open_env 0 2 1 2 0 ?s = (STATE_SUCCESS, reserve 2 1 2 0 d fs' ?s)"
    using state_share_downgrade_success [OF small_open_good, of 0 2 1 2 0 ?s] by (auto simp: sh small_request)
  moreover have "\<not> support_ex (sal_env small_open_env) 2" by (simp add: small_open_env_def small_env_def)
  ultimately have dg: "fst (nfs4_do_open_downgrade small_open_env 0 2 1 2 0 ?s) = NFS4_OK"
    by (simp add: nfs4_do_open_downgrade_def sh small_request)
  have "get_state_owner_ref 0 s2 = (Some 4, ?s)" by (simp add: get_state_owner_ref_def s2 small_request)
  moreover have "Check_nfs4_seqid (Some 4) 1 NFS4_OP_OPEN_DOWNGRADE 2 r ?s = (True, r)" for r
    by (simp add: Check_nfs4_seqid_def s2 add_owner_ref_def upd_owner_def small_request Let_def)
  ultimately have "resp_status (fst (open_downgrade_state small_open_env 0 same_again 0 r data' s2)) = NFS4_OK" for r
    using dg it(2,3) by (auto simp: open_downgrade_state_def same_again_def Let_def split: prod.splits)
  then show ?thesis
    using it(1) by (simp add: nfs4_op_open_downgrade_def small_request small_sanity same_again_def nfs4_Check_Stateid_def)
qed

subsection \<open>Properties\<close>

text \<open>C8: an NFSv4.0 OPEN_DOWNGRADE that has succeeded and is sent again, with the same arguments, gets the same
  answer, and nothing but leases and the back end changes: the reservation is not changed twice.  The
  owner has made a request before, and the lease of the client is valid or reserved the second time.\<close>

theorem open_downgrade_replay:
  assumes reach: "open_reach env An s" "good_env env" and cenv: "chk_sal cenv = sal_env env" "\<And>x y. handle_cmp cenv x y \<longleftrightarrow> x = y"
    and a: "ht_state_id s (sid_other (dg_stateid args)) = Some a" "state_owner (st s a) = Some w"
      "so_last_entry (nfs4_owners s w) \<noteq> None" "sid_other (dg_stateid args) \<noteq> all_zero" "sid_other (dg_stateid args) \<noteq> all_ones"
    and first: "nfs4_op_open_downgrade env cenv ctx args resp data s = (resp1, data1, s1)" "resp_status resp1 = NFS4_OK"
      "minorversion data = 0"
    and again: "minorversion data2 = 0" "current_obj data2 = current_obj data" "currentFH data2 = currentFH data"
      "current_filetype data2 = current_filetype data" "lease_ok cenv (so_clientrec (nfs4_owners s w)) data2 s1"
  shows "fst (nfs4_op_open_downgrade env cenv ctx args resp2 data2 s1) = resp1
    \<and> only_clients s1 (snd (snd (nfs4_op_open_downgrade env cenv ctx args resp2 data2 s1)))"
proof -
  have inv: "table_inv (chk_sal cenv) [] s" "resolves (chk_sal cenv)"
    using open_reach_inv [OF reach] good_envD [OF reach(2)] by (simp_all add: open_inv_def cenv)
  note s1 = open_downgrade_first [OF inv cenv(2) a first]
  have "nfs4_sanity_check_FH (currentFH data) (current_filetype data) NO_FILE_TYPE False = NFS4_OK"
    "current_filetype data = REGULAR_FILE"
    using first(1,2) by (auto simp: nfs4_op_open_downgrade_def Let_def split: if_splits)
  then show ?thesis
    using open_downgrade_repeated [of cenv "[]" s1 args a w data2 resp1 env ctx resp2] s1 inv(2) again by simp
qed

theorem open_downgrade_replay_witness:
  "let first = nfs4_op_open_downgrade small_open_env small_request_env 0 same_again
       \<lparr>resop = 0, resp_status = 0, resp_stateid = \<lparr>sid_seqid = 0, sid_other = (0, 0)\<rparr>\<rparr> small_data opened_once;
       again = nfs4_op_open_downgrade small_open_env small_request_env 0 same_again
       \<lparr>resop = 0, resp_status = 0, resp_stateid = \<lparr>sid_seqid = 0, sid_other = (0, 0)\<rparr>\<rparr> small_data (snd (snd first))
   in resp_status (fst first) = NFS4_OK \<and> fst again = fst first \<and> only_clients (snd (snd first)) (snd (snd again))"
proof -
  let ?r = "\<lparr>resop = 0, resp_status = 0, resp_stateid = \<lparr>sid_seqid = 0, sid_other = (0, 0)\<rparr>\<rparr>"
  let ?first = "nfs4_op_open_downgrade small_open_env small_request_env 0 same_again ?r small_data opened_once"
  have eq: "?first = (fst ?first, fst (snd ?first), snd (snd ?first))" by simp
  have sid: "dg_stateid same_again = \<lparr>sid_seqid = 0, sid_other = (5, 1)\<rparr>" by (simp add: same_again_def)
  have "fst (nfs4_op_open_downgrade small_open_env small_request_env 0 same_again ?r small_data (snd (snd ?first))) = fst ?first
    \<and> only_clients (snd (snd ?first))
        (snd (snd (nfs4_op_open_downgrade small_open_env small_request_env 0 same_again ?r small_data (snd (snd ?first)))))"
    by (rule open_downgrade_replay [OF opened_once_reach small_open_good small_request(2,3) _ small_request(6) _ _ _ eq
          small_downgrade small_request(16) small_request(16)]) (simp_all add: sid small_request lease_ok_def)
  then show ?thesis using small_downgrade [of ?r] by (simp only: Let_def)
qed

end
