(* ===== verification/Spec2Isabelle.thy ===== *)
theory Spec2Isabelle
  imports Status_Codes Access_Check Lock_Theorems Glist Base64 Request_Theorems
begin

text \<open>
  \<^bold>\<open>A verification development for NFS-Ganesha.\<close>
\<close>

end
